theory Spec2Isabelle
  imports Main "HOL-Library.Word"
begin

section \<open>Static analysis of the JAF source tree (jaf_static_analysis.c)\<close>

text \<open>
  The analyser runs three passes over a parsed tree while it mutates the tree and the
  tables of an \<open>ain\<close> object. The embedding passes both explicitly: a function takes
  the table and the tree node and returns the updated ones. \<open>ERROR(...)\<close>, a failed
  \<open>assert\<close> and a dereferenced null pointer end the run; they are the \<open>Inl\<close> branch of
  a sum. A C array with its element counter is a list. The counters and indices of the
  source (\<open>int\<close>, \<open>size_t\<close>) count the elements of arrays that are in memory and do not
  reach \<open>2^31\<close>; the counters are \<open>nat\<close>, and the fields that also hold numbers
  returned by a lookup (\<open>struct_no\<close>, \<open>var_no\<close>, \<open>func_no\<close>) are \<open>int\<close>.
\<close>

subsection \<open>Errors\<close>

datatype jaf_type =
    JAF_VOID | JAF_INT | JAF_FLOAT | JAF_STRING | JAF_STRUCT | JAF_ENUM | JAF_TYPEDEF

text \<open>
  One constructor per \<open>ERROR\<close> message of the file, named as the specification names
  the error kinds: \<open>UnsupportedType JAF_ENUM\<close> is "Enums not supported",
  \<open>UnsupportedType t\<close> otherwise "Unknown type: %d"; \<open>DeclIsNull\<close> and \<open>TypeIsNull\<close>
  are the two messages of \<open>define_types\<close>. \<open>UnnamedParameter\<close> is the failed
  \<open>assert(decl->params->items[i]->decl.name)\<close>, \<open>AssertionFailed\<close> any other failed
  \<open>assert\<close>. \<open>Crash\<close> is a dereferenced null pointer, an out-of-bounds index or a
  read of the wrong member of the item union. \<open>CollaboratorError\<close> is an error of the
  type deriver, which the analyser lets through unchanged.
\<close>

datatype error =
    AnonymousNotSupported
  | DuplicateDefinition
  | DeclIsNull
  | TypeIsNull
  | UnresolvedTypedef string
  | UnsupportedType jaf_type
  | NestedFunctionsNotSupported
  | InitvalNotConstant
  | TypeMismatch
  | UnnamedParameter
  | AssertionFailed
  | Crash
  | CollaboratorError string

subsection \<open>The tree\<close>

text \<open>
  Expressions. The file reads only the kind of an expression and, of the three literal
  kinds, the payload (\<open>expr->i\<close>, \<open>expr->f\<close>, \<open>expr->s->text\<close>). A \<open>float\<close> is kept as
  its 32 bits. The other kinds are the ones the specification lists (variable
  reference, unary and binary operation, call).
\<close>

datatype jaf_operator = JAF_PLUS | JAF_MINUS | JAF_MULTIPLY

datatype jaf_expression =
    JAF_EXP_INT "32 word"
  | JAF_EXP_FLOAT "32 word"
  | JAF_EXP_STRING string
  | JAF_EXP_IDENTIFIER string
  | JAF_EXP_UNARY jaf_operator jaf_expression
  | JAF_EXP_BINARY jaf_operator jaf_expression jaf_expression
  | JAF_EXP_FUNCALL jaf_expression "jaf_expression list"

text \<open>
  Type specifiers, declarations and block items are mutually recursive: a struct
  specifier carries its member block, a function declaration its parameter block and
  body. A pointer that the file tests against null somewhere is an \<open>option\<close>: items,
  expressions, names, the type of a declaration, the parameter block, the member block.
  The block of a compound, switch or for-init and the body of a function declaration
  are dereferenced without a test wherever they are used, and are blocks here. A block
  is the array of its item pointers.
\<close>

datatype jaf_type_specifier =
    Type_Specifier
      (ts_type: jaf_type)
      (ts_name: "string option")
      (struct_no: int)
      (ts_def: "jaf_block_item option list option")
and jaf_declaration =
    Declaration
      (decl_name: "string option")
      (decl_type: "jaf_type_specifier option")
      (decl_init: "jaf_expression option")
      (decl_params: "jaf_block_item option list option")
      (decl_body: "jaf_block_item option list")
      (var_no: int)
      (func_no: int)
and jaf_block_item =
    JAF_DECLARATION jaf_declaration
  | JAF_FUNDECL jaf_declaration
  | JAF_STMT_LABELED "jaf_block_item option"
  | JAF_STMT_COMPOUND "jaf_block_item option list"
  | JAF_STMT_EXPRESSION "jaf_expression option"
  | JAF_STMT_IF "jaf_expression option" "jaf_block_item option" "jaf_block_item option"
  | JAF_STMT_SWITCH "jaf_expression option" "jaf_block_item option list"
  | JAF_STMT_WHILE "jaf_expression option" "jaf_block_item option"
  | JAF_STMT_DO_WHILE "jaf_expression option" "jaf_block_item option"
  | JAF_STMT_FOR "jaf_block_item option list" "jaf_expression option"
      "jaf_expression option" "jaf_block_item option"
  | JAF_STMT_RETURN "jaf_expression option"
  | JAF_STMT_CASE "jaf_block_item option"
  | JAF_STMT_DEFAULT "jaf_block_item option"
  | JAF_STMT_GOTO
  | JAF_STMT_CONTINUE
  | JAF_STMT_BREAK

type_synonym jaf_block = "jaf_block_item option list"

text \<open>Field updates of the C structs.\<close>

definition set_ts_resolved :: "jaf_type_specifier \<Rightarrow> int \<Rightarrow> jaf_type_specifier" where
  "set_ts_resolved t sno = Type_Specifier JAF_STRUCT (ts_name t) sno (ts_def t)"

definition set_decl_type :: "jaf_declaration \<Rightarrow> jaf_type_specifier \<Rightarrow> jaf_declaration" where
  "set_decl_type d t =
     Declaration (decl_name d) (Some t) (decl_init d) (decl_params d) (decl_body d)
       (var_no d) (func_no d)"

definition set_decl_init :: "jaf_declaration \<Rightarrow> jaf_expression option \<Rightarrow> jaf_declaration" where
  "set_decl_init d e =
     Declaration (decl_name d) (decl_type d) e (decl_params d) (decl_body d)
       (var_no d) (func_no d)"

definition set_decl_params :: "jaf_declaration \<Rightarrow> jaf_block option \<Rightarrow> jaf_declaration" where
  "set_decl_params d ps =
     Declaration (decl_name d) (decl_type d) (decl_init d) ps (decl_body d)
       (var_no d) (func_no d)"

definition set_decl_body :: "jaf_declaration \<Rightarrow> jaf_block \<Rightarrow> jaf_declaration" where
  "set_decl_body d b =
     Declaration (decl_name d) (decl_type d) (decl_init d) (decl_params d) b
       (var_no d) (func_no d)"

definition set_var_no :: "jaf_declaration \<Rightarrow> int \<Rightarrow> jaf_declaration" where
  "set_var_no d n =
     Declaration (decl_name d) (decl_type d) (decl_init d) (decl_params d) (decl_body d)
       n (func_no d)"

definition set_func_no :: "jaf_declaration \<Rightarrow> int \<Rightarrow> jaf_declaration" where
  "set_func_no d n =
     Declaration (decl_name d) (decl_type d) (decl_init d) (decl_params d) (decl_body d)
       (var_no d) n"

subsection \<open>The ain object\<close>

datatype ain_data_type = AIN_VOID | AIN_INT | AIN_FLOAT | AIN_STRING | AIN_STRUCT

record ain_type =
  data :: ain_data_type
  struc :: int

record ain_variable =
  var_name :: "string option"
  var_name2 :: "string option"
  var_type :: ain_type

record ain_struct =
  struct_name :: string
  members :: "ain_variable list"

record ain_function =
  fun_name :: string
  return_type :: ain_type
  nr_args :: nat
  nr_vars :: nat
  vars :: "ain_variable list"

datatype ain_value = Int_Value "32 word" | Float_Value "32 word" | String_Value string

record ain_initval =
  global_index :: int
  data_type :: ain_data_type
  initval_value :: ain_value

record ain =
  version :: int
  structures :: "ain_struct list"
  ain_functions :: "ain_function list"
  globals :: "ain_variable list"
  global_initvals :: "ain_initval list"

text \<open>
  \<open>xcalloc\<close> is \<open>calloc\<close> with a check of the result; \<open>xrealloc_array\<close> (system4.h) is
  taken to zero the elements it adds, as \<open>xcalloc\<close> does.
\<close>

definition zero_type :: ain_type where
  "zero_type = \<lparr>data = AIN_VOID, struc = 0\<rparr>"

definition zero_variable :: ain_variable where
  "zero_variable = \<lparr>var_name = None, var_name2 = None, var_type = zero_type\<rparr>"

text \<open>
  Modelled from the spec: \<open>ain_get_struct\<close>, \<open>ain_get_struct_no\<close> and \<open>ain_add_struct\<close>
  are declared in system4/ain.h and their code is not part of the analysed file. The
  specification gives the type table a lookup by name and an insert: the table is
  keyed by name, each struct has a stable numeric id, and a definition allocates a
  fresh id and registers the empty struct. The id is the index into \<open>structures\<close>, as
  \<open>resolve_decl_types\<close> uses it. What \<open>ain_get_struct_no\<close> returns for a name that is
  not in the table is said nowhere: it is the parameter \<open>nf\<close>.
\<close>

fun struct_index :: "ain_struct list \<Rightarrow> string \<Rightarrow> nat option" where
  "struct_index [] u = None"
| "struct_index (s # ss) u =
     (if struct_name s = u then Some 0 else map_option Suc (struct_index ss u))"

definition ain_get_struct :: "ain \<Rightarrow> string \<Rightarrow> ain_struct option" where
  "ain_get_struct a u = map_option (\<lambda>i. structures a ! i) (struct_index (structures a) u)"

definition ain_get_struct_no :: "int \<Rightarrow> ain \<Rightarrow> string \<Rightarrow> int" where
  "ain_get_struct_no nf a u =
     (case struct_index (structures a) u of None \<Rightarrow> nf | Some i \<Rightarrow> int i)"

definition ain_add_struct :: "ain \<Rightarrow> string \<Rightarrow> ain \<times> int" where
  "ain_add_struct a u =
     (a\<lparr>structures := structures a @ [\<lparr>struct_name = u, members = []\<rparr>]\<rparr>,
      int (length (structures a)))"

subsection \<open>Struct definer\<close>

text \<open>
  \<open>item->decl\<close> is a member of the item union: it is the declaration of a
  \<open>JAF_DECLARATION\<close> or \<open>JAF_FUNDECL\<close> item and has no meaning for a statement.
\<close>

fun item_decl :: "jaf_block_item \<Rightarrow> jaf_declaration option" where
  "item_decl (JAF_DECLARATION d) = Some d"
| "item_decl (JAF_FUNDECL d) = Some d"
| "item_decl _ = None"

fun item_set_decl :: "jaf_block_item \<Rightarrow> jaf_declaration \<Rightarrow> jaf_block_item" where
  "item_set_decl (JAF_DECLARATION _) d = JAF_DECLARATION d"
| "item_set_decl (JAF_FUNDECL _) d = JAF_FUNDECL d"
| "item_set_decl i d = i"

text \<open>
  \<open>jaf_define_struct\<close> and \<open>define_types\<close>, with the table they leave behind also when
  they stop with an error: the result is the table and either the error or the updated
  node. \<open>define_types_items\<close> is the loop over \<open>type->def->items\<close>,
  \<open>define_types_decl\<close> the part of \<open>define_types\<close> that works on \<open>decl->decl\<close>. The name of
  the struct is \<open>encode_text_to_input_format\<close> of the name in the tree; that function
  belongs to the text encoding layer and is the parameter \<open>enc\<close>.
\<close>

fun jaf_define_struct ::
    "(string \<Rightarrow> string) \<Rightarrow> ain \<Rightarrow> jaf_type_specifier \<Rightarrow> ain \<times> (error + jaf_type_specifier)"
and define_types_decl ::
    "(string \<Rightarrow> string) \<Rightarrow> ain \<Rightarrow> jaf_declaration \<Rightarrow> ain \<times> (error + jaf_declaration)"
and define_types ::
    "(string \<Rightarrow> string) \<Rightarrow> ain \<Rightarrow> jaf_block_item option \<Rightarrow> ain \<times> (error + jaf_block_item option)"
and define_types_items ::
    "(string \<Rightarrow> string) \<Rightarrow> ain \<Rightarrow> jaf_block_item option list \<Rightarrow> ain \<times> (error + jaf_block_item option list)"
where
  "jaf_define_struct enc a (Type_Specifier ty None sno df) = (a, Inl AnonymousNotSupported)"
| "jaf_define_struct enc a (Type_Specifier ty (Some n) sno None) =
     (if ain_get_struct a (enc n) \<noteq> None then (a, Inl DuplicateDefinition)
      else (fst (ain_add_struct a (enc n)), Inl Crash))"
| "jaf_define_struct enc a (Type_Specifier ty (Some n) sno (Some items)) =
     (if ain_get_struct a (enc n) \<noteq> None then (a, Inl DuplicateDefinition)
      else
        (case define_types_items enc (fst (ain_add_struct a (enc n))) items of
           (a', Inl e) \<Rightarrow> (a', Inl e)
         | (a', Inr items') \<Rightarrow>
             (a', Inr (Type_Specifier ty (Some n) (snd (ain_add_struct a (enc n)))
                         (Some items')))))"
| "define_types_decl enc a (Declaration nm None ini ps body vn fn) = (a, Inl TypeIsNull)"
| "define_types_decl enc a (Declaration nm (Some t) ini ps body vn fn) =
     (if ts_type t \<noteq> JAF_STRUCT then (a, Inr (Declaration nm (Some t) ini ps body vn fn))
      else
        (case jaf_define_struct enc a t of
           (a', Inl e) \<Rightarrow> (a', Inl e)
         | (a', Inr t') \<Rightarrow> (a', Inr (Declaration nm (Some t') ini ps body vn fn))))"
| "define_types enc a None = (a, Inl DeclIsNull)"
| "define_types enc a (Some (JAF_DECLARATION d)) =
     (case define_types_decl enc a d of
        (a', Inl e) \<Rightarrow> (a', Inl e)
      | (a', Inr d') \<Rightarrow> (a', Inr (Some (JAF_DECLARATION d'))))"
| "define_types enc a (Some (JAF_FUNDECL d)) =
     (case define_types_decl enc a d of
        (a', Inl e) \<Rightarrow> (a', Inl e)
      | (a', Inr d') \<Rightarrow> (a', Inr (Some (JAF_FUNDECL d'))))"
| "define_types enc a (Some _) = (a, Inl Crash)"
| "define_types_items enc a [] = (a, Inr [])"
| "define_types_items enc a (i # is) =
     (case define_types enc a i of
        (a', Inl e) \<Rightarrow> (a', Inl e)
      | (a', Inr i') \<Rightarrow>
          (case define_types_items enc a' is of
             (a'', Inl e) \<Rightarrow> (a'', Inl e)
           | (a'', Inr is') \<Rightarrow> (a'', Inr (i' # is'))))"

subsection \<open>Type resolver\<close>

fun jaf_to_ain_data_type :: "jaf_type \<Rightarrow> error + ain_data_type" where
  "jaf_to_ain_data_type JAF_VOID = Inr AIN_VOID"
| "jaf_to_ain_data_type JAF_INT = Inr AIN_INT"
| "jaf_to_ain_data_type JAF_FLOAT = Inr AIN_FLOAT"
| "jaf_to_ain_data_type JAF_STRING = Inr AIN_STRING"
| "jaf_to_ain_data_type JAF_STRUCT = Inr AIN_STRUCT"
| "jaf_to_ain_data_type JAF_ENUM = Inl (UnsupportedType JAF_ENUM)"
| "jaf_to_ain_data_type t = Inl (UnsupportedType t)"

text \<open>\<open>out\<close> is the record behind the pointer, \<open>inp\<close> the pointer \<open>in\<close> itself.\<close>

definition jaf_to_ain_type :: "ain_type \<Rightarrow> jaf_type_specifier option \<Rightarrow> error + ain_type" where
  "jaf_to_ain_type out inp =
     (case inp of
        None \<Rightarrow> Inl Crash
      | Some t \<Rightarrow>
          (case jaf_to_ain_data_type (ts_type t) of
             Inl e \<Rightarrow> Inl e
           | Inr d \<Rightarrow>
               Inr (if ts_type t = JAF_STRUCT then \<lparr>data = d, struc = struct_no t\<rparr>
                    else \<lparr>data = d, struc = struc out\<rparr>)))"

definition resolve_typedef ::
    "(string \<Rightarrow> string) \<Rightarrow> int \<Rightarrow> ain \<Rightarrow> jaf_type_specifier \<Rightarrow> error + jaf_type_specifier" where
  "resolve_typedef enc nf a t =
     (case ts_name t of
        None \<Rightarrow> Inl Crash
      | Some n \<Rightarrow>
          (let sno = ain_get_struct_no nf a (enc n)
           in if sno \<noteq> 0 then Inr (set_ts_resolved t sno) else Inl (UnresolvedTypedef n)))"

text \<open>
  The loop of \<open>resolve_decl_types\<close> that fills \<open>members\<close>: the name of the member
  declaration, the empty second name from version 12 on, and the type, taken over by
  \<open>jaf_to_ain_type\<close> as the tree has it.
\<close>

fun struct_members ::
    "(string \<Rightarrow> string) \<Rightarrow> ain \<Rightarrow> jaf_block_item option list \<Rightarrow> error + ain_variable list" where
  "struct_members enc a [] = Inr []"
| "struct_members enc a (i # is) =
     (case i of
        None \<Rightarrow> Inl Crash
      | Some item \<Rightarrow>
          (case item_decl item of
             None \<Rightarrow> Inl Crash
           | Some d \<Rightarrow>
               (case decl_name d of
                  None \<Rightarrow> Inl Crash
                | Some n \<Rightarrow>
                    (case jaf_to_ain_type zero_type (decl_type d) of
                       Inl e \<Rightarrow> Inl e
                     | Inr ty \<Rightarrow>
                         (case struct_members enc a is of
                            Inl e \<Rightarrow> Inl e
                          | Inr ms \<Rightarrow>
                              Inr (\<lparr>var_name = Some (enc n),
                                    var_name2 = (if version a \<ge> 12 then Some [] else None),
                                    var_type = ty\<rparr> # ms))))))"

definition resolve_decl_types ::
    "(string \<Rightarrow> string) \<Rightarrow> int \<Rightarrow> ain \<Rightarrow> jaf_declaration \<Rightarrow> error + (ain \<times> jaf_declaration)" where
  "resolve_decl_types enc nf a d =
     (case decl_type d of
        None \<Rightarrow> Inl Crash
      | Some t0 \<Rightarrow>
          (case (if ts_type t0 = JAF_TYPEDEF then resolve_typedef enc nf a t0 else Inr t0) of
             Inl e \<Rightarrow> Inl e
           | Inr t \<Rightarrow>
               (case ts_def t of
                  None \<Rightarrow> Inr (a, set_decl_type d t)
                | Some df \<Rightarrow>
                    if ts_type t \<noteq> JAF_STRUCT then Inr (a, set_decl_type d t)
                    else if \<not> (struct_no t \<ge> 0) then Inl AssertionFailed
                    else if \<not> (struct_no t < int (length (structures a))) then Inl AssertionFailed
                    else
                      (case struct_members enc a df of
                         Inl e \<Rightarrow> Inl e
                       | Inr ms \<Rightarrow>
                           Inr (a\<lparr>structures :=
                                    (structures a)[nat (struct_no t) :=
                                       (structures a ! nat (struct_no t))\<lparr>members := ms\<rparr>]\<rparr>,
                                set_decl_type d t)))))"

text \<open>
  \<open>resolve_statement_types\<close> reads \<open>item->kind\<close> without a null test; \<open>jaf_resolve_types\<close>
  is the loop over the items of a block.
\<close>

fun resolve_statement_types ::
    "(string \<Rightarrow> string) \<Rightarrow> int \<Rightarrow> ain \<Rightarrow> jaf_block_item option \<Rightarrow> error + (ain \<times> jaf_block_item option)"
and jaf_resolve_types ::
    "(string \<Rightarrow> string) \<Rightarrow> int \<Rightarrow> ain \<Rightarrow> jaf_block_item option list \<Rightarrow> error + (ain \<times> jaf_block_item option list)"
where
  "resolve_statement_types enc nf a None = Inl Crash"
| "resolve_statement_types enc nf a (Some (JAF_DECLARATION d)) =
     (case resolve_decl_types enc nf a d of
        Inl e \<Rightarrow> Inl e
      | Inr (a', d') \<Rightarrow> Inr (a', Some (JAF_DECLARATION d')))"
| "resolve_statement_types enc nf a (Some (JAF_FUNDECL (Declaration nm ty ini None body vn fn))) =
     (case jaf_resolve_types enc nf a body of
        Inl e \<Rightarrow> Inl e
      | Inr (a', body') \<Rightarrow> Inr (a', Some (JAF_FUNDECL (Declaration nm ty ini None body' vn fn))))"
| "resolve_statement_types enc nf a (Some (JAF_FUNDECL (Declaration nm ty ini (Some ps) body vn fn))) =
     (case jaf_resolve_types enc nf a ps of
        Inl e \<Rightarrow> Inl e
      | Inr (a1, ps') \<Rightarrow>
          (case jaf_resolve_types enc nf a1 body of
             Inl e \<Rightarrow> Inl e
           | Inr (a', body') \<Rightarrow>
               Inr (a', Some (JAF_FUNDECL (Declaration nm ty ini (Some ps') body' vn fn)))))"
| "resolve_statement_types enc nf a (Some (JAF_STMT_LABELED s)) =
     (case resolve_statement_types enc nf a s of
        Inl e \<Rightarrow> Inl e
      | Inr (a', s') \<Rightarrow> Inr (a', Some (JAF_STMT_LABELED s')))"
| "resolve_statement_types enc nf a (Some (JAF_STMT_COMPOUND b)) =
     (case jaf_resolve_types enc nf a b of
        Inl e \<Rightarrow> Inl e
      | Inr (a', b') \<Rightarrow> Inr (a', Some (JAF_STMT_COMPOUND b')))"
| "resolve_statement_types enc nf a (Some (JAF_STMT_IF t c alt)) =
     (case resolve_statement_types enc nf a c of
        Inl e \<Rightarrow> Inl e
      | Inr (a1, c') \<Rightarrow>
          (case resolve_statement_types enc nf a1 alt of
             Inl e \<Rightarrow> Inl e
           | Inr (a', alt') \<Rightarrow> Inr (a', Some (JAF_STMT_IF t c' alt'))))"
| "resolve_statement_types enc nf a (Some (JAF_STMT_SWITCH x b)) =
     (case jaf_resolve_types enc nf a b of
        Inl e \<Rightarrow> Inl e
      | Inr (a', b') \<Rightarrow> Inr (a', Some (JAF_STMT_SWITCH x b')))"
| "resolve_statement_types enc nf a (Some (JAF_STMT_WHILE t body)) =
     (case resolve_statement_types enc nf a body of
        Inl e \<Rightarrow> Inl e
      | Inr (a', body') \<Rightarrow> Inr (a', Some (JAF_STMT_WHILE t body')))"
| "resolve_statement_types enc nf a (Some (JAF_STMT_DO_WHILE t body)) =
     (case resolve_statement_types enc nf a body of
        Inl e \<Rightarrow> Inl e
      | Inr (a', body') \<Rightarrow> Inr (a', Some (JAF_STMT_DO_WHILE t body')))"
| "resolve_statement_types enc nf a (Some (JAF_STMT_FOR ini t af body)) =
     (case jaf_resolve_types enc nf a ini of
        Inl e \<Rightarrow> Inl e
      | Inr (a1, ini') \<Rightarrow>
          (case resolve_statement_types enc nf a1 body of
             Inl e \<Rightarrow> Inl e
           | Inr (a', body') \<Rightarrow> Inr (a', Some (JAF_STMT_FOR ini' t af body'))))"
| "resolve_statement_types enc nf a (Some (JAF_STMT_CASE s)) =
     (case resolve_statement_types enc nf a s of
        Inl e \<Rightarrow> Inl e
      | Inr (a', s') \<Rightarrow> Inr (a', Some (JAF_STMT_CASE s')))"
| "resolve_statement_types enc nf a (Some (JAF_STMT_DEFAULT s)) =
     (case resolve_statement_types enc nf a s of
        Inl e \<Rightarrow> Inl e
      | Inr (a', s') \<Rightarrow> Inr (a', Some (JAF_STMT_DEFAULT s')))"
| "resolve_statement_types enc nf a (Some item) = Inr (a, Some item)"
| "jaf_resolve_types enc nf a [] = Inr (a, [])"
| "jaf_resolve_types enc nf a (i # is) =
     (case resolve_statement_types enc nf a i of
        Inl e \<Rightarrow> Inl e
      | Inr (a1, i') \<Rightarrow>
          (case jaf_resolve_types enc nf a1 is of
             Inl e \<Rightarrow> Inl e
           | Inr (a', is') \<Rightarrow> Inr (a', i' # is')))"

subsection \<open>Declaration processor\<close>

definition init_variable ::
    "(string \<Rightarrow> string) \<Rightarrow> ain \<Rightarrow> ain_variable \<Rightarrow> jaf_declaration \<Rightarrow> int
      \<Rightarrow> error + (ain_variable \<times> jaf_declaration)" where
  "init_variable enc a var d n =
     (case decl_name d of
        None \<Rightarrow> Inl Crash
      | Some nm \<Rightarrow>
          (case jaf_to_ain_type (var_type var) (decl_type d) of
             Inl e \<Rightarrow> Inl e
           | Inr ty \<Rightarrow>
               Inr (\<lparr>var_name = Some (enc nm),
                     var_name2 = (if version a \<ge> 12 then Some [] else var_name2 var),
                     var_type = ty\<rparr>,
                    set_var_no d n)))"

text \<open>
  \<open>block_item_get_vars\<close> and \<open>block_get_vars\<close> return the array and, through
  \<open>nr_vars\<close>, its counter; here also the item, whose declarations have received their
  \<open>var_no\<close>. \<open>xrealloc_array\<close> keeps the first \<open>*nr_vars\<close> elements and adds a zeroed
  one, which \<open>init_variable\<close> fills.
\<close>

fun block_item_get_vars ::
    "(string \<Rightarrow> string) \<Rightarrow> ain \<Rightarrow> jaf_block_item option \<Rightarrow> ain_variable list \<Rightarrow> nat
      \<Rightarrow> error + (jaf_block_item option \<times> ain_variable list \<times> nat)"
and block_get_vars ::
    "(string \<Rightarrow> string) \<Rightarrow> ain \<Rightarrow> jaf_block_item option list \<Rightarrow> ain_variable list \<Rightarrow> nat
      \<Rightarrow> error + (jaf_block_item option list \<times> ain_variable list \<times> nat)"
where
  "block_item_get_vars enc a None vs n = Inl Crash"
| "block_item_get_vars enc a (Some (JAF_DECLARATION d)) vs n =
     (case decl_name d of
        None \<Rightarrow> Inr (Some (JAF_DECLARATION d), vs, n)
      | Some _ \<Rightarrow>
          (case init_variable enc a zero_variable d (int n) of
             Inl e \<Rightarrow> Inl e
           | Inr (v, d') \<Rightarrow> Inr (Some (JAF_DECLARATION d'), take n vs @ [v], Suc n)))"
| "block_item_get_vars enc a (Some (JAF_STMT_LABELED s)) vs n =
     (case block_item_get_vars enc a s vs n of
        Inl e \<Rightarrow> Inl e
      | Inr (s', vs', n') \<Rightarrow> Inr (Some (JAF_STMT_LABELED s'), vs', n'))"
| "block_item_get_vars enc a (Some (JAF_STMT_COMPOUND b)) vs n =
     (case block_get_vars enc a b vs n of
        Inl e \<Rightarrow> Inl e
      | Inr (b', vs', n') \<Rightarrow> Inr (Some (JAF_STMT_COMPOUND b'), vs', n'))"
| "block_item_get_vars enc a (Some (JAF_STMT_IF t c alt)) vs n =
     (case block_item_get_vars enc a c vs n of
        Inl e \<Rightarrow> Inl e
      | Inr (c', vs1, n1) \<Rightarrow>
          (case block_item_get_vars enc a alt vs1 n1 of
             Inl e \<Rightarrow> Inl e
           | Inr (alt', vs', n') \<Rightarrow> Inr (Some (JAF_STMT_IF t c' alt'), vs', n')))"
| "block_item_get_vars enc a (Some (JAF_STMT_SWITCH x b)) vs n =
     (case block_get_vars enc a b vs n of
        Inl e \<Rightarrow> Inl e
      | Inr (b', vs', n') \<Rightarrow> Inr (Some (JAF_STMT_SWITCH x b'), vs', n'))"
| "block_item_get_vars enc a (Some (JAF_STMT_WHILE t body)) vs n =
     (case block_item_get_vars enc a body vs n of
        Inl e \<Rightarrow> Inl e
      | Inr (body', vs', n') \<Rightarrow> Inr (Some (JAF_STMT_WHILE t body'), vs', n'))"
| "block_item_get_vars enc a (Some (JAF_STMT_DO_WHILE t body)) vs n =
     (case block_item_get_vars enc a body vs n of
        Inl e \<Rightarrow> Inl e
      | Inr (body', vs', n') \<Rightarrow> Inr (Some (JAF_STMT_DO_WHILE t body'), vs', n'))"
| "block_item_get_vars enc a (Some (JAF_STMT_FOR ini t af body)) vs n =
     (case block_get_vars enc a ini vs n of
        Inl e \<Rightarrow> Inl e
      | Inr (ini', vs1, n1) \<Rightarrow>
          (case block_item_get_vars enc a body vs1 n1 of
             Inl e \<Rightarrow> Inl e
           | Inr (body', vs', n') \<Rightarrow> Inr (Some (JAF_STMT_FOR ini' t af body'), vs', n')))"
| "block_item_get_vars enc a (Some (JAF_STMT_CASE s)) vs n =
     (case block_item_get_vars enc a s vs n of
        Inl e \<Rightarrow> Inl e
      | Inr (s', vs', n') \<Rightarrow> Inr (Some (JAF_STMT_CASE s'), vs', n'))"
| "block_item_get_vars enc a (Some (JAF_STMT_DEFAULT s)) vs n =
     (case block_item_get_vars enc a s vs n of
        Inl e \<Rightarrow> Inl e
      | Inr (s', vs', n') \<Rightarrow> Inr (Some (JAF_STMT_DEFAULT s'), vs', n'))"
| "block_item_get_vars enc a (Some (JAF_FUNDECL d)) vs n = Inl NestedFunctionsNotSupported"
| "block_item_get_vars enc a (Some item) vs n = Inr (Some item, vs, n)"
| "block_get_vars enc a [] vs n = Inr ([], vs, n)"
| "block_get_vars enc a (i # is) vs n =
     (case block_item_get_vars enc a i vs n of
        Inl e \<Rightarrow> Inl e
      | Inr (i', vs1, n1) \<Rightarrow>
          (case block_get_vars enc a is vs1 n1 of
             Inl e \<Rightarrow> Inl e
           | Inr (is', vs', n') \<Rightarrow> Inr (i' # is', vs', n')))"

text \<open>
  The parameter loop of \<open>function_init_vars\<close>, from index \<open>i\<close> on: the two
  assertions, then \<open>init_variable\<close> on \<open>f->vars[i]\<close>.
\<close>

fun params_init_vars ::
    "(string \<Rightarrow> string) \<Rightarrow> ain \<Rightarrow> jaf_block_item option list \<Rightarrow> nat \<Rightarrow> ain_variable list
      \<Rightarrow> error + (jaf_block_item option list \<times> ain_variable list)" where
  "params_init_vars enc a [] i vs = Inr ([], vs)"
| "params_init_vars enc a (None # ps) i vs = Inl Crash"
| "params_init_vars enc a (Some (JAF_DECLARATION d) # ps) i vs =
     (case decl_name d of
        None \<Rightarrow> Inl UnnamedParameter
      | Some _ \<Rightarrow>
          (case init_variable enc a (vs ! i) d (int i) of
             Inl e \<Rightarrow> Inl e
           | Inr (v, d') \<Rightarrow>
               (case params_init_vars enc a ps (Suc i) (vs[i := v]) of
                  Inl e \<Rightarrow> Inl e
                | Inr (ps', vs') \<Rightarrow> Inr (Some (JAF_DECLARATION d') # ps', vs'))))"
| "params_init_vars enc a (Some _ # ps) i vs = Inl AssertionFailed"

definition function_init_vars ::
    "(string \<Rightarrow> string) \<Rightarrow> ain \<Rightarrow> ain_function \<Rightarrow> jaf_declaration
      \<Rightarrow> error + (ain_function \<times> jaf_declaration)" where
  "function_init_vars enc a f d =
     (let ps = (case decl_params d of None \<Rightarrow> [] | Some ps \<Rightarrow> ps);
          na = length ps
      in case params_init_vars enc a ps 0 (replicate na zero_variable) of
           Inl e \<Rightarrow> Inl e
         | Inr (ps', vs0) \<Rightarrow>
             (case block_get_vars enc a (decl_body d) vs0 na of
                Inl e \<Rightarrow> Inl e
              | Inr (body', vs', n') \<Rightarrow>
                  Inr (f\<lparr>nr_args := na, nr_vars := n', vars := vs'\<rparr>,
                       set_decl_body
                         (set_decl_params d (map_option (\<lambda>_. ps') (decl_params d))) body')))"

text \<open>
  Modelled from the spec: \<open>ain_add_function\<close>, \<open>ain_add_global\<close> and \<open>ain_add_initval\<close>
  are declared in system4/ain.h and their code is not part of the analysed file. The
  specification gives the function table an insert that returns the index, the global
  table an insert that returns the index and the storage of the new entry, and has the
  initial-value record attached to the table. New entries go to the end of the tables;
  the new global has the given name and is otherwise zeroed.
\<close>

definition ain_add_function :: "ain \<Rightarrow> ain_function \<Rightarrow> ain \<times> int" where
  "ain_add_function a f =
     (a\<lparr>ain_functions := ain_functions a @ [f]\<rparr>, int (length (ain_functions a)))"

definition ain_add_global :: "ain \<Rightarrow> string \<Rightarrow> ain \<times> nat" where
  "ain_add_global a u =
     (a\<lparr>globals := globals a @ [zero_variable\<lparr>var_name := Some u\<rparr>]\<rparr>, length (globals a))"

definition ain_add_initval :: "ain \<Rightarrow> ain_initval \<Rightarrow> ain" where
  "ain_add_initval a iv = a\<lparr>global_initvals := global_initvals a @ [iv]\<rparr>"

definition add_function ::
    "(string \<Rightarrow> string) \<Rightarrow> ain \<Rightarrow> jaf_declaration \<Rightarrow> error + (ain \<times> jaf_declaration)" where
  "add_function enc a d =
     (case decl_name d of
        None \<Rightarrow> Inl Crash
      | Some nm \<Rightarrow>
          (case jaf_to_ain_type zero_type (decl_type d) of
             Inl e \<Rightarrow> Inl e
           | Inr rt \<Rightarrow>
               (case function_init_vars enc a
                       \<lparr>fun_name = nm, return_type = rt, nr_args = 0, nr_vars = 0, vars = []\<rparr> d of
                  Inl e \<Rightarrow> Inl e
                | Inr (f, d') \<Rightarrow>
                    Inr (fst (ain_add_function a f),
                         set_func_no d' (snd (ain_add_function a f))))))"

definition add_global ::
    "(string \<Rightarrow> string) \<Rightarrow> ain \<Rightarrow> jaf_declaration \<Rightarrow> error + (ain \<times> jaf_declaration)" where
  "add_global enc a d =
     (case decl_name d of
        None \<Rightarrow> Inl Crash
      | Some nm \<Rightarrow>
          (let a1 = fst (ain_add_global a (enc nm));
               i = snd (ain_add_global a (enc nm));
               v = globals a1 ! i
           in case jaf_to_ain_type (var_type v) (decl_type d) of
                Inl e \<Rightarrow> Inl e
              | Inr ty \<Rightarrow>
                  Inr (a1\<lparr>globals := (globals a1)[i := v\<lparr>var_type := ty\<rparr>]\<rparr>,
                       set_var_no d (int i))))"

text \<open>
  \<open>jaf_process_declarations\<close> reads \<open>block->items[i]->decl.name\<close> of every item before
  it looks at the kind.
\<close>

fun jaf_process_declarations ::
    "(string \<Rightarrow> string) \<Rightarrow> ain \<Rightarrow> jaf_block_item option list \<Rightarrow> error + (ain \<times> jaf_block_item option list)" where
  "jaf_process_declarations enc a [] = Inr (a, [])"
| "jaf_process_declarations enc a (None # is) = Inl Crash"
| "jaf_process_declarations enc a (Some item # is) =
     (case item_decl item of
        None \<Rightarrow> Inl Crash
      | Some d \<Rightarrow>
          (case (if decl_name d = None then Inr (a, d)
                 else if item = JAF_FUNDECL d then add_function enc a d
                 else add_global enc a d) of
             Inl e \<Rightarrow> Inl e
           | Inr (a1, d') \<Rightarrow>
               (case jaf_process_declarations enc a1 is of
                  Inl e \<Rightarrow> Inl e
                | Inr (a', is') \<Rightarrow> Inr (a', Some (item_set_decl item d') # is'))))"

subsection \<open>Scope chain and analyser\<close>

text \<open>
  \<open>struct jaf_env\<close>: the parent pointer, \<open>func_no\<close>, the declaration of the enclosing
  function and the array of pointers to the variables of that function, each pointer
  \<open>&ain->functions[f].vars[v]\<close> kept as the pair \<open>(f, v)\<close>. An environment is only
  reached through its own pointer or through the \<open>parent\<close> field of its child, so the
  child holds the parent's state while the child is alive, and the caller reads its own
  environment back from there when the child is freed.
\<close>

datatype jaf_env =
    Jaf_Env
      (parent: "jaf_env option")
      (env_func_no: int)
      (fundecl: "jaf_declaration option")
      (locals: "(int \<times> int) list")

text \<open>
  The three operations of the expression collaborator are parameters of the analyser:
  \<open>derive\<close> is \<open>jaf_derive_types\<close>, which fails or returns the typed expression,
  \<open>simplify\<close> is \<open>jaf_simplify\<close>, and \<open>agree\<close> says whether \<open>jaf_check_type\<close> accepts
  an expression for a type.
\<close>

text \<open>
  Modelled from the spec: \<open>jaf_check_type\<close> is declared in jaf.h and its code is not
  part of the analysed file. The specification gives it the result "ok or error" and
  makes the error a \<open>TypeMismatch\<close>, raised when the type of the checked expression
  disagrees with the expected type.
\<close>

definition jaf_check_type ::
    "(jaf_expression option \<Rightarrow> jaf_type_specifier option \<Rightarrow> bool)
      \<Rightarrow> jaf_expression option \<Rightarrow> jaf_type_specifier option \<Rightarrow> error + unit" where
  "jaf_check_type agree e t = (if agree e t then Inr () else Inl TypeMismatch)"

definition jaf_to_initval :: "ain_initval \<Rightarrow> jaf_expression \<Rightarrow> error + ain_initval" where
  "jaf_to_initval dst expr =
     (case expr of
        JAF_EXP_INT i \<Rightarrow> Inr (dst\<lparr>data_type := AIN_INT, initval_value := Int_Value i\<rparr>)
      | JAF_EXP_FLOAT f \<Rightarrow> Inr (dst\<lparr>data_type := AIN_FLOAT, initval_value := Float_Value f\<rparr>)
      | JAF_EXP_STRING s \<Rightarrow> Inr (dst\<lparr>data_type := AIN_STRING, initval_value := String_Value s\<rparr>)
      | _ \<Rightarrow> Inl InitvalNotConstant)"

definition analyze_expression ::
    "(ain \<Rightarrow> jaf_env \<Rightarrow> jaf_expression \<Rightarrow> error + jaf_expression)
      \<Rightarrow> (jaf_expression \<Rightarrow> jaf_expression)
      \<Rightarrow> ain \<Rightarrow> jaf_env \<Rightarrow> jaf_expression option \<Rightarrow> error + jaf_expression option" where
  "analyze_expression derive simplify a env expr =
     (case expr of
        None \<Rightarrow> Inr None
      | Some e \<Rightarrow>
          (case derive a env e of
             Inl x \<Rightarrow> Inl x
           | Inr e1 \<Rightarrow> Inr (Some (simplify e1))))"

text \<open>
  The record \<open>init\<close> of \<open>analyze_global_declaration\<close> starts with \<open>global_index\<close> set
  and everything else zero.
\<close>

definition analyze_global_declaration ::
    "(ain \<Rightarrow> jaf_env \<Rightarrow> jaf_expression \<Rightarrow> error + jaf_expression)
      \<Rightarrow> (jaf_expression \<Rightarrow> jaf_expression)
      \<Rightarrow> (jaf_expression option \<Rightarrow> jaf_type_specifier option \<Rightarrow> bool)
      \<Rightarrow> ain \<Rightarrow> jaf_env \<Rightarrow> jaf_declaration \<Rightarrow> error + (ain \<times> jaf_declaration)" where
  "analyze_global_declaration derive simplify agree a env d =
     (case decl_init d of
        None \<Rightarrow> Inr (a, d)
      | Some e0 \<Rightarrow>
          (case analyze_expression derive simplify a env (Some e0) of
             Inl x \<Rightarrow> Inl x
           | Inr None \<Rightarrow> Inl Crash
           | Inr (Some e) \<Rightarrow>
               if decl_type d = None then Inl AssertionFailed
               else
                 (case jaf_check_type agree (Some e) (decl_type d) of
                    Inl x \<Rightarrow> Inl x
                  | Inr _ \<Rightarrow>
                      (case jaf_to_initval
                              \<lparr>global_index = var_no d, data_type = AIN_VOID,
                               initval_value = Int_Value 0\<rparr> e of
                         Inl x \<Rightarrow> Inl x
                       | Inr iv \<Rightarrow> Inr (ain_add_initval a iv, set_decl_init d (Some e))))))"

definition analyze_local_declaration ::
    "ain \<Rightarrow> jaf_env \<Rightarrow> jaf_declaration \<Rightarrow> error + jaf_env" where
  "analyze_local_declaration a env d =
     (if \<not> (env_func_no env \<ge> 0 \<and> env_func_no env < int (length (ain_functions a)))
      then Inl AssertionFailed
      else if \<not> (var_no d \<ge> 0
                  \<and> var_no d < int (nr_vars (ain_functions a ! nat (env_func_no env))))
      then Inl AssertionFailed
      else Inr (Jaf_Env (parent env) (env_func_no env) (fundecl env)
                  (locals env @ [(env_func_no env, var_no d)])))"

text \<open>
  The statement walk. Every function returns the table, the environment of its caller as
  the call leaves it, and the analysed node. \<open>analyze_function\<close> and \<open>analyze_block\<close>
  build the child environment, run \<open>jaf_analyze_block\<close> in it and free it.
\<close>

fun analyze_function ::
    "(ain \<Rightarrow> jaf_env \<Rightarrow> jaf_expression \<Rightarrow> error + jaf_expression)
      \<Rightarrow> (jaf_expression \<Rightarrow> jaf_expression)
      \<Rightarrow> (jaf_expression option \<Rightarrow> jaf_type_specifier option \<Rightarrow> bool)
      \<Rightarrow> ain \<Rightarrow> jaf_env \<Rightarrow> jaf_declaration \<Rightarrow> error + (ain \<times> jaf_env \<times> jaf_declaration)"
and analyze_statement ::
    "(ain \<Rightarrow> jaf_env \<Rightarrow> jaf_expression \<Rightarrow> error + jaf_expression)
      \<Rightarrow> (jaf_expression \<Rightarrow> jaf_expression)
      \<Rightarrow> (jaf_expression option \<Rightarrow> jaf_type_specifier option \<Rightarrow> bool)
      \<Rightarrow> ain \<Rightarrow> jaf_env \<Rightarrow> jaf_block_item option
      \<Rightarrow> error + (ain \<times> jaf_env \<times> jaf_block_item option)"
and jaf_analyze_block ::
    "(ain \<Rightarrow> jaf_env \<Rightarrow> jaf_expression \<Rightarrow> error + jaf_expression)
      \<Rightarrow> (jaf_expression \<Rightarrow> jaf_expression)
      \<Rightarrow> (jaf_expression option \<Rightarrow> jaf_type_specifier option \<Rightarrow> bool)
      \<Rightarrow> ain \<Rightarrow> jaf_env \<Rightarrow> jaf_block_item option list
      \<Rightarrow> error + (ain \<times> jaf_env \<times> jaf_block_item option list)"
and analyze_block ::
    "(ain \<Rightarrow> jaf_env \<Rightarrow> jaf_expression \<Rightarrow> error + jaf_expression)
      \<Rightarrow> (jaf_expression \<Rightarrow> jaf_expression)
      \<Rightarrow> (jaf_expression option \<Rightarrow> jaf_type_specifier option \<Rightarrow> bool)
      \<Rightarrow> ain \<Rightarrow> jaf_env \<Rightarrow> jaf_block_item option list
      \<Rightarrow> error + (ain \<times> jaf_env \<times> jaf_block_item option list)"
where
  "analyze_function derive simplify agree a env (Declaration nm ty ini ps body vn fn) =
     (if \<not> (fn < int (length (ain_functions a))) then Inl AssertionFailed
      else if fn < 0 then Inl Crash
      else
        (case jaf_analyze_block derive simplify agree a
                (Jaf_Env (Some env) fn (Some (Declaration nm ty ini ps body vn fn))
                   (map (\<lambda>i. (fn, int i)) [0..<nr_args (ain_functions a ! nat fn)]))
                body of
           Inl x \<Rightarrow> Inl x
         | Inr (a', funenv, body') \<Rightarrow>
             (case parent funenv of
                None \<Rightarrow> Inl Crash
              | Some env' \<Rightarrow> Inr (a', env', Declaration nm ty ini ps body' vn fn))))"
| "analyze_statement derive simplify agree a env None = Inr (a, env, None)"
| "analyze_statement derive simplify agree a env (Some (JAF_DECLARATION d)) =
     (if parent env \<noteq> None then
        (case analyze_local_declaration a env d of
           Inl x \<Rightarrow> Inl x
         | Inr env' \<Rightarrow> Inr (a, env', Some (JAF_DECLARATION d)))
      else
        (case analyze_global_declaration derive simplify agree a env d of
           Inl x \<Rightarrow> Inl x
         | Inr (a', d') \<Rightarrow> Inr (a', env, Some (JAF_DECLARATION d'))))"
| "analyze_statement derive simplify agree a env (Some (JAF_FUNDECL d)) =
     (case analyze_function derive simplify agree a env d of
        Inl x \<Rightarrow> Inl x
      | Inr (a', env', d') \<Rightarrow> Inr (a', env', Some (JAF_FUNDECL d')))"
| "analyze_statement derive simplify agree a env (Some (JAF_STMT_LABELED s)) =
     (case analyze_statement derive simplify agree a env s of
        Inl x \<Rightarrow> Inl x
      | Inr (a', env', s') \<Rightarrow> Inr (a', env', Some (JAF_STMT_LABELED s')))"
| "analyze_statement derive simplify agree a env (Some (JAF_STMT_COMPOUND b)) =
     (case analyze_block derive simplify agree a env b of
        Inl x \<Rightarrow> Inl x
      | Inr (a', env', b') \<Rightarrow> Inr (a', env', Some (JAF_STMT_COMPOUND b')))"
| "analyze_statement derive simplify agree a env (Some (JAF_STMT_EXPRESSION e)) =
     (case analyze_expression derive simplify a env e of
        Inl x \<Rightarrow> Inl x
      | Inr e' \<Rightarrow> Inr (a, env, Some (JAF_STMT_EXPRESSION e')))"
| "analyze_statement derive simplify agree a env (Some (JAF_STMT_IF t c alt)) =
     (case analyze_expression derive simplify a env t of
        Inl x \<Rightarrow> Inl x
      | Inr t' \<Rightarrow>
          (case analyze_statement derive simplify agree a env c of
             Inl x \<Rightarrow> Inl x
           | Inr (a1, env1, c') \<Rightarrow>
               (case analyze_statement derive simplify agree a1 env1 alt of
                  Inl x \<Rightarrow> Inl x
                | Inr (a', env', alt') \<Rightarrow> Inr (a', env', Some (JAF_STMT_IF t' c' alt')))))"
| "analyze_statement derive simplify agree a env (Some (JAF_STMT_SWITCH e b)) =
     (case analyze_expression derive simplify a env e of
        Inl x \<Rightarrow> Inl x
      | Inr e' \<Rightarrow>
          (case analyze_block derive simplify agree a env b of
             Inl x \<Rightarrow> Inl x
           | Inr (a', env', b') \<Rightarrow> Inr (a', env', Some (JAF_STMT_SWITCH e' b'))))"
| "analyze_statement derive simplify agree a env (Some (JAF_STMT_WHILE t body)) =
     (case analyze_expression derive simplify a env t of
        Inl x \<Rightarrow> Inl x
      | Inr t' \<Rightarrow>
          (case analyze_statement derive simplify agree a env body of
             Inl x \<Rightarrow> Inl x
           | Inr (a', env', body') \<Rightarrow> Inr (a', env', Some (JAF_STMT_WHILE t' body'))))"
| "analyze_statement derive simplify agree a env (Some (JAF_STMT_DO_WHILE t body)) =
     (case analyze_expression derive simplify a env t of
        Inl x \<Rightarrow> Inl x
      | Inr t' \<Rightarrow>
          (case analyze_statement derive simplify agree a env body of
             Inl x \<Rightarrow> Inl x
           | Inr (a', env', body') \<Rightarrow> Inr (a', env', Some (JAF_STMT_DO_WHILE t' body'))))"
| "analyze_statement derive simplify agree a env (Some (JAF_STMT_FOR ini t af body)) =
     (case analyze_block derive simplify agree a env ini of
        Inl x \<Rightarrow> Inl x
      | Inr (a1, env1, ini') \<Rightarrow>
          (case analyze_expression derive simplify a1 env1 t of
             Inl x \<Rightarrow> Inl x
           | Inr t' \<Rightarrow>
               (case analyze_expression derive simplify a1 env1 af of
                  Inl x \<Rightarrow> Inl x
                | Inr af' \<Rightarrow>
                    (case analyze_statement derive simplify agree a1 env1 body of
                       Inl x \<Rightarrow> Inl x
                     | Inr (a', env', body') \<Rightarrow>
                         Inr (a', env', Some (JAF_STMT_FOR ini' t' af' body'))))))"
| "analyze_statement derive simplify agree a env (Some (JAF_STMT_RETURN e)) =
     (case analyze_expression derive simplify a env e of
        Inl x \<Rightarrow> Inl x
      | Inr e' \<Rightarrow>
          (case fundecl env of
             None \<Rightarrow> Inl Crash
           | Some fd \<Rightarrow>
               (case jaf_check_type agree e' (decl_type fd) of
                  Inl x \<Rightarrow> Inl x
                | Inr _ \<Rightarrow> Inr (a, env, Some (JAF_STMT_RETURN e')))))"
| "analyze_statement derive simplify agree a env (Some (JAF_STMT_CASE s)) =
     (case analyze_statement derive simplify agree a env s of
        Inl x \<Rightarrow> Inl x
      | Inr (a', env', s') \<Rightarrow> Inr (a', env', Some (JAF_STMT_CASE s')))"
| "analyze_statement derive simplify agree a env (Some (JAF_STMT_DEFAULT s)) =
     (case analyze_statement derive simplify agree a env s of
        Inl x \<Rightarrow> Inl x
      | Inr (a', env', s') \<Rightarrow> Inr (a', env', Some (JAF_STMT_DEFAULT s')))"
| "analyze_statement derive simplify agree a env (Some JAF_STMT_GOTO) =
     Inr (a, env, Some JAF_STMT_GOTO)"
| "analyze_statement derive simplify agree a env (Some JAF_STMT_CONTINUE) =
     Inr (a, env, Some JAF_STMT_CONTINUE)"
| "analyze_statement derive simplify agree a env (Some JAF_STMT_BREAK) =
     Inr (a, env, Some JAF_STMT_BREAK)"
| "jaf_analyze_block derive simplify agree a env [] = Inr (a, env, [])"
| "jaf_analyze_block derive simplify agree a env (i # is) =
     (case analyze_statement derive simplify agree a env i of
        Inl x \<Rightarrow> Inl x
      | Inr (a1, env1, i') \<Rightarrow>
          (case jaf_analyze_block derive simplify agree a1 env1 is of
             Inl x \<Rightarrow> Inl x
           | Inr (a', env', is') \<Rightarrow> Inr (a', env', i' # is')))"
| "analyze_block derive simplify agree a env b =
     (case jaf_analyze_block derive simplify agree a
             (Jaf_Env (Some env) (env_func_no env) (fundecl env) []) b of
        Inl x \<Rightarrow> Inl x
      | Inr (a', blockenv, b') \<Rightarrow>
          (case parent blockenv of
             None \<Rightarrow> Inl Crash
           | Some env' \<Rightarrow> Inr (a', env', b')))"

text \<open>The driver: the global environment has no parent and zeroed fields.\<close>

definition jaf_static_analyze ::
    "(string \<Rightarrow> string) \<Rightarrow> int
      \<Rightarrow> (ain \<Rightarrow> jaf_env \<Rightarrow> jaf_expression \<Rightarrow> error + jaf_expression)
      \<Rightarrow> (jaf_expression \<Rightarrow> jaf_expression)
      \<Rightarrow> (jaf_expression option \<Rightarrow> jaf_type_specifier option \<Rightarrow> bool)
      \<Rightarrow> ain \<Rightarrow> jaf_block_item option list \<Rightarrow> error + (ain \<times> jaf_block_item option list)" where
  "jaf_static_analyze enc nf derive simplify agree a block =
     (case jaf_resolve_types enc nf a block of
        Inl x \<Rightarrow> Inl x
      | Inr (a1, b1) \<Rightarrow>
          (case jaf_process_declarations enc a1 b1 of
             Inl x \<Rightarrow> Inl x
           | Inr (a2, b2) \<Rightarrow>
               (case jaf_analyze_block derive simplify agree a2 (Jaf_Env None 0 None []) b2 of
                  Inl x \<Rightarrow> Inl x
                | Inr (a3, env, b3) \<Rightarrow> Inr (a3, b3))))"

section \<open>Notions of the specification\<close>

subsection \<open>Sample inputs\<close>

text \<open>
  A table that holds one struct \<open>T\<close> already, and the identity as text encoding (the
  names below are ASCII).
\<close>

definition ain_T :: ain where
  "ain_T = \<lparr>version = 4, structures = [\<lparr>struct_name = ''T'', members = []\<rparr>],
            ain_functions = [], globals = [], global_initvals = []\<rparr>"

definition struct_T :: jaf_type_specifier where
  "struct_T = Type_Specifier JAF_STRUCT (Some ''T'') 0 (Some [])"

text \<open>
  The scenario \<open>struct S { int a; S next; }\<close>: the member \<open>next\<close> names its type, the
  struct being defined, and is tagged as an unresolved name; in \<open>struct_S_tagged\<close> it is
  tagged as a struct of that name instead. \<open>struct_V\<close> has in addition a member that
  declares a struct type \<open>U\<close> of its own.
\<close>

definition int_type :: jaf_type_specifier where
  "int_type = Type_Specifier JAF_INT None 0 None"

definition member_a :: jaf_block_item where
  "member_a = JAF_DECLARATION (Declaration (Some ''a'') (Some int_type) None None [] 0 0)"

definition member_next :: "string \<Rightarrow> jaf_block_item" where
  "member_next n =
     JAF_DECLARATION
       (Declaration (Some ''next'') (Some (Type_Specifier JAF_TYPEDEF (Some n) 0 None))
          None None [] 0 0)"

definition member_u :: "int \<Rightarrow> jaf_block_item" where
  "member_u sno =
     JAF_DECLARATION
       (Declaration (Some ''u'') (Some (Type_Specifier JAF_STRUCT (Some ''U'') sno (Some [])))
          None None [] 0 0)"

definition struct_S :: "int \<Rightarrow> jaf_type_specifier" where
  "struct_S sno =
     Type_Specifier JAF_STRUCT (Some ''S'') sno (Some [Some member_a, Some (member_next ''S'')])"

definition struct_S_tagged :: jaf_type_specifier where
  "struct_S_tagged =
     Type_Specifier JAF_STRUCT (Some ''S'') 0
       (Some [Some member_a,
              Some (JAF_DECLARATION
                      (Declaration (Some ''next'')
                         (Some (Type_Specifier JAF_STRUCT (Some ''S'') 0 None))
                         None None [] 0 0))])"

definition struct_V :: "int \<Rightarrow> int \<Rightarrow> jaf_type_specifier" where
  "struct_V sno sno_u =
     Type_Specifier JAF_STRUCT (Some ''V'') sno
       (Some [Some member_a, Some (member_u sno_u), Some (member_next ''V'')])"

definition ain_with_structs :: "string list \<Rightarrow> ain" where
  "ain_with_structs names =
     \<lparr>version = 4, structures = map (\<lambda>n. \<lparr>struct_name = n, members = []\<rparr>) names,
      ain_functions = [], globals = [], global_initvals = []\<rparr>"

subsection \<open>Registered struct types\<close>

text \<open>
  A struct specifier is registered in a table when its \<open>struct_no\<close> is the index of an
  entry that carries its encoded name. \<open>extends a a'\<close>: the type table of \<open>a'\<close> is that
  of \<open>a\<close> with entries added at the end. \<open>empty_struct\<close> is the entry of a struct whose
  members are not resolved yet.
\<close>

definition registered_at :: "(string \<Rightarrow> string) \<Rightarrow> ain \<Rightarrow> jaf_type_specifier \<Rightarrow> bool" where
  "registered_at enc a t =
     (case ts_name t of
        None \<Rightarrow> False
      | Some n \<Rightarrow> 0 \<le> struct_no t \<and> nat (struct_no t) < length (structures a)
                   \<and> struct_name (structures a ! nat (struct_no t)) = enc n)"

definition extends :: "ain \<Rightarrow> ain \<Rightarrow> bool" where
  "extends a a' = (\<exists>ext. structures a' = structures a @ ext)"

definition empty_struct :: "string \<Rightarrow> ain_struct" where
  "empty_struct u = \<lparr>struct_name = u, members = []\<rparr>"

text \<open>
  The names of the struct types that a struct specifier declares: its own, then those
  that the declarations of its member list declare, in the order of the source and at
  every depth.
\<close>

fun type_names :: "jaf_type_specifier \<Rightarrow> string list"
and decl_names :: "jaf_declaration \<Rightarrow> string list"
and member_names :: "jaf_block_item option \<Rightarrow> string list"
and members_names :: "jaf_block_item option list \<Rightarrow> string list"
where
  "type_names (Type_Specifier ty None sno df) = []"
| "type_names (Type_Specifier ty (Some n) sno None) = [n]"
| "type_names (Type_Specifier ty (Some n) sno (Some items)) = n # members_names items"
| "decl_names (Declaration nm None ini ps body vn fn) = []"
| "decl_names (Declaration nm (Some t) ini ps body vn fn) =
     (if ts_type t = JAF_STRUCT then type_names t else [])"
| "member_names (Some (JAF_DECLARATION d)) = decl_names d"
| "member_names (Some (JAF_FUNDECL d)) = decl_names d"
| "member_names _ = []"
| "members_names [] = []"
| "members_names (i # is) = member_names i @ members_names is"

text \<open>
  What \<open>jaf_define_struct\<close> has made of a struct specifier, of a member declaration, of
  a member and of a member list, read off the tree before (\<open>t\<close>, \<open>d\<close>, \<open>i\<close>) and
  after (\<open>t'\<close>, \<open>d'\<close>, \<open>i'\<close>). A struct specifier is the same but for its
  \<open>struct_no\<close>, which is at least \<open>lo\<close> and under which it is registered with its own
  name, and for its member list, which is defined in the same sense under later ids. A
  member declaration whose type is not tagged \<open>JAF_STRUCT\<close> is untouched; one whose type
  is has that type defined and is otherwise the same.
\<close>

fun type_defined ::
    "(string \<Rightarrow> string) \<Rightarrow> ain \<Rightarrow> int \<Rightarrow> jaf_type_specifier \<Rightarrow> jaf_type_specifier \<Rightarrow> bool"
and decl_defined ::
    "(string \<Rightarrow> string) \<Rightarrow> ain \<Rightarrow> int \<Rightarrow> jaf_declaration \<Rightarrow> jaf_declaration \<Rightarrow> bool"
and member_defined ::
    "(string \<Rightarrow> string) \<Rightarrow> ain \<Rightarrow> int \<Rightarrow> jaf_block_item option \<Rightarrow> jaf_block_item option \<Rightarrow> bool"
and members_defined ::
    "(string \<Rightarrow> string) \<Rightarrow> ain \<Rightarrow> int \<Rightarrow> jaf_block_item option list
      \<Rightarrow> jaf_block_item option list \<Rightarrow> bool"
where
  "type_defined enc a' lo (Type_Specifier ty nm sno None) t' = False"
| "type_defined enc a' lo (Type_Specifier ty nm sno (Some items)) t' =
     (case ts_def t' of
        None \<Rightarrow> False
      | Some items' \<Rightarrow>
          t' = Type_Specifier ty nm (struct_no t') (Some items')
          \<and> registered_at enc a' t' \<and> lo \<le> struct_no t'
          \<and> members_defined enc a' (struct_no t' + 1) items items')"
| "decl_defined enc a' lo (Declaration nm None ini ps body vn fn) d' = False"
| "decl_defined enc a' lo (Declaration nm (Some t) ini ps body vn fn) d' =
     (if ts_type t \<noteq> JAF_STRUCT then d' = Declaration nm (Some t) ini ps body vn fn
      else
        (case decl_type d' of
           None \<Rightarrow> False
         | Some t' \<Rightarrow>
             d' = Declaration nm (Some t') ini ps body vn fn \<and> type_defined enc a' lo t t'))"
| "member_defined enc a' lo (Some (JAF_DECLARATION d)) i' =
     (case i' of Some (JAF_DECLARATION d') \<Rightarrow> decl_defined enc a' lo d d' | _ \<Rightarrow> False)"
| "member_defined enc a' lo (Some (JAF_FUNDECL d)) i' =
     (case i' of Some (JAF_FUNDECL d') \<Rightarrow> decl_defined enc a' lo d d' | _ \<Rightarrow> False)"
| "member_defined enc a' lo _ i' = False"
| "members_defined enc a' lo [] is' = (is' = [])"
| "members_defined enc a' lo (i # is) is' =
     (case is' of
        [] \<Rightarrow> False
      | i' # r \<Rightarrow> member_defined enc a' lo i i' \<and> members_defined enc a' lo is r)"

text \<open>
  \<open>grown enc a a' ns\<close>: the type table of \<open>a'\<close> is that of \<open>a\<close> followed by one empty
  entry for each of the names \<open>ns\<close>, in this order.
\<close>

definition grown :: "(string \<Rightarrow> string) \<Rightarrow> ain \<Rightarrow> ain \<Rightarrow> string list \<Rightarrow> bool" where
  "grown enc a a' ns = (structures a' = structures a @ map (\<lambda>n. empty_struct (enc n)) ns)"

text \<open>
  A type that the ain format can represent. A struct member that passes the member
  loop of \<open>resolve_decl_types\<close>, and one whose type is still tagged as an unresolved
  name.
\<close>

definition representable :: "jaf_type_specifier option \<Rightarrow> bool" where
  "representable t =
     (case t of
        None \<Rightarrow> False
      | Some ts \<Rightarrow> ts_type ts \<in> {JAF_VOID, JAF_INT, JAF_FLOAT, JAF_STRING, JAF_STRUCT})"

fun member_ok :: "jaf_block_item option \<Rightarrow> bool" where
  "member_ok None = False"
| "member_ok (Some item) =
     (case item_decl item of
        None \<Rightarrow> False
      | Some d \<Rightarrow> decl_name d \<noteq> None \<and> representable (decl_type d))"

fun typedef_member :: "jaf_block_item option \<Rightarrow> bool" where
  "typedef_member None = False"
| "typedef_member (Some item) =
     (case item_decl item of
        None \<Rightarrow> False
      | Some d \<Rightarrow>
          decl_name d \<noteq> None
          \<and> (case decl_type d of None \<Rightarrow> False | Some t \<Rightarrow> ts_type t = JAF_TYPEDEF))"

subsection \<open>Declaration order\<close>

text \<open>
  The variable declarations of a statement in the order of the source text: the named
  declarations, read left to right through every statement form that can hold one.
  \<open>param_decls\<close> and \<open>local_decls\<close> are those of the parameter list and of the body of
  a function declaration.
\<close>

fun item_decls :: "jaf_block_item option \<Rightarrow> jaf_declaration list"
and block_decls :: "jaf_block_item option list \<Rightarrow> jaf_declaration list"
where
  "item_decls None = []"
| "item_decls (Some (JAF_DECLARATION d)) = (if decl_name d = None then [] else [d])"
| "item_decls (Some (JAF_STMT_LABELED s)) = item_decls s"
| "item_decls (Some (JAF_STMT_COMPOUND b)) = block_decls b"
| "item_decls (Some (JAF_STMT_IF t c alt)) = item_decls c @ item_decls alt"
| "item_decls (Some (JAF_STMT_SWITCH x b)) = block_decls b"
| "item_decls (Some (JAF_STMT_WHILE t body)) = item_decls body"
| "item_decls (Some (JAF_STMT_DO_WHILE t body)) = item_decls body"
| "item_decls (Some (JAF_STMT_FOR ini t af body)) = block_decls ini @ item_decls body"
| "item_decls (Some (JAF_STMT_CASE s)) = item_decls s"
| "item_decls (Some (JAF_STMT_DEFAULT s)) = item_decls s"
| "item_decls (Some _) = []"
| "block_decls [] = []"
| "block_decls (i # is) = item_decls i @ block_decls is"

definition param_decls :: "jaf_declaration \<Rightarrow> jaf_declaration list" where
  "param_decls d = block_decls (case decl_params d of None \<Rightarrow> [] | Some ps \<Rightarrow> ps)"

definition local_decls :: "jaf_declaration \<Rightarrow> jaf_declaration list" where
  "local_decls d = block_decls (decl_body d)"

text \<open>
  \<open>slots enc a n ds ds' new\<close>: the declarations \<open>ds\<close>, in this order, have been
  initialised into the consecutive slots from \<open>n\<close> on; \<open>new\<close> are the variables and
  \<open>ds'\<close> the declarations with their slot written back. \<open>collected\<close> says so of a run
  that extends the array \<open>vs\<close> with counter \<open>n\<close> to \<open>vs'\<close> with counter \<open>n'\<close>.
\<close>

definition slots ::
    "(string \<Rightarrow> string) \<Rightarrow> ain \<Rightarrow> nat \<Rightarrow> jaf_declaration list \<Rightarrow> jaf_declaration list
      \<Rightarrow> ain_variable list \<Rightarrow> bool" where
  "slots enc a n ds ds' new =
     (length ds' = length ds \<and> length new = length ds \<and>
      (\<forall>k < length ds.
         init_variable enc a zero_variable (ds ! k) (int (n + k)) = Inr (new ! k, ds' ! k)))"

definition collected ::
    "(string \<Rightarrow> string) \<Rightarrow> ain \<Rightarrow> jaf_declaration list \<Rightarrow> jaf_declaration list
      \<Rightarrow> ain_variable list \<Rightarrow> nat \<Rightarrow> ain_variable list \<Rightarrow> nat \<Rightarrow> bool" where
  "collected enc a ds ds' vs n vs' n' =
     (\<exists>new. vs' = vs @ new \<and> n' = n + length ds \<and> slots enc a n ds ds' new)"

subsection \<open>Nested function declarations and unnamed parameters\<close>

text \<open>
  \<open>nested_fundecl\<close>: a function declaration occurs in the statement, at any depth under
  labeled statements, blocks, if branches, switch bodies, loop bodies, for-init lists
  and case or default statements.
\<close>

fun nested_fundecl :: "jaf_block_item option \<Rightarrow> bool"
and nested_fundecl_block :: "jaf_block_item option list \<Rightarrow> bool"
where
  "nested_fundecl None = False"
| "nested_fundecl (Some (JAF_FUNDECL d)) = True"
| "nested_fundecl (Some (JAF_STMT_LABELED s)) = nested_fundecl s"
| "nested_fundecl (Some (JAF_STMT_COMPOUND b)) = nested_fundecl_block b"
| "nested_fundecl (Some (JAF_STMT_IF t c alt)) = (nested_fundecl c \<or> nested_fundecl alt)"
| "nested_fundecl (Some (JAF_STMT_SWITCH x b)) = nested_fundecl_block b"
| "nested_fundecl (Some (JAF_STMT_WHILE t body)) = nested_fundecl body"
| "nested_fundecl (Some (JAF_STMT_DO_WHILE t body)) = nested_fundecl body"
| "nested_fundecl (Some (JAF_STMT_FOR ini t af body)) =
     (nested_fundecl_block ini \<or> nested_fundecl body)"
| "nested_fundecl (Some (JAF_STMT_CASE s)) = nested_fundecl s"
| "nested_fundecl (Some (JAF_STMT_DEFAULT s)) = nested_fundecl s"
| "nested_fundecl (Some _) = False"
| "nested_fundecl_block [] = False"
| "nested_fundecl_block (i # is) = (nested_fundecl i \<or> nested_fundecl_block is)"

text \<open>
  \<open>sound\<close>: the statement holds no function declaration, no declaration of a named
  variable whose type cannot be represented, and no null statement pointer.
  \<open>fundecl_first\<close>: read in source order, the statement comes to a function
  declaration and everything before it is sound.
\<close>

fun sound :: "jaf_block_item option \<Rightarrow> bool"
and sound_block :: "jaf_block_item option list \<Rightarrow> bool"
where
  "sound None = False"
| "sound (Some (JAF_DECLARATION d)) = (decl_name d = None \<or> representable (decl_type d))"
| "sound (Some (JAF_FUNDECL d)) = False"
| "sound (Some (JAF_STMT_LABELED s)) = sound s"
| "sound (Some (JAF_STMT_COMPOUND b)) = sound_block b"
| "sound (Some (JAF_STMT_IF t c alt)) = (sound c \<and> sound alt)"
| "sound (Some (JAF_STMT_SWITCH x b)) = sound_block b"
| "sound (Some (JAF_STMT_WHILE t body)) = sound body"
| "sound (Some (JAF_STMT_DO_WHILE t body)) = sound body"
| "sound (Some (JAF_STMT_FOR ini t af body)) = (sound_block ini \<and> sound body)"
| "sound (Some (JAF_STMT_CASE s)) = sound s"
| "sound (Some (JAF_STMT_DEFAULT s)) = sound s"
| "sound (Some _) = True"
| "sound_block [] = True"
| "sound_block (i # is) = (sound i \<and> sound_block is)"

fun fundecl_first :: "jaf_block_item option \<Rightarrow> bool"
and fundecl_first_block :: "jaf_block_item option list \<Rightarrow> bool"
where
  "fundecl_first None = False"
| "fundecl_first (Some (JAF_FUNDECL d)) = True"
| "fundecl_first (Some (JAF_STMT_LABELED s)) = fundecl_first s"
| "fundecl_first (Some (JAF_STMT_COMPOUND b)) = fundecl_first_block b"
| "fundecl_first (Some (JAF_STMT_IF t c alt)) =
     (fundecl_first c \<or> (sound c \<and> fundecl_first alt))"
| "fundecl_first (Some (JAF_STMT_SWITCH x b)) = fundecl_first_block b"
| "fundecl_first (Some (JAF_STMT_WHILE t body)) = fundecl_first body"
| "fundecl_first (Some (JAF_STMT_DO_WHILE t body)) = fundecl_first body"
| "fundecl_first (Some (JAF_STMT_FOR ini t af body)) =
     (fundecl_first_block ini \<or> (sound_block ini \<and> fundecl_first body))"
| "fundecl_first (Some (JAF_STMT_CASE s)) = fundecl_first s"
| "fundecl_first (Some (JAF_STMT_DEFAULT s)) = fundecl_first s"
| "fundecl_first (Some _) = False"
| "fundecl_first_block [] = False"
| "fundecl_first_block (i # is) =
     (fundecl_first i \<or> (sound i \<and> fundecl_first_block is))"

text \<open>
  \<open>well_formed\<close>: the only thing that can stop local-variable collection in the
  statement is a function declaration: every named variable declaration has a type
  that the ain format can represent and no statement pointer is null.
\<close>

fun well_formed :: "jaf_block_item option \<Rightarrow> bool"
and well_formed_block :: "jaf_block_item option list \<Rightarrow> bool"
where
  "well_formed None = False"
| "well_formed (Some (JAF_DECLARATION d)) = (decl_name d = None \<or> representable (decl_type d))"
| "well_formed (Some (JAF_FUNDECL d)) = True"
| "well_formed (Some (JAF_STMT_LABELED s)) = well_formed s"
| "well_formed (Some (JAF_STMT_COMPOUND b)) = well_formed_block b"
| "well_formed (Some (JAF_STMT_IF t c alt)) = (well_formed c \<and> well_formed alt)"
| "well_formed (Some (JAF_STMT_SWITCH x b)) = well_formed_block b"
| "well_formed (Some (JAF_STMT_WHILE t body)) = well_formed body"
| "well_formed (Some (JAF_STMT_DO_WHILE t body)) = well_formed body"
| "well_formed (Some (JAF_STMT_FOR ini t af body)) = (well_formed_block ini \<and> well_formed body)"
| "well_formed (Some (JAF_STMT_CASE s)) = well_formed s"
| "well_formed (Some (JAF_STMT_DEFAULT s)) = well_formed s"
| "well_formed (Some _) = True"
| "well_formed_block [] = True"
| "well_formed_block (i # is) = (well_formed i \<and> well_formed_block is)"


text \<open>
  A parameter without a name, and a parameter that passes the loop of
  \<open>function_init_vars\<close>: a named declaration of a representable type.
\<close>

fun unnamed_param :: "jaf_block_item option \<Rightarrow> bool" where
  "unnamed_param (Some (JAF_DECLARATION d)) = (decl_name d = None)"
| "unnamed_param _ = False"

fun param_ok :: "jaf_block_item option \<Rightarrow> bool" where
  "param_ok (Some (JAF_DECLARATION d)) = (decl_name d \<noteq> None \<and> representable (decl_type d))"
| "param_ok _ = False"

text \<open>
  \<open>header_ok\<close>: the function declaration has a name and a return type that the ain
  format can represent, so that \<open>add_function\<close> comes to \<open>function_init_vars\<close>.
  \<open>params_ok\<close>: every parameter passes the parameter loop.
\<close>

definition header_ok :: "jaf_declaration \<Rightarrow> bool" where
  "header_ok d = (decl_name d \<noteq> None \<and> representable (decl_type d))"

definition params_ok :: "jaf_declaration \<Rightarrow> bool" where
  "params_ok d = list_all param_ok (case decl_params d of None \<Rightarrow> [] | Some ps \<Rightarrow> ps)"

subsection \<open>Sample functions\<close>

text \<open>
  \<open>void f(int p) { int x; if (...) { string y; } else break; }\<close>, with the slot numbers and the
  function number as parameters; \<open>int g() { while (...) { void h() {} } }\<close>; \<open>int k(int p, int)\<close>,
  whose second parameter has no name.
\<close>

definition var_decl :: "string option \<Rightarrow> jaf_type \<Rightarrow> int \<Rightarrow> jaf_declaration" where
  "var_decl nm ty vn = Declaration nm (Some (Type_Specifier ty None 0 None)) None None [] vn 0"

definition fun_decl ::
    "string \<Rightarrow> jaf_type \<Rightarrow> jaf_block_item option list \<Rightarrow> jaf_block_item option list \<Rightarrow> int
      \<Rightarrow> jaf_declaration" where
  "fun_decl nm ty ps body fn =
     Declaration (Some nm) (Some (Type_Specifier ty None 0 None)) None (Some ps) body 0 fn"

definition fun_f :: "int \<Rightarrow> int \<Rightarrow> int \<Rightarrow> int \<Rightarrow> jaf_declaration" where
  "fun_f v0 v1 v2 fn =
     fun_decl ''f'' JAF_VOID
       [Some (JAF_DECLARATION (var_decl (Some ''p'') JAF_INT v0))]
       [Some (JAF_DECLARATION (var_decl (Some ''x'') JAF_INT v1)),
        Some (JAF_STMT_IF None
                (Some (JAF_STMT_COMPOUND
                         [Some (JAF_DECLARATION (var_decl (Some ''y'') JAF_STRING v2))]))
                (Some JAF_STMT_BREAK))]
       fn"

definition fun_h :: jaf_declaration where
  "fun_h = fun_decl ''h'' JAF_VOID [] [] 0"

definition body_g :: "jaf_block_item option list" where
  "body_g = [Some (JAF_STMT_WHILE None (Some (JAF_STMT_COMPOUND [Some (JAF_FUNDECL fun_h)])))]"

definition fun_g :: jaf_declaration where
  "fun_g = fun_decl ''g'' JAF_INT [] body_g 0"

definition params_unnamed :: "jaf_block_item option list" where
  "params_unnamed = [Some (JAF_DECLARATION (var_decl (Some ''p'') JAF_INT 0)),
                     Some (JAF_DECLARATION (var_decl None JAF_INT 0))]"

definition fun_k :: jaf_declaration where
  "fun_k = fun_decl ''k'' JAF_INT params_unnamed [] 0"

definition zero_function :: ain_function where
  "zero_function = \<lparr>fun_name = [], return_type = zero_type, nr_args = 0, nr_vars = 0, vars = []\<rparr>"

definition function_f :: ain_function where
  "function_f =
     \<lparr>fun_name = ''f'', return_type = \<lparr>data = AIN_VOID, struc = 0\<rparr>, nr_args = 1, nr_vars = 3,
      vars = [\<lparr>var_name = Some ''p'', var_name2 = None, var_type = \<lparr>data = AIN_INT, struc = 0\<rparr>\<rparr>,
              \<lparr>var_name = Some ''x'', var_name2 = None, var_type = \<lparr>data = AIN_INT, struc = 0\<rparr>\<rparr>,
              \<lparr>var_name = Some ''y'', var_name2 = None,
                var_type = \<lparr>data = AIN_STRING, struc = 0\<rparr>\<rparr>]\<rparr>"

subsection \<open>The expression collaborator on literals\<close>

text \<open>
  Modelled from the spec: \<open>jaf_derive_types\<close> and \<open>jaf_simplify\<close> are declared in jaf.h
  and their code is not part of the analysed file. The specification has the deriver
  compute the type of an expression bottom-up or fail, the simplifier replace an
  expression by an equivalent literal when all its operands are compile-time constants
  and return it unchanged otherwise, and the checker compare the type of the
  expression with the expected type. The model covers expressions built from literals
  with arithmetic on machine integers; identifiers and calls need the collaborator's
  symbol lookup, which is not modelled, and are refused by the deriver.
\<close>

fun exp_type :: "jaf_expression \<Rightarrow> jaf_type option" where
  "exp_type (JAF_EXP_INT i) = Some JAF_INT"
| "exp_type (JAF_EXP_FLOAT f) = Some JAF_FLOAT"
| "exp_type (JAF_EXP_STRING s) = Some JAF_STRING"
| "exp_type (JAF_EXP_UNARY op e) =
     (case exp_type e of
        Some JAF_INT \<Rightarrow> Some JAF_INT
      | Some JAF_FLOAT \<Rightarrow> Some JAF_FLOAT
      | _ \<Rightarrow> None)"
| "exp_type (JAF_EXP_BINARY op l r) =
     (case (exp_type l, exp_type r) of
        (Some JAF_INT, Some JAF_INT) \<Rightarrow> Some JAF_INT
      | (Some JAF_FLOAT, Some JAF_FLOAT) \<Rightarrow> Some JAF_FLOAT
      | _ \<Rightarrow> None)"
| "exp_type _ = None"

definition jaf_derive_types :: "ain \<Rightarrow> jaf_env \<Rightarrow> jaf_expression \<Rightarrow> error + jaf_expression" where
  "jaf_derive_types a env e =
     (case exp_type e of
        None \<Rightarrow> Inl (CollaboratorError ''cannot derive type'')
      | Some _ \<Rightarrow> Inr e)"

fun fold_int :: "jaf_operator \<Rightarrow> 32 word \<Rightarrow> 32 word \<Rightarrow> 32 word" where
  "fold_int JAF_PLUS x y = x + y"
| "fold_int JAF_MINUS x y = x - y"
| "fold_int JAF_MULTIPLY x y = x * y"

fun jaf_simplify :: "jaf_expression \<Rightarrow> jaf_expression" where
  "jaf_simplify (JAF_EXP_BINARY op l r) =
     (case (jaf_simplify l, jaf_simplify r) of
        (JAF_EXP_INT x, JAF_EXP_INT y) \<Rightarrow> JAF_EXP_INT (fold_int op x y)
      | (l', r') \<Rightarrow> JAF_EXP_BINARY op l' r')"
| "jaf_simplify (JAF_EXP_UNARY op e) =
     (case (op, jaf_simplify e) of
        (JAF_MINUS, JAF_EXP_INT x) \<Rightarrow> JAF_EXP_INT (- x)
      | (JAF_PLUS, JAF_EXP_INT x) \<Rightarrow> JAF_EXP_INT x
      | (_, e') \<Rightarrow> JAF_EXP_UNARY op e')"
| "jaf_simplify e = e"

definition types_agree :: "jaf_expression option \<Rightarrow> jaf_type_specifier option \<Rightarrow> bool" where
  "types_agree e t =
     (case t of
        None \<Rightarrow> False
      | Some ts \<Rightarrow>
          (case e of
             None \<Rightarrow> ts_type ts = JAF_VOID
           | Some x \<Rightarrow> exp_type x = Some (ts_type ts)))"

subsection \<open>Initial values, return statements, environments\<close>

text \<open>The initial value that a literal stands for; no other expression has one.\<close>

fun literal_value :: "jaf_expression \<Rightarrow> (ain_data_type \<times> ain_value) option" where
  "literal_value (JAF_EXP_INT i) = Some (AIN_INT, Int_Value i)"
| "literal_value (JAF_EXP_FLOAT f) = Some (AIN_FLOAT, Float_Value f)"
| "literal_value (JAF_EXP_STRING s) = Some (AIN_STRING, String_Value s)"
| "literal_value _ = None"

text \<open>
  The expressions of the return statements of a statement, at any depth, those of a
  nested function declaration left out: they belong to that function.
\<close>

fun item_returns :: "jaf_block_item option \<Rightarrow> jaf_expression option list"
and block_returns :: "jaf_block_item option list \<Rightarrow> jaf_expression option list"
where
  "item_returns None = []"
| "item_returns (Some (JAF_STMT_RETURN e)) = [e]"
| "item_returns (Some (JAF_STMT_LABELED s)) = item_returns s"
| "item_returns (Some (JAF_STMT_COMPOUND b)) = block_returns b"
| "item_returns (Some (JAF_STMT_IF t c alt)) = item_returns c @ item_returns alt"
| "item_returns (Some (JAF_STMT_SWITCH x b)) = block_returns b"
| "item_returns (Some (JAF_STMT_WHILE t body)) = item_returns body"
| "item_returns (Some (JAF_STMT_DO_WHILE t body)) = item_returns body"
| "item_returns (Some (JAF_STMT_FOR ini t af body)) = block_returns ini @ item_returns body"
| "item_returns (Some (JAF_STMT_CASE s)) = item_returns s"
| "item_returns (Some (JAF_STMT_DEFAULT s)) = item_returns s"
| "item_returns (Some _) = []"
| "block_returns [] = []"
| "block_returns (i # is) = item_returns i @ block_returns is"

text \<open>
  \<open>same_frame env env'\<close>: \<open>env'\<close> is \<open>env\<close> with bindings added at the end of its own
  list, nothing else changed. \<open>block_env\<close> is the environment that \<open>analyze_block\<close>
  creates.
\<close>

definition same_frame :: "jaf_env \<Rightarrow> jaf_env \<Rightarrow> bool" where
  "same_frame env env' =
     (parent env' = parent env \<and> env_func_no env' = env_func_no env
      \<and> fundecl env' = fundecl env \<and> (\<exists>new. locals env' = locals env @ new))"

definition block_env :: "jaf_env \<Rightarrow> jaf_env" where
  "block_env env = Jaf_Env (Some env) (env_func_no env) (fundecl env) []"

subsection \<open>Sample declarations\<close>

text \<open>
  The global \<open>int x = 1 + 2;\<close> before analysis, and with the slot and the initializer
  that analysis gives it; \<open>int z;\<close>; the function \<open>string r() { return 1 + 2; }\<close>.
\<close>

definition one_plus_two :: jaf_expression where
  "one_plus_two = JAF_EXP_BINARY JAF_PLUS (JAF_EXP_INT 1) (JAF_EXP_INT 2)"

definition global_x :: "jaf_expression \<Rightarrow> int \<Rightarrow> jaf_block_item option" where
  "global_x e vn =
     Some (JAF_DECLARATION
             (Declaration (Some ''x'') (Some (Type_Specifier JAF_INT None 0 None)) (Some e)
                None [] vn 0))"

definition global_z :: "int \<Rightarrow> jaf_declaration" where
  "global_z vn = Declaration (Some ''z'') (Some (Type_Specifier JAF_INT None 0 None)) None None [] vn 0"

definition global_env :: jaf_env where
  "global_env = Jaf_Env None 0 None []"

definition fun_r :: jaf_declaration where
  "fun_r = fun_decl ''r'' JAF_STRING [] [Some (JAF_STMT_RETURN (Some one_plus_two))] 0"

text \<open>The bindings that a lookup through the scope chain of an environment sees.\<close>

fun bindings :: "jaf_env \<Rightarrow> (int \<times> int) list" where
  "bindings (Jaf_Env p f fd ls) = ls @ (case p of None \<Rightarrow> [] | Some q \<Rightarrow> bindings q)"

text \<open>
  An \<open>ain\<close> object that holds the function \<open>f\<close> of above, the environment of its body,
  and the statement \<open>for (int x; 1 + 2; ) break;\<close> in it. \<open>fun_i\<close> is
  \<open>int i() { if (...) { return 1 + 2; } else break; }\<close>.
\<close>

definition ain_f :: ain where
  "ain_f = ain_T\<lparr>ain_functions := [function_f]\<rparr>"

definition env_f :: jaf_env where
  "env_f = Jaf_Env (Some global_env) 0 (Some (fun_f 0 1 2 0)) [(0, 0)]"

definition for_x :: "jaf_expression option \<Rightarrow> jaf_block_item option" where
  "for_x t =
     Some (JAF_STMT_FOR [Some (JAF_DECLARATION (var_decl (Some ''x'') JAF_INT 1))] t None
             (Some JAF_STMT_BREAK))"

definition fun_i :: "jaf_expression \<Rightarrow> jaf_declaration" where
  "fun_i e =
     fun_decl ''i'' JAF_INT []
       [Some (JAF_STMT_IF None (Some (JAF_STMT_COMPOUND [Some (JAF_STMT_RETURN (Some e))]))
                (Some JAF_STMT_BREAK))] 0"

text \<open>
  \<open>only_initvals a a'\<close>: the table \<open>a'\<close> is \<open>a\<close> with initial-value records added at
  the end, nothing else changed.
\<close>

definition only_initvals :: "ain \<Rightarrow> ain \<Rightarrow> bool" where
  "only_initvals a a' = (\<exists>new. a' = a\<lparr>global_initvals := global_initvals a @ new\<rparr>)"


section \<open>Struct definer\<close>

lemma struct_index_None: "struct_index ss u = None \<longleftrightarrow> u \<notin> struct_name ` set ss"
  by (induction ss) auto

lemma ain_get_struct_None: "ain_get_struct a u = None \<longleftrightarrow> u \<notin> struct_name ` set (structures a)"
  by (simp add: ain_get_struct_def struct_index_None)

lemma define_struct_distinct:
  "distinct (map struct_name (structures a)) \<longrightarrow>
      distinct (map struct_name (structures (fst (jaf_define_struct enc a t))))"
  "distinct (map struct_name (structures a)) \<longrightarrow>
      distinct (map struct_name (structures (fst (define_types_decl enc a d))))"
  "distinct (map struct_name (structures a)) \<longrightarrow>
      distinct (map struct_name (structures (fst (define_types enc a i))))"
  "distinct (map struct_name (structures a)) \<longrightarrow>
      distinct (map struct_name (structures (fst (define_types_items enc a is))))"
proof (induction enc a t and enc a d and enc a i and enc a "is"
       rule: jaf_define_struct_define_types_decl_define_types_define_types_items.induct)
  case (2 enc a ty n sno)
  then show ?case by (auto simp: ain_get_struct_None ain_add_struct_def)
next
  case (3 enc a ty n sno items)
  then show ?case
    by (auto simp: ain_get_struct_None ain_add_struct_def split: prod.splits sum.splits)
qed (auto split: prod.splits sum.splits)

lemma struct_index_append_fresh:
  "u \<notin> struct_name ` set ss \<Longrightarrow> struct_name s = u \<Longrightarrow> struct_index (ss @ s # rest) u = Some (length ss)"
  by (induction ss) auto

lemma extends_refl: "extends a a"
  by (simp add: extends_def)

lemma extends_trans: "extends a a1 \<Longrightarrow> extends a1 a2 \<Longrightarrow> extends a a2"
  by (auto simp: extends_def)

lemma extends_length: "extends a a' \<Longrightarrow> length (structures a) \<le> length (structures a')"
  by (auto simp: extends_def)

lemma extends_add_struct: "extends a (fst (ain_add_struct a u))"
  by (simp add: extends_def ain_add_struct_def)

lemma registered_at_mono:
  "registered_at enc a t \<Longrightarrow> extends a a' \<Longrightarrow> registered_at enc a' t"
  by (auto simp: registered_at_def extends_def nth_append split: option.splits)

lemma grown_refl: "grown enc a a []"
  by (simp add: grown_def)

lemma grown_trans: "grown enc a a1 ns1 \<Longrightarrow> grown enc a1 a2 ns2 \<Longrightarrow> grown enc a a2 (ns1 @ ns2)"
  by (simp add: grown_def)

lemma grown_extends: "grown enc a a' ns \<Longrightarrow> extends a a'"
  by (auto simp: grown_def extends_def)

lemma grown_length:
  "grown enc a a' ns \<Longrightarrow> int (length (structures a)) \<le> int (length (structures a'))"
  by (simp add: grown_def)

lemma defined_mono:
  "type_defined enc a1 lo1 t t' \<longrightarrow> extends a1 a2 \<longrightarrow> (\<forall>lo. lo \<le> lo1 \<longrightarrow> type_defined enc a2 lo t t')"
  "decl_defined enc a1 lo1 d d' \<longrightarrow> extends a1 a2 \<longrightarrow> (\<forall>lo. lo \<le> lo1 \<longrightarrow> decl_defined enc a2 lo d d')"
  "member_defined enc a1 lo1 i i' \<longrightarrow> extends a1 a2 \<longrightarrow> (\<forall>lo. lo \<le> lo1 \<longrightarrow> member_defined enc a2 lo i i')"
  "members_defined enc a1 lo1 is is' \<longrightarrow> extends a1 a2 \<longrightarrow> (\<forall>lo. lo \<le> lo1 \<longrightarrow> members_defined enc a2 lo is is')"
proof (induction enc a1 lo1 t t' and enc a1 lo1 d d' and enc a1 lo1 i i' and enc a1 lo1 "is" is'
       rule: type_defined_decl_defined_member_defined_members_defined.induct)
  case (2 enc a' lo ty nm sno items t')
  show ?case
  proof (intro impI allI)
    fix lo'
    assume td: "type_defined enc a' lo (Type_Specifier ty nm sno (Some items)) t'"
      and ex: "extends a' a2" and le: "lo' \<le> lo"
    from td obtain items' where
      d: "ts_def t' = Some items'"
      and e: "t' = Type_Specifier ty nm (struct_no t') (Some items')"
      and r: "registered_at enc a' t'" and l: "lo \<le> struct_no t'"
      and m: "members_defined enc a' (struct_no t' + 1) items items'"
      by (auto split: option.splits)
    have m2: "members_defined enc a2 (struct_no t' + 1) items items'"
      using "2.IH"[OF d] m ex by simp
    have r2: "registered_at enc a2 t'" using registered_at_mono[OF r ex] .
    show "type_defined enc a2 lo' (Type_Specifier ty nm sno (Some items)) t'"
      using d e r2 l le m2 by simp
  qed
next
  case (4 enc a' lo nm t ini ps body vn fn d')
  show ?case
  proof (cases "ts_type t \<noteq> JAF_STRUCT")
    case True
    then show ?thesis by simp
  next
    case False
    show ?thesis
    proof (intro impI allI)
      fix lo'
      assume dd: "decl_defined enc a' lo (Declaration nm (Some t) ini ps body vn fn) d'"
        and ex: "extends a' a2" and le: "lo' \<le> lo"
      from dd False obtain t' where
        d: "decl_type d' = Some t'"
        and e: "d' = Declaration nm (Some t') ini ps body vn fn"
        and td: "type_defined enc a' lo t t'"
        by (auto split: option.splits)
      have "type_defined enc a2 lo' t t'" using "4.IH"[OF False d] td ex le by simp
      then show "decl_defined enc a2 lo' (Declaration nm (Some t) ini ps body vn fn) d'"
        using False d e by simp
    qed
  qed
next
  case (5 enc a' lo d i')
  show ?case
  proof (intro impI allI)
    fix lo'
    assume md: "member_defined enc a' lo (Some (JAF_DECLARATION d)) i'"
      and ex: "extends a' a2" and le: "lo' \<le> lo"
    from md obtain d' where i': "i' = Some (JAF_DECLARATION d')"
      and dd: "decl_defined enc a' lo d d'"
      by (auto split: option.splits jaf_block_item.splits)
    have "decl_defined enc a2 lo' d d'" using "5.IH"[OF i' refl] dd ex le by simp
    then show "member_defined enc a2 lo' (Some (JAF_DECLARATION d)) i'" using i' by simp
  qed
next
  case (6 enc a' lo d i')
  show ?case
  proof (intro impI allI)
    fix lo'
    assume md: "member_defined enc a' lo (Some (JAF_FUNDECL d)) i'"
      and ex: "extends a' a2" and le: "lo' \<le> lo"
    from md obtain d' where i': "i' = Some (JAF_FUNDECL d')"
      and dd: "decl_defined enc a' lo d d'"
      by (auto split: option.splits jaf_block_item.splits)
    have "decl_defined enc a2 lo' d d'" using "6.IH"[OF i' refl] dd ex le by simp
    then show "member_defined enc a2 lo' (Some (JAF_FUNDECL d)) i'" using i' by simp
  qed
next
  case (9 enc a' lo i "is" is')
  show ?case
  proof (intro impI allI)
    fix lo'
    assume md: "members_defined enc a' lo (i # is) is'"
      and ex: "extends a' a2" and le: "lo' \<le> lo"
    from md obtain i' r where e: "is' = i' # r"
      and m1: "member_defined enc a' lo i i'" and m2: "members_defined enc a' lo is r"
      by (auto split: list.splits)
    have "member_defined enc a2 lo' i i'" using "9.IH"(1)[OF e] m1 ex le by simp
    moreover have "members_defined enc a2 lo' is r" using "9.IH"(2)[OF e] m2 ex le by simp
    ultimately show "members_defined enc a2 lo' (i # is) is'" using e by simp
  qed
qed simp_all

lemma define_struct_inv:
  "\<forall>a' r. jaf_define_struct enc a t = (a', r) \<longrightarrow>
      extends a a' \<and>
      (\<forall>t'. r = Inr t' \<longrightarrow>
         grown enc a a' (type_names t)
         \<and> struct_no t' = int (length (structures a))
         \<and> type_defined enc a' (int (length (structures a))) t t'
         \<and> (\<exists>n. ts_name t = Some n \<and> enc n \<notin> struct_name ` set (structures a)))"
  "\<forall>a' r. define_types_decl enc a d = (a', r) \<longrightarrow>
      extends a a' \<and>
      (\<forall>d'. r = Inr d' \<longrightarrow>
         grown enc a a' (decl_names d)
         \<and> decl_defined enc a' (int (length (structures a))) d d')"
  "\<forall>a' r. define_types enc a i = (a', r) \<longrightarrow>
      extends a a' \<and>
      (\<forall>i'. r = Inr i' \<longrightarrow>
         grown enc a a' (member_names i)
         \<and> member_defined enc a' (int (length (structures a))) i i')"
  "\<forall>a' r. define_types_items enc a is = (a', r) \<longrightarrow>
      extends a a' \<and>
      (\<forall>is'. r = Inr is' \<longrightarrow>
         grown enc a a' (members_names is)
         \<and> members_defined enc a' (int (length (structures a))) is is')"
proof (induction enc a t and enc a d and enc a i and enc a "is"
       rule: jaf_define_struct_define_types_decl_define_types_define_types_items.induct)
  case (1 enc a ty sno df)
  then show ?case by (simp add: extends_refl)
next
  case (2 enc a ty n sno)
  then show ?case by (simp add: extends_refl extends_add_struct)
next
  case (3 enc a ty n sno items)
  show ?case
  proof (cases "ain_get_struct a (enc n) \<noteq> None")
    case True
    then show ?thesis by (simp add: extends_refl)
  next
    case False
    define a1 where "a1 = fst (ain_add_struct a (enc n))"
    have s1: "structures a1 = structures a @ [empty_struct (enc n)]"
      by (simp add: a1_def ain_add_struct_def empty_struct_def)
    have x1: "extends a a1" unfolding a1_def by (rule extends_add_struct)
    have fresh: "enc n \<notin> struct_name ` set (structures a)"
      using False by (simp add: ain_get_struct_None)
    obtain a2 r2 where r: "define_types_items enc a1 items = (a2, r2)" by fastforce
    have ih: "extends a1 a2 \<and>
      (\<forall>is'. r2 = Inr is' \<longrightarrow>
          grown enc a1 a2 (members_names items)
          \<and> members_defined enc a2 (int (length (structures a1))) items is')"
      using "3.IH"[OF False, rule_format, of a2 r2] r unfolding a1_def by simp
    have len: "int (length (structures a1)) = int (length (structures a)) + 1" using s1 by simp
    have res: "jaf_define_struct enc a (Type_Specifier ty (Some n) sno (Some items)) =
       (case r2 of Inl e \<Rightarrow> (a2, Inl e)
        | Inr items' \<Rightarrow> (a2, Inr (Type_Specifier ty (Some n) (int (length (structures a))) (Some items'))))"
      using False r by (simp add: a1_def ain_add_struct_def split: sum.splits)
    have x2: "extends a a2" using x1 ih extends_trans by blast
    show ?thesis
    proof (cases r2)
      case (Inl e)
      then show ?thesis using res x2 by simp
    next
      case (Inr items')
      define t' where "t' = Type_Specifier ty (Some n) (int (length (structures a))) (Some items')"
      have g12: "grown enc a1 a2 (members_names items)" using ih Inr by simp
      have md: "members_defined enc a2 (int (length (structures a)) + 1) items items'"
        using ih Inr len by simp
      have s2: "structures a2 = structures a @ empty_struct (enc n) # map (\<lambda>n. empty_struct (enc n)) (members_names items)"
        using g12 s1 by (simp add: grown_def)
      have g: "grown enc a a2 (type_names (Type_Specifier ty (Some n) sno (Some items)))"
        using s2 by (simp add: grown_def)
      have reg: "registered_at enc a2 t'"
        using s2 by (simp add: registered_at_def t'_def nth_append empty_struct_def)
      have td: "type_defined enc a2 (int (length (structures a)))
                  (Type_Specifier ty (Some n) sno (Some items)) t'"
        using reg md by (simp add: t'_def)
      have sn: "struct_no t' = int (length (structures a))" by (simp add: t'_def)
      show ?thesis using res x2 Inr g td sn fresh unfolding t'_def by simp
    qed
  qed
next
  case (4 enc a nm ini ps body vn fn)
  then show ?case by (simp add: extends_refl)
next
  case (5 enc a nm t ini ps body vn fn)
  show ?case
  proof (cases "ts_type t = JAF_STRUCT")
    case False
    then show ?thesis by (simp add: extends_refl grown_refl)
  next
    case True
    obtain a2 r2 where r: "jaf_define_struct enc a t = (a2, r2)" by fastforce
    have ih: "extends a a2 \<and>
      (\<forall>t'. r2 = Inr t' \<longrightarrow>
         grown enc a a2 (type_names t)
         \<and> struct_no t' = int (length (structures a))
         \<and> type_defined enc a2 (int (length (structures a))) t t'
         \<and> (\<exists>n. ts_name t = Some n \<and> enc n \<notin> struct_name ` set (structures a)))"
      using "5.IH"[rule_format, of a2 r2] True r by simp
    show ?thesis
    proof (cases r2)
      case (Inl e)
      then show ?thesis using True r ih by simp
    next
      case (Inr t')
      then show ?thesis using True r ih by simp
    qed
  qed
next
  case (6 enc a)
  then show ?case by (simp add: extends_refl)
next
  case (7 enc a d)
  obtain a2 r2 where r: "define_types_decl enc a d = (a2, r2)" by fastforce
  show ?case using "7.IH"[rule_format, of a2 r2] r by (cases r2) simp_all
next
  case (8 enc a d)
  obtain a2 r2 where r: "define_types_decl enc a d = (a2, r2)" by fastforce
  show ?case using "8.IH"[rule_format, of a2 r2] r by (cases r2) simp_all
next
  case (11 enc a i "is")
  obtain a1 r1 where r1: "define_types enc a i = (a1, r1)" by fastforce
  have ih1: "extends a a1 \<and>
      (\<forall>i'. r1 = Inr i' \<longrightarrow>
         grown enc a a1 (member_names i)
         \<and> member_defined enc a1 (int (length (structures a))) i i')"
    using "11.IH"(1)[rule_format, of a1 r1] r1 by simp
  show ?case
  proof (cases r1)
    case (Inl e)
    with r1 ih1 show ?thesis by simp
  next
    case (Inr i')
    obtain a2 r2 where r2: "define_types_items enc a1 is = (a2, r2)" by fastforce
    have ih2: "extends a1 a2 \<and>
      (\<forall>is'. r2 = Inr is' \<longrightarrow>
         grown enc a1 a2 (members_names is)
         \<and> members_defined enc a2 (int (length (structures a1))) is is')"
      using "11.IH"(2)[OF r1[symmetric] Inr, rule_format, of a2 r2] r2 by simp
    have x12: "extends a1 a2" using ih2 by simp
    have x: "extends a a2" using ih1 ih2 extends_trans by blast
    have le: "int (length (structures a)) \<le> int (length (structures a1))"
      using ih1 extends_length by simp
    have res: "define_types_items enc a (i # is) =
       (case r2 of Inl e \<Rightarrow> (a2, Inl e) | Inr is' \<Rightarrow> (a2, Inr (i' # is')))"
      using r1 r2 Inr by (simp split: sum.splits)
    show ?thesis
    proof (cases r2)
      case (Inl e)
      then show ?thesis using res x by simp
    next
      case r2Inr: (Inr is')
      have m1a: "member_defined enc a1 (int (length (structures a))) i i'"
        using ih1 Inr by simp
      have m1: "member_defined enc a2 (int (length (structures a))) i i'"
        using defined_mono(3)[rule_format, OF m1a x12] by simp
      have m2a: "members_defined enc a2 (int (length (structures a1))) is is'"
        using ih2 r2Inr by simp
      have m2: "members_defined enc a2 (int (length (structures a))) is is'"
        using defined_mono(4)[rule_format, OF m2a extends_refl le] .
      have g: "grown enc a a2 (members_names (i # is))"
        using grown_trans[of enc a a1 "member_names i" a2 "members_names is"] ih1 Inr ih2 r2Inr
        by simp
      show ?thesis using res x r2Inr m1 m2 g by simp
    qed
  qed
qed (simp_all add: extends_refl grown_refl)

lemma struct_members_typedef_fails:
  "\<exists>m \<in> set items. typedef_member m \<Longrightarrow> \<exists>e. struct_members enc a items = Inl e"
proof (induction items)
  case Nil
  then show ?case by simp
next
  case (Cons m items)
  show ?case
  proof (cases "typedef_member m")
    case True
    then show ?thesis
      by (cases m)
         (auto simp: jaf_to_ain_type_def split: option.splits sum.splits)
  next
    case False
    then have "\<exists>e. struct_members enc a items = Inl e" using Cons by auto
    then show ?thesis
      by (cases m) (auto split: option.splits sum.splits)
  qed
qed

lemma struct_members_ok:
  "list_all member_ok ms \<Longrightarrow> \<exists>vs. struct_members enc a ms = Inr vs"
proof (induction ms)
  case Nil
  then show ?case by simp
next
  case (Cons m ms)
  then obtain vs where vs: "struct_members enc a ms = Inr vs" by auto
  from Cons.prems obtain item d nm t where
    m: "m = Some item" "item_decl item = Some d" "decl_name d = Some nm" "decl_type d = Some t"
       "ts_type t \<in> {JAF_VOID, JAF_INT, JAF_FLOAT, JAF_STRING, JAF_STRUCT}"
    by (cases m) (auto simp: representable_def split: option.splits)
  have "\<exists>ty. jaf_to_ain_type zero_type (Some t) = Inr ty"
    using m(5) by (cases "ts_type t") (auto simp: jaf_to_ain_type_def)
  then show ?case using m vs by auto
qed

lemma struct_members_first_typedef:
  "list_all member_ok ms1 \<Longrightarrow> typedef_member m \<Longrightarrow>
     struct_members enc a (ms1 @ m # ms2) = Inl (UnsupportedType JAF_TYPEDEF)"
proof (induction ms1)
  case Nil
  then show ?case
    by (cases m) (auto simp: jaf_to_ain_type_def split: option.splits)
next
  case (Cons x ms1)
  then have ih: "struct_members enc a (ms1 @ m # ms2) = Inl (UnsupportedType JAF_TYPEDEF)"
    by simp
  from Cons.prems obtain item d nm t where
    m: "x = Some item" "item_decl item = Some d" "decl_name d = Some nm" "decl_type d = Some t"
       "ts_type t \<in> {JAF_VOID, JAF_INT, JAF_FLOAT, JAF_STRING, JAF_STRUCT}"
    by (cases x) (auto simp: representable_def split: option.splits)
  have "\<exists>ty. jaf_to_ain_type zero_type (Some t) = Inr ty"
    using m(5) by (cases "ts_type t") (auto simp: jaf_to_ain_type_def)
  then show ?case using m ih by auto
qed

lemma member_defined_typedef:
  "member_defined enc a lo m m' \<Longrightarrow> typedef_member m \<Longrightarrow> m' = m"
proof (cases m)
  case None
  assume "typedef_member m"
  with None show ?thesis by simp
next
  case (Some item)
  assume md: "member_defined enc a lo m m'" and tm: "typedef_member m"
  from tm Some obtain d where d: "item_decl item = Some d" by (auto split: option.splits)
  obtain nm ot ini ps body vn fn where dd: "d = Declaration nm ot ini ps body vn fn"
    by (cases d) auto
  from tm Some d dd obtain t where t: "ot = Some t" "ts_type t = JAF_TYPEDEF"
    by (auto split: option.splits)
  from d have "item = JAF_DECLARATION d \<or> item = JAF_FUNDECL d"
    by (cases item) auto
  then show ?thesis using md Some dd t
    by (auto split: option.splits jaf_block_item.splits)
qed

lemma type_defined_tag: "type_defined enc a lo t t' \<Longrightarrow> ts_type t' = ts_type t"
proof (cases t)
  case (Type_Specifier ty nm sno df)
  assume td: "type_defined enc a lo t t'"
  show ?thesis
  proof (cases df)
    case None
    with td Type_Specifier show ?thesis by simp
  next
    case (Some items)
    from td Type_Specifier Some obtain items' where
      "t' = Type_Specifier ty nm (struct_no t') (Some items')"
      by (auto split: option.splits)
    then have "ts_type t' = ty" by (metis jaf_type_specifier.sel(1))
    then show ?thesis using Type_Specifier by simp
  qed
qed

lemma member_defined_ok:
  "member_defined enc a lo m m' \<Longrightarrow> member_ok m \<Longrightarrow> member_ok m'"
proof (cases m)
  case None
  assume "member_ok m"
  with None show ?thesis by simp
next
  case (Some item)
  assume md: "member_defined enc a lo m m'" and ok: "member_ok m"
  from ok Some obtain d where d: "item_decl item = Some d"
    and n: "decl_name d \<noteq> None" and r: "representable (decl_type d)"
    by (auto split: option.splits)
  obtain nm ot ini ps body vn fn where dd: "d = Declaration nm ot ini ps body vn fn"
    by (cases d) auto
  from r dd obtain t where t: "ot = Some t" by (auto simp: representable_def split: option.splits)
  from d have it: "item = JAF_DECLARATION d \<or> item = JAF_FUNDECL d"
    by (cases item) auto
  show ?thesis
  proof (cases "ts_type t \<noteq> JAF_STRUCT")
    case True
    then have "m' = m" using it md Some dd t
      by (auto split: option.splits jaf_block_item.splits)
    then show ?thesis using ok by simp
  next
    case False
    from it md Some dd t False obtain d' t' where
      m': "m' = Some (JAF_DECLARATION d') \<or> m' = Some (JAF_FUNDECL d')"
      and d': "d' = Declaration nm (Some t') ini ps body vn fn"
      and td: "type_defined enc a lo t t'"
      by (auto split: option.splits jaf_block_item.splits)
    have "ts_type t' = JAF_STRUCT" using type_defined_tag[OF td] False by simp
    then have "representable (decl_type d')" using d' by (simp add: representable_def)
    moreover have "decl_name d' \<noteq> None" using d' n dd by simp
    ultimately show ?thesis using m' by auto
  qed
qed

lemma members_defined_split:
  "members_defined enc a lo (ms1 @ m # ms2) is' \<Longrightarrow> list_all member_ok ms1 \<Longrightarrow> typedef_member m \<Longrightarrow>
     \<exists>ms1' ms2'. is' = ms1' @ m # ms2' \<and> list_all member_ok ms1'"
proof (induction ms1 arbitrary: is')
  case Nil
  then obtain m' r where e: "is' = m' # r" and md: "member_defined enc a lo m m'"
    by (auto split: list.splits)
  have "m' = m" using member_defined_typedef[OF md Nil.prems(3)] .
  then have "is' = [] @ m # r \<and> list_all member_ok []" using e by simp
  then show ?case by blast
next
  case (Cons x ms1)
  from Cons.prems(1) obtain x' r where e: "is' = x' # r"
    and md: "member_defined enc a lo x x'"
    and rest: "members_defined enc a lo (ms1 @ m # ms2) r"
    by (auto split: list.splits)
  from Cons.prems(2) have okx: "member_ok x" and ok1: "list_all member_ok ms1" by simp_all
  obtain ms1' ms2' where r: "r = ms1' @ m # ms2'" and ok': "list_all member_ok ms1'"
    using Cons.IH[OF rest ok1 Cons.prems(3)] by blast
  have "member_ok x'" using member_defined_ok[OF md okx] .
  then have "is' = (x' # ms1') @ m # ms2' \<and> list_all member_ok (x' # ms1')"
    using e r ok' by simp
  then show ?case by blast
qed

lemma members_defined_keeps_typedef:
  "members_defined enc a lo is is' \<Longrightarrow> \<exists>m \<in> set is. typedef_member m \<Longrightarrow>
     \<exists>m \<in> set is'. typedef_member m"
proof (induction "is" arbitrary: is')
  case Nil
  then show ?case by simp
next
  case (Cons x xs)
  from Cons.prems(1) obtain x' r where e: "is' = x' # r"
    and md: "member_defined enc a lo x x'"
    and rest: "members_defined enc a lo xs r"
    by (auto split: list.splits)
  show ?case
  proof (cases "typedef_member x")
    case True
    then have "x' = x" using member_defined_typedef[OF md] by simp
    then show ?thesis using e True by simp
  next
    case False
    then have "\<exists>m \<in> set xs. typedef_member m" using Cons.prems(2) by auto
    then have "\<exists>m \<in> set r. typedef_member m" using Cons.IH[OF rest] by simp
    then show ?thesis using e by auto
  qed
qed

lemma resolve_struct_typedef_fails:
  "decl_type d = Some t \<Longrightarrow> ts_type t = JAF_STRUCT \<Longrightarrow> ts_def t = Some items \<Longrightarrow>
     \<exists>m \<in> set items. typedef_member m \<Longrightarrow> \<exists>e. resolve_decl_types enc nf a d = Inl e"
  using struct_members_typedef_fails[of items enc a]
  by (auto simp: resolve_decl_types_def)

lemma resolve_struct_first_typedef:
  "decl_type d = Some t \<Longrightarrow> ts_type t = JAF_STRUCT \<Longrightarrow> ts_def t = Some (ms1 @ m # ms2) \<Longrightarrow>
     0 \<le> struct_no t \<Longrightarrow> struct_no t < int (length (structures a)) \<Longrightarrow>
     list_all member_ok ms1 \<Longrightarrow> typedef_member m \<Longrightarrow>
     resolve_decl_types enc nf a d = Inl (UnsupportedType JAF_TYPEDEF)"
  using struct_members_first_typedef[of ms1 m enc a ms2]
  by (simp add: resolve_decl_types_def)

lemma define_struct_result:
  assumes "jaf_define_struct enc a t = (a', Inr t')"
  shows "\<exists>n items items'.
           ts_name t = Some n \<and> ts_def t = Some items \<and>
           enc n \<notin> struct_name ` set (structures a) \<and>
           t' = Type_Specifier (ts_type t) (Some n) (int (length (structures a))) (Some items') \<and>
           structures a' = structures a @ map (\<lambda>m. empty_struct (enc m)) (n # members_names items) \<and>
           members_defined enc a' (int (length (structures a)) + 1) items items'"
proof -
  have inv: "grown enc a a' (type_names t)
         \<and> struct_no t' = int (length (structures a))
         \<and> type_defined enc a' (int (length (structures a))) t t'
         \<and> (\<exists>n. ts_name t = Some n \<and> enc n \<notin> struct_name ` set (structures a))"
    using define_struct_inv(1)[rule_format, of enc a t a' "Inr t'"] assms by simp
  then obtain n where n: "ts_name t = Some n" "enc n \<notin> struct_name ` set (structures a)"
    by blast
  obtain ty nm sno df where t: "t = Type_Specifier ty nm sno df" by (cases t) auto
  have nm: "nm = Some n" using n(1) t by simp
  from inv t obtain items where df: "df = Some items" by (cases df) auto
  from inv t df obtain items' where
    e: "t' = Type_Specifier ty nm (struct_no t') (Some items')"
    and md: "members_defined enc a' (struct_no t' + 1) items items'"
    by (auto split: option.splits)
  have sn: "struct_no t' = int (length (structures a))" using inv by simp
  have g: "structures a' = structures a @ map (\<lambda>m. empty_struct (enc m)) (n # members_names items)"
    using inv t nm df by (simp add: grown_def)
  have e': "t' = Type_Specifier (ts_type t) (Some n) (int (length (structures a))) (Some items')"
    using e sn nm t by simp
  show ?thesis using n t df e' g md sn by auto
qed

text \<open>
  C3, as the code has it. A successful \<open>jaf_define_struct\<close> gives the struct the next
  free index of the type table as its id and puts the entry with the struct's name
  there before it walks the member list: the table grows by exactly that entry and,
  after it, one entry for every struct type declared in the member list, in source
  order and at every depth; a lookup of the struct's own name in the resulting table
  returns the new id; every member that declares a struct type comes back with the same
  name and tag, registered under a later id and with its own members defined in the
  same way. Member types are not resolved here: a member that is not tagged
  \<open>JAF_STRUCT\<close>, such as one whose type is the unresolved name of the struct itself,
  comes back as it went in. Struct-body resolution of the struct that comes back never
  succeeds when a member is tagged as an unresolved name, and stops with "Unknown type"
  when the members before the first such member are named and of representable types.
\<close>

theorem define_struct_reserves_name:
  "(jaf_define_struct enc a t = (a', Inr t') \<longrightarrow>
      (\<exists>n items items'.
         ts_name t = Some n \<and> ts_def t = Some items \<and>
         enc n \<notin> struct_name ` set (structures a) \<and>
         t' = Type_Specifier (ts_type t) (Some n) (int (length (structures a))) (Some items') \<and>
         structures a' = structures a @ map (\<lambda>m. empty_struct (enc m)) (n # members_names items) \<and>
         ain_get_struct_no nf a' (enc n) = int (length (structures a)) \<and>
         members_defined enc a' (int (length (structures a)) + 1) items items'))
   \<and> (jaf_define_struct enc a t = (a', Inr t') \<and> ts_type t = JAF_STRUCT
        \<and> ts_def t = Some ms \<and> (\<exists>m \<in> set ms. typedef_member m) \<and> decl_type d = Some t' \<longrightarrow>
        (\<exists>e. resolve_decl_types enc nf a2 d = Inl e))
   \<and> (jaf_define_struct enc a t = (a', Inr t') \<and> ts_type t = JAF_STRUCT
        \<and> ts_def t = Some (ms1 @ m # ms2) \<and> list_all member_ok ms1 \<and> typedef_member m
        \<and> extends a' a2 \<and> decl_type d = Some t' \<longrightarrow>
        resolve_decl_types enc nf a2 d = Inl (UnsupportedType JAF_TYPEDEF))"
proof (intro conjI impI)
  assume h: "jaf_define_struct enc a t = (a', Inr t')"
  from define_struct_result[OF h] obtain n items items' where
    r: "ts_name t = Some n" "ts_def t = Some items"
       "enc n \<notin> struct_name ` set (structures a)"
       "t' = Type_Specifier (ts_type t) (Some n) (int (length (structures a))) (Some items')"
       "structures a' = structures a @ map (\<lambda>m. empty_struct (enc m)) (n # members_names items)"
       "members_defined enc a' (int (length (structures a)) + 1) items items'"
    by blast
  have "ain_get_struct_no nf a' (enc n) = int (length (structures a))"
    using r(3,5) by (simp add: ain_get_struct_no_def struct_index_append_fresh empty_struct_def)
  with r show "\<exists>n items items'.
         ts_name t = Some n \<and> ts_def t = Some items \<and>
         enc n \<notin> struct_name ` set (structures a) \<and>
         t' = Type_Specifier (ts_type t) (Some n) (int (length (structures a))) (Some items') \<and>
         structures a' = structures a @ map (\<lambda>m. empty_struct (enc m)) (n # members_names items) \<and>
         ain_get_struct_no nf a' (enc n) = int (length (structures a)) \<and>
         members_defined enc a' (int (length (structures a)) + 1) items items'"
    by blast
next
  assume h: "jaf_define_struct enc a t = (a', Inr t') \<and> ts_type t = JAF_STRUCT
        \<and> ts_def t = Some ms \<and> (\<exists>m \<in> set ms. typedef_member m) \<and> decl_type d = Some t'"
  from define_struct_result[of enc a t a' t'] h obtain n items' where
    r: "t' = Type_Specifier (ts_type t) (Some n) (int (length (structures a))) (Some items')"
       "members_defined enc a' (int (length (structures a)) + 1) ms items'"
    by auto
  have "\<exists>m \<in> set items'. typedef_member m"
    using members_defined_keeps_typedef[OF r(2)] h by simp
  moreover have "ts_type t' = JAF_STRUCT" "ts_def t' = Some items'"
    using r(1) h by (metis jaf_type_specifier.sel(1), metis jaf_type_specifier.sel(4))
  ultimately show "\<exists>e. resolve_decl_types enc nf a2 d = Inl e"
    using resolve_struct_typedef_fails[of d t' items' enc nf a2] h by simp
next
  assume h: "jaf_define_struct enc a t = (a', Inr t') \<and> ts_type t = JAF_STRUCT
        \<and> ts_def t = Some (ms1 @ m # ms2) \<and> list_all member_ok ms1 \<and> typedef_member m
        \<and> extends a' a2 \<and> decl_type d = Some t'"
  from define_struct_result[of enc a t a' t'] h obtain n items' where
    r: "t' = Type_Specifier (ts_type t) (Some n) (int (length (structures a))) (Some items')"
       "structures a' = structures a @ map (\<lambda>m. empty_struct (enc m)) (n # members_names (ms1 @ m # ms2))"
       "members_defined enc a' (int (length (structures a)) + 1) (ms1 @ m # ms2) items'"
    by auto
  obtain ms1' ms2' where s: "items' = ms1' @ m # ms2'" "list_all member_ok ms1'"
    using members_defined_split[OF r(3)] h by blast
  have ty: "ts_type t' = JAF_STRUCT" using r(1) h by (metis jaf_type_specifier.sel(1))
  have df: "ts_def t' = Some (ms1' @ m # ms2')" using r(1) s(1) by (metis jaf_type_specifier.sel(4))
  have sn: "struct_no t' = int (length (structures a))" using r(1) by (metis jaf_type_specifier.sel(3))
  have l1: "length (structures a) < length (structures a')" using r(2) by simp
  have l2: "length (structures a') \<le> length (structures a2)" using h extends_length by simp
  have lo: "0 \<le> struct_no t'" and hi: "struct_no t' < int (length (structures a2))"
    using sn l1 l2 by simp_all
  show "resolve_decl_types enc nf a2 d = Inl (UnsupportedType JAF_TYPEDEF)"
    using resolve_struct_first_typedef[of d t' ms1' m ms2' a2 enc nf] h ty df lo hi s(2)
    by simp
qed

theorem define_struct_reserves_name_witness:
  "jaf_define_struct (\<lambda>s. s) ain_T (struct_V 0 0)
     = (ain_with_structs [''T'', ''V'', ''U''], Inr (struct_V 1 2))
   \<and> (\<exists>n items items'.
         ts_name (struct_V 0 0) = Some n \<and> ts_def (struct_V 0 0) = Some items \<and>
         n \<notin> struct_name ` set (structures ain_T) \<and>
         struct_V 1 2 = Type_Specifier (ts_type (struct_V 0 0)) (Some n)
                          (int (length (structures ain_T))) (Some items') \<and>
         structures (ain_with_structs [''T'', ''V'', ''U''])
           = structures ain_T @ map (\<lambda>m. empty_struct m) (n # members_names items) \<and>
         ain_get_struct_no (- 1) (ain_with_structs [''T'', ''V'', ''U'']) n
           = int (length (structures ain_T)) \<and>
         members_defined (\<lambda>s. s) (ain_with_structs [''T'', ''V'', ''U''])
           (int (length (structures ain_T)) + 1) items items')
   \<and> (\<exists>e. resolve_decl_types (\<lambda>s. s) (- 1) (ain_with_structs [''T'', ''V'', ''U''])
              (Declaration None (Some (struct_V 1 2)) None None [] 0 0) = Inl e)
   \<and> resolve_decl_types (\<lambda>s. s) (- 1) (ain_with_structs [''T'', ''V'', ''U''])
        (Declaration None (Some (struct_V 1 2)) None None [] 0 0)
       = Inl (UnsupportedType JAF_TYPEDEF)"
proof -
  let ?a' = "ain_with_structs [''T'', ''V'', ''U'']"
  let ?d = "Declaration None (Some (struct_V 1 2)) None None [] 0 0"
  have h: "jaf_define_struct (\<lambda>s. s) ain_T (struct_V 0 0) = (?a', Inr (struct_V 1 2))"
    by (simp add: ain_T_def struct_V_def member_a_def member_u_def member_next_def
          int_type_def ain_with_structs_def ain_get_struct_def ain_add_struct_def)
  have ty: "ts_type (struct_V 0 0) = JAF_STRUCT" by (simp add: struct_V_def)
  have df: "ts_def (struct_V 0 0) = Some ([Some member_a, Some (member_u 0)] @ Some (member_next ''V'') # [])"
    by (simp add: struct_V_def)
  have ok: "list_all member_ok [Some member_a, Some (member_u 0)]"
    by (simp add: member_a_def member_u_def int_type_def representable_def)
  have tm: "typedef_member (Some (member_next ''V''))"
    by (simp add: member_next_def)
  have ex: "\<exists>m \<in> set ([Some member_a, Some (member_u 0)] @ Some (member_next ''V'') # []). typedef_member m"
    using tm by simp
  have dt: "decl_type ?d = Some (struct_V 1 2)" by simp
  note inst = define_struct_reserves_name
      [of "\<lambda>s. s" ain_T "struct_V 0 0" ?a' "struct_V 1 2" "- 1"
          "[Some member_a, Some (member_u 0)] @ Some (member_next ''V'') # []" ?d ?a'
          "[Some member_a, Some (member_u 0)]" "Some (member_next ''V'')" "[]"]
  show ?thesis
    using h inst ty df ok tm ex dt extends_refl[of ?a'] by blast
qed

text \<open>
  The scenario \<open>struct S { int a; S next; }\<close> on the code: \<open>jaf_define_struct\<close>
  registers \<open>S\<close> under the id 1 and leaves the type of \<open>next\<close> an unresolved name;
  struct-body resolution then hands that type to \<open>jaf_to_ain_type\<close>, which stops with
  "Unknown type". The member does not resolve to the id of \<open>S\<close>. Nor does it when the
  type of \<open>next\<close> is tagged as the struct \<open>S\<close>: \<open>define_types\<close> takes the member for a
  second definition of \<open>S\<close> and stops with "Redefining structs not supported".
\<close>

theorem self_reference_counterexample:
  "jaf_define_struct (\<lambda>s. s) ain_T (struct_S 0)
     = (ain_with_structs [''T'', ''S''], Inr (struct_S 1))
   \<and> resolve_decl_types (\<lambda>s. s) (- 1) (ain_with_structs [''T'', ''S''])
        (Declaration None (Some (struct_S 1)) None None [] 0 0)
     = Inl (UnsupportedType JAF_TYPEDEF)
   \<and> jaf_define_struct (\<lambda>s. s) ain_T struct_S_tagged
     = (ain_with_structs [''T'', ''S''], Inl DuplicateDefinition)"
  by (simp add: ain_T_def struct_S_def struct_S_tagged_def member_a_def member_next_def
        int_type_def ain_with_structs_def ain_get_struct_def ain_add_struct_def
        resolve_decl_types_def jaf_to_ain_type_def zero_type_def)

section \<open>Typedef resolution\<close>

text \<open>
  What \<open>resolve_typedef\<close> does with a name, by the place of the name in the table: a
  struct at an index above 0 is found, the struct at index 0 is not.
\<close>

lemma resolve_typedef_by_index:
  "ts_name t = Some n \<Longrightarrow> struct_index (structures a) (enc n) = Some i \<Longrightarrow>
     resolve_typedef enc nf a t =
       (if i = 0 then Inl (UnresolvedTypedef n) else Inr (set_ts_resolved t (int i)))"
  by (simp add: resolve_typedef_def ain_get_struct_no_def)

lemma resolve_typedef_missing:
  "ts_name t = Some n \<Longrightarrow> struct_index (structures a) (enc n) = None \<Longrightarrow>
     resolve_typedef enc nf a t =
       (if nf = 0 then Inl (UnresolvedTypedef n) else Inr (set_ts_resolved t nf))"
  by (simp add: resolve_typedef_def ain_get_struct_no_def)

text \<open>
  C4 on the code: \<open>resolve_typedef\<close> takes the number returned by the lookup as a truth
  value. The struct \<open>T\<close> exists and is the first of the table, its number is 0, and the
  reference to it is refused with "Failed to resolve typedef".
\<close>

theorem resolve_typedef_first_struct:
  "resolve_typedef (\<lambda>s. s) nf ain_T (Type_Specifier JAF_TYPEDEF (Some ''T'') 0 None)
     = Inl (UnresolvedTypedef ''T'')"
  by (simp add: resolve_typedef_def ain_get_struct_no_def ain_T_def)

section \<open>Declaration processor\<close>

lemma slots_Nil: "slots enc a n [] [] []"
  by (simp add: slots_def)

lemma slots_single:
  "init_variable enc a zero_variable d (int n) = Inr (v, d') \<Longrightarrow> slots enc a n [d] [d'] [v]"
  by (simp add: slots_def)

lemma slots_append:
  assumes "slots enc a n ds1 ds1' new1" and "slots enc a (n + length ds1) ds2 ds2' new2"
  shows "slots enc a n (ds1 @ ds2) (ds1' @ ds2') (new1 @ new2)"
proof -
  have l: "length ds1' = length ds1" "length new1 = length ds1"
    "length ds2' = length ds2" "length new2 = length ds2"
    using assms by (simp_all add: slots_def)
  have "init_variable enc a zero_variable ((ds1 @ ds2) ! k) (int (n + k))
          = Inr ((new1 @ new2) ! k, (ds1' @ ds2') ! k)"
    if "k < length (ds1 @ ds2)" for k
  proof (cases "k < length ds1")
    case True
    then show ?thesis using assms(1) l by (simp add: slots_def nth_append)
  next
    case False
    then have "k - length ds1 < length ds2" using that by simp
    moreover have "n + length ds1 + (k - length ds1) = n + k" using False by simp
    ultimately have "init_variable enc a zero_variable (ds2 ! (k - length ds1)) (int (n + k))
          = Inr (new2 ! (k - length ds1), ds2' ! (k - length ds1))"
      using assms(2) unfolding slots_def by metis
    then show ?thesis using False l by (simp add: nth_append)
  qed
  then show ?thesis using l by (simp add: slots_def)
qed

lemma collected_refl: "collected enc a [] [] vs n vs n"
  by (simp add: collected_def slots_Nil)

lemma collected_trans:
  "collected enc a ds1 ds1' vs n vs1 n1 \<Longrightarrow> collected enc a ds2 ds2' vs1 n1 vs' n'
    \<Longrightarrow> collected enc a (ds1 @ ds2) (ds1' @ ds2') vs n vs' n'"
  unfolding collected_def
  by (metis (no_types, lifting) add.assoc append.assoc length_append slots_append)

lemma collected_length:
  "collected enc a ds ds' vs n vs' n' \<Longrightarrow> length vs = n \<Longrightarrow> length vs' = n'"
  by (auto simp: collected_def slots_def)

lemma block_get_vars_collected:
  "\<forall>i' vs' n'. block_item_get_vars enc a i vs n = Inr (i', vs', n') \<longrightarrow> length vs = n \<longrightarrow>
      collected enc a (item_decls i) (item_decls i') vs n vs' n'"
  "\<forall>b' vs' n'. block_get_vars enc a b vs n = Inr (b', vs', n') \<longrightarrow> length vs = n \<longrightarrow>
      collected enc a (block_decls b) (block_decls b') vs n vs' n'"
proof (induction enc a i vs n and enc a b vs n rule: block_item_get_vars_block_get_vars.induct)
  case (1 enc a vs n)
  then show ?case by simp
next
  case (2 enc a d vs n)
  show ?case
  proof (cases "decl_name d")
    case None
    then show ?thesis by (simp add: collected_refl)
  next
    case (Some nm)
    show ?thesis
    proof (intro allI impI)
      fix i' vs' n'
      assume r: "block_item_get_vars enc a (Some (JAF_DECLARATION d)) vs n = Inr (i', vs', n')"
        and l: "length vs = n"
      then obtain v d' where iv: "init_variable enc a zero_variable d (int n) = Inr (v, d')"
        and e: "i' = Some (JAF_DECLARATION d')" "vs' = vs @ [v]" "n' = Suc n"
        using Some by (auto split: sum.splits)
      have "decl_name d' = Some nm"
        using iv Some by (auto simp: init_variable_def set_var_no_def split: sum.splits)
      then show "collected enc a (item_decls (Some (JAF_DECLARATION d))) (item_decls i') vs n vs' n'"
        using Some e slots_single[OF iv] by (simp add: collected_def)
    qed
  qed
next
  case (5 enc a t c alt vs n)
  show ?case
  proof (intro allI impI)
    fix i' vs' n'
    assume r: "block_item_get_vars enc a (Some (JAF_STMT_IF t c alt)) vs n = Inr (i', vs', n')"
      and l: "length vs = n"
    then obtain c' vs1 n1 alt' where
      r1: "block_item_get_vars enc a c vs n = Inr (c', vs1, n1)"
      and r2: "block_item_get_vars enc a alt vs1 n1 = Inr (alt', vs', n')"
      and e: "i' = Some (JAF_STMT_IF t c' alt')"
      by (auto split: sum.splits)
    have c1: "collected enc a (item_decls c) (item_decls c') vs n vs1 n1"
      using "5.IH"(1) r1 l by blast
    have l1: "length vs1 = n1" using collected_length[OF c1 l] .
    have c2: "collected enc a (item_decls alt) (item_decls alt') vs1 n1 vs' n'"
      using "5.IH"(2)[OF r1 refl refl] r2 l1 by blast
    show "collected enc a (item_decls (Some (JAF_STMT_IF t c alt))) (item_decls i') vs n vs' n'"
      using collected_trans[OF c1 c2] e by simp
  qed
next
  case (9 enc a ini t af body vs n)
  show ?case
  proof (intro allI impI)
    fix i' vs' n'
    assume r: "block_item_get_vars enc a (Some (JAF_STMT_FOR ini t af body)) vs n = Inr (i', vs', n')"
      and l: "length vs = n"
    then obtain ini' vs1 n1 body' where
      r1: "block_get_vars enc a ini vs n = Inr (ini', vs1, n1)"
      and r2: "block_item_get_vars enc a body vs1 n1 = Inr (body', vs', n')"
      and e: "i' = Some (JAF_STMT_FOR ini' t af body')"
      by (auto split: sum.splits)
    have c1: "collected enc a (block_decls ini) (block_decls ini') vs n vs1 n1"
      using "9.IH"(1) r1 l by blast
    have l1: "length vs1 = n1" using collected_length[OF c1 l] .
    have c2: "collected enc a (item_decls body) (item_decls body') vs1 n1 vs' n'"
      using "9.IH"(2)[OF r1 refl refl] r2 l1 by blast
    show "collected enc a (item_decls (Some (JAF_STMT_FOR ini t af body))) (item_decls i') vs n vs' n'"
      using collected_trans[OF c1 c2] e by simp
  qed
next
  case (15 enc a i "is" vs n)
  show ?case
  proof (intro allI impI)
    fix b' vs' n'
    assume r: "block_get_vars enc a (i # is) vs n = Inr (b', vs', n')"
      and l: "length vs = n"
    then obtain i' vs1 n1 is' where
      r1: "block_item_get_vars enc a i vs n = Inr (i', vs1, n1)"
      and r2: "block_get_vars enc a is vs1 n1 = Inr (is', vs', n')"
      and e: "b' = i' # is'"
      by (auto split: sum.splits)
    have c1: "collected enc a (item_decls i) (item_decls i') vs n vs1 n1"
      using "15.IH"(1) r1 l by blast
    have l1: "length vs1 = n1" using collected_length[OF c1 l] .
    have c2: "collected enc a (block_decls is) (block_decls is') vs1 n1 vs' n'"
      using "15.IH"(2)[OF r1 refl refl] r2 l1 by blast
    show "collected enc a (block_decls (i # is)) (block_decls b') vs n vs' n'"
      using collected_trans[OF c1 c2] e by simp
  qed
qed (auto simp: collected_refl split: sum.splits)

lemma init_variable_result:
  "init_variable enc a v d n = Inr (v', d') \<Longrightarrow>
     var_no d' = n \<and> decl_name d' = decl_name d \<and> var_name v' = map_option enc (decl_name d)"
  by (auto simp: init_variable_def set_var_no_def split: option.splits sum.splits)

lemma slots_var_no:
  assumes "slots enc a n ds ds' new"
  shows "map var_no ds' = map int [n..<n + length ds]"
proof (rule nth_equalityI)
  show "length (map var_no ds') = length (map int [n..<n + length ds])"
    using assms by (simp add: slots_def)
next
  fix k assume "k < length (map var_no ds')"
  then have k: "k < length ds" using assms by (simp add: slots_def)
  then have "init_variable enc a zero_variable (ds ! k) (int (n + k)) = Inr (new ! k, ds' ! k)"
    using assms by (simp add: slots_def)
  then have "var_no (ds' ! k) = int (n + k)" by (rule init_variable_result[THEN conjunct1])
  then show "map var_no ds' ! k = map int [n..<n + length ds] ! k"
    using k assms by (simp add: slots_def)
qed

lemma params_init_vars_collected:
  "params_init_vars enc a ps i vs = Inr (ps', vs') \<Longrightarrow> i = length vsa \<Longrightarrow>
   vs = vsa @ replicate (length ps) zero_variable \<Longrightarrow>
     length (block_decls ps) = length ps \<and>
     collected enc a (block_decls ps) (block_decls ps') vsa i vs' (i + length ps)"
proof (induction enc a ps i vs arbitrary: vsa ps' vs' rule: params_init_vars.induct)
  case (1 enc a i vs)
  then show ?case by (simp add: collected_refl)
next
  case (3 enc a d ps i vs)
  from "3.prems"(1) obtain nm where nm: "decl_name d = Some nm"
    by (cases "decl_name d") auto
  have z: "vs ! i = zero_variable" using "3.prems"(2,3) by (simp add: nth_append)
  from "3.prems"(1) nm z obtain v d' ps2 where
    iv: "init_variable enc a zero_variable d (int i) = Inr (v, d')"
    and r: "params_init_vars enc a ps (Suc i) (vs[i := v]) = Inr (ps2, vs')"
    and e: "ps' = Some (JAF_DECLARATION d') # ps2"
    by (auto split: sum.splits)
  have upd: "vs[i := v] = (vsa @ [v]) @ replicate (length ps) zero_variable"
    using "3.prems"(2,3) by (simp add: list_update_append)
  have ih: "length (block_decls ps) = length ps \<and>
     collected enc a (block_decls ps) (block_decls ps2) (vsa @ [v]) (Suc i) vs' (Suc i + length ps)"
  proof -
    have iv': "init_variable enc a (vs ! i) d (int i) = Inr (v, d')" using iv z by simp
    have l: "Suc i = length (vsa @ [v])" using "3.prems"(2) by simp
    show ?thesis using "3.IH"[OF nm iv' refl r l upd] .
  qed
  have nm': "decl_name d' = Some nm" using init_variable_result[OF iv] nm by simp
  have c1: "collected enc a [d] [d'] vsa i (vsa @ [v]) (Suc i)"
    using slots_single[OF iv] by (simp add: collected_def)
  have "collected enc a ([d] @ block_decls ps) ([d'] @ block_decls ps2) vsa i vs' (Suc i + length ps)"
    using collected_trans[OF c1] ih by blast
  then show ?case using ih nm nm' e by simp
qed simp_all

lemma init_variable_ok:
  "decl_name d = Some nm \<Longrightarrow>
     (\<exists>r. init_variable enc a v d n = Inr r) = representable (decl_type d)"
proof (cases "decl_type d")
  case None
  assume "decl_name d = Some nm"
  then show ?thesis using None
    by (simp add: init_variable_def jaf_to_ain_type_def representable_def)
next
  case (Some t)
  assume "decl_name d = Some nm"
  then show ?thesis using Some
    by (cases "ts_type t")
       (simp_all add: init_variable_def jaf_to_ain_type_def representable_def)
qed

lemma sound_iff_collects:
  "(\<exists>r. block_item_get_vars enc a i vs n = Inr r) = sound i"
  "(\<exists>r. block_get_vars enc a b vs n = Inr r) = sound_block b"
proof (induction enc a i vs n and enc a b vs n rule: block_item_get_vars_block_get_vars.induct)
  case (2 enc a d vs n)
  show ?case
  proof (cases "decl_name d")
    case None
    then show ?thesis by simp
  next
    case (Some nm)
    show ?thesis
      using init_variable_ok[OF Some, of enc a zero_variable "int n"] Some
      by (cases "init_variable enc a zero_variable d (int n)") auto
  qed
next
  case (5 enc a t c alt vs n)
  show ?case
  proof (cases "block_item_get_vars enc a c vs n")
    case (Inl e)
    then show ?thesis using "5.IH"(1) by simp
  next
    case (Inr r)
    obtain c' vs1 n1 where r: "r = (c', vs1, n1)" by (cases r) auto
    have s: "sound c" using "5.IH"(1) Inr by blast
    show ?thesis
      using "5.IH"(2)[OF Inr[unfolded r] refl refl] Inr r s
      by (cases "block_item_get_vars enc a alt vs1 n1") auto
  qed
next
  case (9 enc a ini t af body vs n)
  show ?case
  proof (cases "block_get_vars enc a ini vs n")
    case (Inl e)
    then show ?thesis using "9.IH"(1) by simp
  next
    case (Inr r)
    obtain c' vs1 n1 where r: "r = (c', vs1, n1)" by (cases r) auto
    have s: "sound_block ini" using "9.IH"(1) Inr by blast
    show ?thesis
      using "9.IH"(2)[OF Inr[unfolded r] refl refl] Inr r s
      by (cases "block_item_get_vars enc a body vs1 n1") auto
  qed
next
  case (15 enc a i "is" vs n)
  show ?case
  proof (cases "block_item_get_vars enc a i vs n")
    case (Inl e)
    then show ?thesis using "15.IH"(1) by simp
  next
    case (Inr r)
    obtain c' vs1 n1 where r: "r = (c', vs1, n1)" by (cases r) auto
    have s: "sound i" using "15.IH"(1) Inr by blast
    show ?thesis
      using "15.IH"(2)[OF Inr[unfolded r] refl refl] Inr r s
      by (cases "block_get_vars enc a is vs1 n1") auto
  qed
next
  case (3 enc a s vs n)
  then show ?case by (cases "block_item_get_vars enc a s vs n") auto
next
  case (4 enc a b vs n)
  then show ?case by (cases "block_get_vars enc a b vs n") auto
next
  case (6 enc a x b vs n)
  then show ?case by (cases "block_get_vars enc a b vs n") auto
next
  case (7 enc a t body vs n)
  then show ?case by (cases "block_item_get_vars enc a body vs n") auto
next
  case (8 enc a t body vs n)
  then show ?case by (cases "block_item_get_vars enc a body vs n") auto
next
  case (10 enc a s vs n)
  then show ?case by (cases "block_item_get_vars enc a s vs n") auto
next
  case (11 enc a s vs n)
  then show ?case by (cases "block_item_get_vars enc a s vs n") auto
qed simp_all

lemma nested_fundecl_unsound:
  "nested_fundecl i \<Longrightarrow> \<not> sound i"
  "nested_fundecl_block b \<Longrightarrow> \<not> sound_block b"
  by (induction i and b rule: nested_fundecl_nested_fundecl_block.induct) auto

lemma fundecl_first_stops:
  "fundecl_first i \<longrightarrow> block_item_get_vars enc a i vs n = Inl NestedFunctionsNotSupported"
  "fundecl_first_block b \<longrightarrow> block_get_vars enc a b vs n = Inl NestedFunctionsNotSupported"
proof (induction enc a i vs n and enc a b vs n rule: block_item_get_vars_block_get_vars.induct)
  case (5 enc a t c alt vs n)
  show ?case
  proof (cases "fundecl_first c")
    case True
    then show ?thesis using "5.IH"(1) by simp
  next
    case False
    show ?thesis
    proof
      assume "fundecl_first (Some (JAF_STMT_IF t c alt))"
      then have s: "sound c" and f: "fundecl_first alt" using False by simp_all
      obtain c' vs1 n1 where r: "block_item_get_vars enc a c vs n = Inr (c', vs1, n1)"
        using sound_iff_collects(1)[of enc a c vs n] s by auto
      show "block_item_get_vars enc a (Some (JAF_STMT_IF t c alt)) vs n = Inl NestedFunctionsNotSupported"
        using "5.IH"(2)[OF r refl refl] f r by simp
    qed
  qed
next
  case (9 enc a ini t af body vs n)
  show ?case
  proof (cases "fundecl_first_block ini")
    case True
    then show ?thesis using "9.IH"(1) by simp
  next
    case False
    show ?thesis
    proof
      assume "fundecl_first (Some (JAF_STMT_FOR ini t af body))"
      then have s: "sound_block ini" and f: "fundecl_first body" using False by simp_all
      obtain c' vs1 n1 where r: "block_get_vars enc a ini vs n = Inr (c', vs1, n1)"
        using sound_iff_collects(2)[of enc a ini vs n] s by auto
      show "block_item_get_vars enc a (Some (JAF_STMT_FOR ini t af body)) vs n = Inl NestedFunctionsNotSupported"
        using "9.IH"(2)[OF r refl refl] f r by simp
    qed
  qed
next
  case (15 enc a i "is" vs n)
  show ?case
  proof (cases "fundecl_first i")
    case True
    then show ?thesis using "15.IH"(1) by simp
  next
    case False
    show ?thesis
    proof
      assume "fundecl_first_block (i # is)"
      then have s: "sound i" and f: "fundecl_first_block is" using False by simp_all
      obtain c' vs1 n1 where r: "block_item_get_vars enc a i vs n = Inr (c', vs1, n1)"
        using sound_iff_collects(1)[of enc a i vs n] s by auto
      show "block_get_vars enc a (i # is) vs n = Inl NestedFunctionsNotSupported"
        using "15.IH"(2)[OF r refl refl] f r by simp
    qed
  qed
qed simp_all

lemma collected_same_length:
  "collected enc a ds ds' vs n vs' n' \<Longrightarrow> length ds' = length ds"
  by (auto simp: collected_def slots_def)

lemma function_init_vars_collected:
  assumes "function_init_vars enc a f d = Inr (f', d')"
  shows "collected enc a (param_decls d @ local_decls d) (param_decls d' @ local_decls d')
           [] 0 (vars f') (nr_vars f')
         \<and> nr_args f' = length (param_decls d)
         \<and> length (param_decls d') = length (param_decls d)
         \<and> length (param_decls d) = (case decl_params d of None \<Rightarrow> 0 | Some ps \<Rightarrow> length ps)"
proof -
  define ps where "ps = (case decl_params d of None \<Rightarrow> [] | Some ps \<Rightarrow> ps)"
  from assms obtain ps' vs0 body' vs' n' where
    r1: "params_init_vars enc a ps 0 (replicate (length ps) zero_variable) = Inr (ps', vs0)"
    and r2: "block_get_vars enc a (decl_body d) vs0 (length ps) = Inr (body', vs', n')"
    and f': "f' = f\<lparr>nr_args := length ps, nr_vars := n', vars := vs'\<rparr>"
    and d': "d' = set_decl_body (set_decl_params d (map_option (\<lambda>_. ps') (decl_params d))) body'"
    unfolding function_init_vars_def ps_def Let_def by (auto split: sum.splits)
  have c1: "length (block_decls ps) = length ps \<and>
     collected enc a (block_decls ps) (block_decls ps') [] 0 vs0 (0 + length ps)"
    using params_init_vars_collected[OF r1, of "[]"] by simp
  have l0: "length vs0 = length ps" using collected_length[OF c1[THEN conjunct2]] by simp
  have c2: "collected enc a (block_decls (decl_body d)) (block_decls body') vs0 (length ps) vs' n'"
    using block_get_vars_collected(2)[rule_format, OF r2 l0] .
  have pd: "param_decls d = block_decls ps" by (simp add: param_decls_def ps_def)
  have ps'_nil: "decl_params d = None \<Longrightarrow> ps' = []"
    using r1 by (simp add: ps_def)
  have pd': "param_decls d' = block_decls ps'"
    using ps'_nil by (cases "decl_params d")
      (simp_all add: d' param_decls_def set_decl_body_def set_decl_params_def)
  have ld': "local_decls d' = block_decls body'"
    by (simp add: d' local_decls_def set_decl_body_def)
  have "collected enc a (block_decls ps @ block_decls (decl_body d))
          (block_decls ps' @ block_decls body') [] 0 vs' n'"
    using collected_trans[of enc a "block_decls ps" "block_decls ps'" "[]" 0 vs0 "length ps"] c1 c2
    by simp
  moreover have "length (block_decls ps') = length (block_decls ps)"
    using collected_same_length[OF c1[THEN conjunct2]] .
  ultimately show ?thesis
    using c1 pd pd' ld' f' by (simp add: local_decls_def ps_def split: option.splits)
qed

text \<open>
  C1. A function that \<open>add_function\<close> registers is the new last entry of the function
  table. Its parameters and the named declarations of its body, in the order of the
  source, have the slots 0, 1, ..., \<open>nr_vars - 1\<close>: the k-th of them is initialised
  into \<open>vars[k]\<close> and has \<open>k\<close> written back as its \<open>var_no\<close>, so no slot is used
  twice, and the parameters have the slots below \<open>nr_args\<close>.
\<close>

theorem function_slots_in_declaration_order:
  assumes "add_function enc a d = Inr (a', d')"
  shows "\<exists>f. ain_functions a' = ain_functions a @ [f]
           \<and> func_no d' = int (length (ain_functions a))
           \<and> length (vars f) = nr_vars f
           \<and> nr_args f = length (param_decls d')
           \<and> nr_vars f = length (param_decls d' @ local_decls d')
           \<and> map var_no (param_decls d' @ local_decls d') = map int [0..<nr_vars f]
           \<and> map var_no (param_decls d') = map int [0..<nr_args f]
           \<and> slots enc a 0 (param_decls d @ local_decls d) (param_decls d' @ local_decls d')
                (vars f)"
proof -
  from assms obtain nm rt f d1 where
    r: "function_init_vars enc a
          \<lparr>fun_name = nm, return_type = rt, nr_args = 0, nr_vars = 0, vars = []\<rparr> d = Inr (f, d1)"
    and a': "a' = fst (ain_add_function a f)"
    and d': "d' = set_func_no d1 (snd (ain_add_function a f))"
    unfolding add_function_def by (auto split: option.splits sum.splits)
  have pd: "param_decls d' = param_decls d1" "local_decls d' = local_decls d1"
    by (simp_all add: d' param_decls_def local_decls_def set_func_no_def)
  have fv: "collected enc a (param_decls d @ local_decls d) (param_decls d1 @ local_decls d1)
           [] 0 (vars f) (nr_vars f)"
    and na: "nr_args f = length (param_decls d)"
    and lp: "length (param_decls d1) = length (param_decls d)"
    using function_init_vars_collected[OF r] by simp_all
  from fv have sl: "slots enc a 0 (param_decls d @ local_decls d)
                      (param_decls d1 @ local_decls d1) (vars f)"
    and nv: "nr_vars f = length (param_decls d @ local_decls d)"
    by (auto simp: collected_def)
  have ll: "length (param_decls d1 @ local_decls d1) = length (param_decls d @ local_decls d)"
    using sl by (simp add: slots_def)
  have lv: "length (vars f) = nr_vars f" using sl nv by (simp add: slots_def)
  have vn: "map var_no (param_decls d1 @ local_decls d1) = map int [0..<nr_vars f]"
    using slots_var_no[OF sl] nv by simp
  have split: "[0..<nr_vars f] = [0..<nr_args f] @ [nr_args f..<nr_vars f]"
    using nv na by (metis le_add1 length_append upt_add_eq_append add_0 le0)
  have "map var_no (param_decls d1) @ map var_no (local_decls d1)
          = map int [0..<nr_args f] @ map int [nr_args f..<nr_vars f]"
    using vn split by simp
  then have vp: "map var_no (param_decls d1) = map int [0..<nr_args f]"
    using na lp by simp
  have "ain_functions a' = ain_functions a @ [f]"
    and "func_no d' = int (length (ain_functions a))"
    by (simp_all add: a' d' ain_add_function_def set_func_no_def)
  then show ?thesis
    using lv na lp nv ll vn vp sl pd by auto
qed

theorem function_slots_in_declaration_order_witness:
  "add_function (\<lambda>s. s) ain_T (fun_f 7 7 7 7)
     = Inr (ain_T\<lparr>ain_functions := [function_f]\<rparr>, fun_f 0 1 2 0)
   \<and> (\<exists>f. ain_functions (ain_T\<lparr>ain_functions := [function_f]\<rparr>) = ain_functions ain_T @ [f]
           \<and> func_no (fun_f 0 1 2 0) = int (length (ain_functions ain_T))
           \<and> length (vars f) = nr_vars f
           \<and> nr_args f = length (param_decls (fun_f 0 1 2 0))
           \<and> nr_vars f = length (param_decls (fun_f 0 1 2 0) @ local_decls (fun_f 0 1 2 0))
           \<and> map var_no (param_decls (fun_f 0 1 2 0) @ local_decls (fun_f 0 1 2 0))
               = map int [0..<nr_vars f]
           \<and> map var_no (param_decls (fun_f 0 1 2 0)) = map int [0..<nr_args f]
           \<and> slots (\<lambda>s. s) ain_T 0 (param_decls (fun_f 7 7 7 7) @ local_decls (fun_f 7 7 7 7))
                (param_decls (fun_f 0 1 2 0) @ local_decls (fun_f 0 1 2 0)) (vars f))"
proof -
  have h: "add_function (\<lambda>s. s) ain_T (fun_f 7 7 7 7)
             = Inr (ain_T\<lparr>ain_functions := [function_f]\<rparr>, fun_f 0 1 2 0)"
    by (simp add: add_function_def function_init_vars_def fun_f_def fun_decl_def var_decl_def
          ain_T_def function_f_def init_variable_def jaf_to_ain_type_def zero_type_def
          zero_variable_def ain_add_function_def set_var_no_def set_func_no_def
          set_decl_body_def set_decl_params_def)
  show ?thesis
    by (intro conjI h function_slots_in_declaration_order [OF h])
qed

lemma params_unnamed_fails:
  "\<exists>p \<in> set ps. unnamed_param p \<Longrightarrow> \<exists>e. params_init_vars enc a ps i vs = Inl e"
proof (induction enc a ps i vs rule: params_init_vars.induct)
  case (3 enc a d ps i vs)
  show ?case
  proof (cases "decl_name d")
    case None
    then show ?thesis by simp
  next
    case (Some nm)
    show ?thesis
    proof (cases "init_variable enc a (vs ! i) d (int i)")
      case (Inl e)
      then show ?thesis using Some by simp
    next
      case (Inr r)
      obtain v d' where r: "r = (v, d')" by (cases r) auto
      have "\<exists>p \<in> set ps. unnamed_param p" using "3.prems" Some by simp
      then obtain e where "params_init_vars enc a ps (Suc i) (vs[i := v]) = Inl e"
        using "3.IH"[OF Some Inr[unfolded r] refl] by blast
      then show ?thesis using Some Inr r by simp
    qed
  qed
qed simp_all

lemma params_first_unnamed:
  "list_all param_ok ps1 \<Longrightarrow> unnamed_param p \<Longrightarrow>
     params_init_vars enc a (ps1 @ p # ps2) i vs = Inl UnnamedParameter"
proof (induction ps1 arbitrary: i vs)
  case Nil
  then show ?case by (cases p rule: unnamed_param.cases) simp_all
next
  case (Cons q ps1)
  from Cons.prems(1) obtain dq nm where q: "q = Some (JAF_DECLARATION dq)"
    and nm: "decl_name dq = Some nm" and rp: "representable (decl_type dq)"
    by (cases q rule: param_ok.cases) auto
  obtain v d' where iv: "init_variable enc a (vs ! i) dq (int i) = Inr (v, d')"
    using init_variable_ok[OF nm, of enc a "vs ! i" "int i"] rp by auto
  have "params_init_vars enc a (ps1 @ p # ps2) (Suc i) (vs[i := v]) = Inl UnnamedParameter"
    using Cons.IH Cons.prems by simp
  then show ?case using q nm iv by simp
qed

lemma well_formed_split:
  "well_formed i \<longrightarrow> (if nested_fundecl i then fundecl_first i else sound i)"
  "well_formed_block b \<longrightarrow> (if nested_fundecl_block b then fundecl_first_block b else sound_block b)"
  by (induction i and b rule: well_formed_well_formed_block.induct)
     (auto split: if_splits)

lemma to_ain_type_representable:
  "(\<exists>ty. jaf_to_ain_type out t = Inr ty) = representable t"
proof (cases t)
  case None
  then show ?thesis by (simp add: jaf_to_ain_type_def representable_def)
next
  case (Some ts)
  then show ?thesis
    by (cases "ts_type ts") (simp_all add: jaf_to_ain_type_def representable_def)
qed

lemma params_ok_succeed:
  "list_all param_ok ps \<Longrightarrow> \<exists>r. params_init_vars enc a ps i vs = Inr r"
proof (induction ps arbitrary: i vs)
  case Nil
  then show ?case by simp
next
  case (Cons q ps)
  from Cons.prems obtain dq nm where q: "q = Some (JAF_DECLARATION dq)"
    and nm: "decl_name dq = Some nm" and rp: "representable (decl_type dq)"
    by (cases q rule: param_ok.cases) auto
  obtain v d' where iv: "init_variable enc a (vs ! i) dq (int i) = Inr (v, d')"
    using init_variable_ok[OF nm, of enc a "vs ! i" "int i"] rp by auto
  from Cons.prems have "list_all param_ok ps" by simp
  then obtain r where "params_init_vars enc a ps (Suc i) (vs[i := v]) = Inr r"
    using Cons.IH[of "Suc i" "vs[i := v]"] by blast
  then show ?case using q nm iv by (cases r) simp
qed

lemma add_function_body_error:
  assumes h: "header_ok d" and p: "params_ok d"
    and b: "\<And>vs n. block_get_vars enc a (decl_body d) vs n = Inl e"
  shows "add_function enc a d = Inl e"
proof -
  obtain nm where nm: "decl_name d = Some nm" using h by (auto simp: header_ok_def)
  obtain rt where rt: "jaf_to_ain_type zero_type (decl_type d) = Inr rt"
    using h to_ain_type_representable[of zero_type "decl_type d"] by (auto simp: header_ok_def)
  define ps where "ps = (case decl_params d of None \<Rightarrow> [] | Some ps \<Rightarrow> ps)"
  obtain ps' vs0 where r: "params_init_vars enc a ps 0 (replicate (length ps) zero_variable) = Inr (ps', vs0)"
    using params_ok_succeed[of ps enc a 0] p unfolding params_ok_def ps_def by fastforce
  have "function_init_vars enc a f d = Inl e" for f
    using r b[of vs0 "length ps"] unfolding function_init_vars_def ps_def by (simp add: Let_def)
  then show ?thesis using nm rt by (simp add: add_function_def)
qed

lemma add_function_params_error:
  assumes h: "header_ok d"
    and b: "params_init_vars enc a (case decl_params d of None \<Rightarrow> [] | Some ps \<Rightarrow> ps) 0
              (replicate (length (case decl_params d of None \<Rightarrow> [] | Some ps \<Rightarrow> ps)) zero_variable)
            = Inl e"
  shows "add_function enc a d = Inl e"
proof -
  obtain nm where nm: "decl_name d = Some nm" using h by (auto simp: header_ok_def)
  obtain rt where rt: "jaf_to_ain_type zero_type (decl_type d) = Inr rt"
    using h to_ain_type_representable[of zero_type "decl_type d"] by (auto simp: header_ok_def)
  have "function_init_vars enc a f d = Inl e" for f
    using b unfolding function_init_vars_def by (simp add: Let_def)
  then show ?thesis using nm rt by (simp add: add_function_def)
qed

lemma add_function_fails:
  "(\<And>f. \<exists>e. function_init_vars enc a f d = Inl e) \<Longrightarrow> \<exists>e. add_function enc a d = Inl e"
proof -
  assume f: "\<And>f. \<exists>e. function_init_vars enc a f d = Inl e"
  show ?thesis
  proof (cases "decl_name d")
    case None
    then show ?thesis by (simp add: add_function_def)
  next
    case (Some nm)
    show ?thesis
    proof (cases "jaf_to_ain_type zero_type (decl_type d)")
      case (Inl e)
      then show ?thesis using Some by (simp add: add_function_def)
    next
      case (Inr rt)
      obtain e where "function_init_vars enc a
          \<lparr>fun_name = nm, return_type = rt, nr_args = 0, nr_vars = 0, vars = []\<rparr> d = Inl e"
        using f by blast
      then show ?thesis using Some Inr by (simp add: add_function_def)
    qed
  qed
qed

lemma process_declarations_append:
  "jaf_process_declarations enc a (xs @ ys) =
     (case jaf_process_declarations enc a xs of
        Inl e \<Rightarrow> Inl e
      | Inr (a1, xs') \<Rightarrow>
          (case jaf_process_declarations enc a1 ys of
             Inl e \<Rightarrow> Inl e
           | Inr (a', ys') \<Rightarrow> Inr (a', xs' @ ys')))"
proof (induction enc a xs rule: jaf_process_declarations.induct)
  case (1 enc a)
  then show ?case by (simp split: sum.splits prod.splits)
next
  case (2 enc a "is")
  then show ?case by simp
next
  case (3 enc a item "is")
  show ?case
  proof (cases "item_decl item")
    case None
    then show ?thesis by simp
  next
    case (Some d)
    define r where "r = (if decl_name d = None then Inr (a, d)
                 else if item = JAF_FUNDECL d then add_function enc a d
                 else add_global enc a d)"
    show ?thesis
    proof (cases r)
      case (Inl e)
      then show ?thesis using Some unfolding r_def by simp
    next
      case (Inr p)
      obtain a1 d' where p: "p = (a1, d')" by (cases p) auto
      have ih: "jaf_process_declarations enc a1 (is @ ys) =
         (case jaf_process_declarations enc a1 is of
            Inl e \<Rightarrow> Inl e
          | Inr (a2, xs') \<Rightarrow>
              (case jaf_process_declarations enc a2 ys of
                 Inl e \<Rightarrow> Inl e
               | Inr (a', ys') \<Rightarrow> Inr (a', xs' @ ys')))"
        using "3.IH"[OF Some Inr[unfolded r_def p] refl] .
      have l: "jaf_process_declarations enc a (Some item # is @ ys) =
          (case jaf_process_declarations enc a1 (is @ ys) of
                  Inl e \<Rightarrow> Inl e
                | Inr (a', is') \<Rightarrow> Inr (a', Some (item_set_decl item d') # is'))"
        using Some Inr p unfolding r_def by simp
      have r: "jaf_process_declarations enc a (Some item # is) =
          (case jaf_process_declarations enc a1 is of
                  Inl e \<Rightarrow> Inl e
                | Inr (a', is') \<Rightarrow> Inr (a', Some (item_set_decl item d') # is'))"
        using Some Inr p unfolding r_def by simp
      show ?thesis
        unfolding append_Cons l r ih
        by (simp split: sum.splits prod.splits)
    qed
  qed
qed

lemma process_declarations_function_error:
  assumes "jaf_process_declarations enc a items1 = Inr (a1, items1')"
    and "decl_name d \<noteq> None" and "add_function enc a1 d = Inl e"
  shows "jaf_process_declarations enc a (items1 @ Some (JAF_FUNDECL d) # items2) = Inl e"
proof -
  obtain nm where nm: "decl_name d = Some nm" using assms(2) by auto
  have "jaf_process_declarations enc a1 (Some (JAF_FUNDECL d) # items2) = Inl e"
    using nm assms(3) by simp
  then show ?thesis using assms(1) by (simp add: process_declarations_append)
qed

text \<open>
  C8. Local-variable collection over a body that holds a function declaration, at any
  depth under labeled statements, blocks, if branches, switch bodies, loop bodies,
  for-init lists and case or default statements, never succeeds, and it stops with
  "Nested functions not supported" when the walk reaches the function declaration, that
  is when everything before it in source order is sound; in particular when the
  function declaration is the only defect of the body. So does \<open>add_function\<close> on a
  function that has a name, a representable return type and parameters that pass the
  parameter loop, and so does \<open>jaf_process_declarations\<close> when the declarations before
  that function have been processed.
\<close>

theorem nested_function_rejected:
  "(nested_fundecl_block body \<longrightarrow> (\<exists>e. block_get_vars enc a body vs n = Inl e))
   \<and> (fundecl_first_block body \<longrightarrow>
        block_get_vars enc a body vs n = Inl NestedFunctionsNotSupported)
   \<and> (nested_fundecl_block body \<and> well_formed_block body \<longrightarrow>
        block_get_vars enc a body vs n = Inl NestedFunctionsNotSupported)
   \<and> (header_ok d \<and> params_ok d \<and> nested_fundecl_block (decl_body d)
        \<and> well_formed_block (decl_body d) \<longrightarrow>
        add_function enc a d = Inl NestedFunctionsNotSupported)
   \<and> (jaf_process_declarations enc a0 items1 = Inr (a, items1')
        \<and> header_ok d \<and> params_ok d \<and> nested_fundecl_block (decl_body d)
        \<and> well_formed_block (decl_body d) \<longrightarrow>
        jaf_process_declarations enc a0 (items1 @ Some (JAF_FUNDECL d) # items2)
          = Inl NestedFunctionsNotSupported)"
proof -
  have first: "fundecl_first_block b \<Longrightarrow>
      block_get_vars enc a b ws k = Inl NestedFunctionsNotSupported" for b ws k
    using fundecl_first_stops(2) by blast
  have only: "nested_fundecl_block b \<Longrightarrow> well_formed_block b \<Longrightarrow>
      block_get_vars enc a b ws k = Inl NestedFunctionsNotSupported" for b ws k
    using well_formed_split(2)[of b] first by simp
  have func: "header_ok d \<Longrightarrow> params_ok d \<Longrightarrow> nested_fundecl_block (decl_body d) \<Longrightarrow>
      well_formed_block (decl_body d) \<Longrightarrow> add_function enc a d = Inl NestedFunctionsNotSupported"
    using add_function_body_error[of d enc a NestedFunctionsNotSupported] only by simp
  have c1: "nested_fundecl_block body \<longrightarrow> (\<exists>e. block_get_vars enc a body vs n = Inl e)"
  proof
    assume "nested_fundecl_block body"
    then have "\<not> sound_block body" by (rule nested_fundecl_unsound(2))
    then have "\<not> (\<exists>r. block_get_vars enc a body vs n = Inr r)"
      using sound_iff_collects(2)[of enc a body vs n] by simp
    then show "\<exists>e. block_get_vars enc a body vs n = Inl e"
      by (cases "block_get_vars enc a body vs n") auto
  qed
  have c5: "jaf_process_declarations enc a0 items1 = Inr (a, items1')
        \<and> header_ok d \<and> params_ok d \<and> nested_fundecl_block (decl_body d)
        \<and> well_formed_block (decl_body d) \<longrightarrow>
        jaf_process_declarations enc a0 (items1 @ Some (JAF_FUNDECL d) # items2)
          = Inl NestedFunctionsNotSupported"
  proof
    assume h: "jaf_process_declarations enc a0 items1 = Inr (a, items1')
        \<and> header_ok d \<and> params_ok d \<and> nested_fundecl_block (decl_body d)
        \<and> well_formed_block (decl_body d)"
    then have "add_function enc a d = Inl NestedFunctionsNotSupported" using func by simp
    moreover have "decl_name d \<noteq> None" using h by (simp add: header_ok_def)
    ultimately show "jaf_process_declarations enc a0 (items1 @ Some (JAF_FUNDECL d) # items2)
          = Inl NestedFunctionsNotSupported"
      using process_declarations_function_error[of enc a0 items1 a items1' d] h by simp
  qed
  show ?thesis using c1 first only func c5 by blast
qed

theorem nested_function_rejected_witness:
  "nested_fundecl_block body_g \<and> fundecl_first_block body_g \<and> well_formed_block body_g
   \<and> header_ok fun_g \<and> params_ok fun_g \<and> decl_body fun_g = body_g
   \<and> jaf_process_declarations (\<lambda>s. s) ain_T [] = Inr (ain_T, [])
   \<and> (\<exists>e. block_get_vars (\<lambda>s. s) ain_T body_g [] 0 = Inl e)
   \<and> block_get_vars (\<lambda>s. s) ain_T body_g [] 0 = Inl NestedFunctionsNotSupported
   \<and> add_function (\<lambda>s. s) ain_T fun_g = Inl NestedFunctionsNotSupported
   \<and> jaf_process_declarations (\<lambda>s. s) ain_T [Some (JAF_FUNDECL fun_g)]
       = Inl NestedFunctionsNotSupported"
  using nested_function_rejected [of body_g "\<lambda>s. s" ain_T "[]" 0 fun_g ain_T "[]" "[]" "[]"]
  by (simp add: body_g_def fun_g_def fun_decl_def header_ok_def params_ok_def representable_def)

text \<open>
  C9. A function declaration that has a parameter without a name is never processed
  with success: \<open>function_init_vars\<close> and \<open>add_function\<close> fail on it. The failure
  is the assertion on the parameter's name in \<open>function_init_vars\<close> when every
  parameter before the first unnamed one is a named declaration of a representable
  type; in \<open>add_function\<close> when moreover the function has a name and a representable
  return type, which is encoded before the parameters are looked at; and in
  \<open>jaf_process_declarations\<close> when the declarations before that function have been
  processed.
\<close>

theorem unnamed_parameter_rejected:
  "(decl_params d = Some ps \<and> (\<exists>p \<in> set ps. unnamed_param p) \<longrightarrow>
      (\<exists>e. function_init_vars enc a f d = Inl e) \<and> (\<exists>e. add_function enc a d = Inl e))
   \<and> (decl_params d = Some (ps1 @ p # ps2) \<and> list_all param_ok ps1 \<and> unnamed_param p \<longrightarrow>
        function_init_vars enc a f d = Inl UnnamedParameter)
   \<and> (header_ok d \<and> decl_params d = Some (ps1 @ p # ps2) \<and> list_all param_ok ps1
        \<and> unnamed_param p \<longrightarrow>
        add_function enc a d = Inl UnnamedParameter)
   \<and> (jaf_process_declarations enc a0 items1 = Inr (a, items1')
        \<and> header_ok d \<and> decl_params d = Some (ps1 @ p # ps2) \<and> list_all param_ok ps1
        \<and> unnamed_param p \<longrightarrow>
        jaf_process_declarations enc a0 (items1 @ Some (JAF_FUNDECL d) # items2)
          = Inl UnnamedParameter)"
proof -
  have c1: "decl_params d = Some ps \<and> (\<exists>p \<in> set ps. unnamed_param p) \<longrightarrow>
      (\<exists>e. function_init_vars enc a f d = Inl e) \<and> (\<exists>e. add_function enc a d = Inl e)"
  proof
    assume h: "decl_params d = Some ps \<and> (\<exists>p \<in> set ps. unnamed_param p)"
    then obtain e where
      "params_init_vars enc a ps 0 (replicate (length ps) zero_variable) = Inl e"
      using params_unnamed_fails by blast
    then have "\<exists>e. function_init_vars enc a g d = Inl e" for g
      using h by (simp add: function_init_vars_def)
    then show "(\<exists>e. function_init_vars enc a f d = Inl e) \<and> (\<exists>e. add_function enc a d = Inl e)"
      using add_function_fails[of enc a d] by blast
  qed
  have par: "params_init_vars enc a (ps1 @ p # ps2) 0
               (replicate (length (ps1 @ p # ps2)) zero_variable) = Inl UnnamedParameter"
    if "list_all param_ok ps1" "unnamed_param p"
    using params_first_unnamed that by blast
  have c2: "decl_params d = Some (ps1 @ p # ps2) \<and> list_all param_ok ps1 \<and> unnamed_param p \<longrightarrow>
        function_init_vars enc a f d = Inl UnnamedParameter"
    using par by (simp add: function_init_vars_def)
  have func: "add_function enc a d = Inl UnnamedParameter"
    if "header_ok d" "decl_params d = Some (ps1 @ p # ps2)" "list_all param_ok ps1" "unnamed_param p"
    using add_function_params_error[of d enc a UnnamedParameter] par that by simp
  have c4: "jaf_process_declarations enc a0 items1 = Inr (a, items1')
        \<and> header_ok d \<and> decl_params d = Some (ps1 @ p # ps2) \<and> list_all param_ok ps1
        \<and> unnamed_param p \<longrightarrow>
        jaf_process_declarations enc a0 (items1 @ Some (JAF_FUNDECL d) # items2)
          = Inl UnnamedParameter"
  proof
    assume h: "jaf_process_declarations enc a0 items1 = Inr (a, items1')
        \<and> header_ok d \<and> decl_params d = Some (ps1 @ p # ps2) \<and> list_all param_ok ps1
        \<and> unnamed_param p"
    then have "add_function enc a d = Inl UnnamedParameter" using func by simp
    moreover have "decl_name d \<noteq> None" using h by (simp add: header_ok_def)
    ultimately show "jaf_process_declarations enc a0 (items1 @ Some (JAF_FUNDECL d) # items2)
          = Inl UnnamedParameter"
      using process_declarations_function_error[of enc a0 items1 a items1' d] h by simp
  qed
  show ?thesis using c1 c2 func c4 by blast
qed

theorem unnamed_parameter_rejected_witness:
  "decl_params fun_k
     = Some ([Some (JAF_DECLARATION (var_decl (Some ''p'') JAF_INT 0))]
             @ Some (JAF_DECLARATION (var_decl None JAF_INT 0)) # [])
   \<and> header_ok fun_k
   \<and> list_all param_ok [Some (JAF_DECLARATION (var_decl (Some ''p'') JAF_INT 0))]
   \<and> unnamed_param (Some (JAF_DECLARATION (var_decl None JAF_INT 0)))
   \<and> jaf_process_declarations (\<lambda>s. s) ain_T [] = Inr (ain_T, [])
   \<and> (\<exists>e. function_init_vars (\<lambda>s. s) ain_T zero_function fun_k = Inl e)
   \<and> (\<exists>e. add_function (\<lambda>s. s) ain_T fun_k = Inl e)
   \<and> function_init_vars (\<lambda>s. s) ain_T zero_function fun_k = Inl UnnamedParameter
   \<and> add_function (\<lambda>s. s) ain_T fun_k = Inl UnnamedParameter
   \<and> jaf_process_declarations (\<lambda>s. s) ain_T [Some (JAF_FUNDECL fun_k)] = Inl UnnamedParameter"
  using unnamed_parameter_rejected
          [of fun_k "[Some (JAF_DECLARATION (var_decl (Some ''p'') JAF_INT 0))]
                       @ Some (JAF_DECLARATION (var_decl None JAF_INT 0)) # []"
              "\<lambda>s. s" ain_T
              zero_function "[Some (JAF_DECLARATION (var_decl (Some ''p'') JAF_INT 0))]"
              "Some (JAF_DECLARATION (var_decl None JAF_INT 0))" "[]" ain_T "[]" "[]" "[]"]
  by (simp add: fun_k_def fun_decl_def params_unnamed_def var_decl_def representable_def
        header_ok_def)

section \<open>Scope chain and analyser\<close>

lemma same_frame_refl: "same_frame env env"
  by (simp add: same_frame_def)

lemma same_frame_trans: "same_frame e1 e2 \<Longrightarrow> same_frame e2 e3 \<Longrightarrow> same_frame e1 e3"
  by (auto simp: same_frame_def)

lemma same_frame_local:
  "analyze_local_declaration a env d = Inr env' \<Longrightarrow> same_frame env env'"
  by (auto simp: analyze_local_declaration_def same_frame_def split: if_splits)

lemma same_frame_parent:
  "same_frame (Jaf_Env (Some env) f fd ls) env' \<Longrightarrow> parent env' = Some env"
  by (simp add: same_frame_def)

lemma analyze_env_preserved:
  "\<forall>a' env' d'. analyze_function derive simplify agree a env d = Inr (a', env', d') \<longrightarrow> env' = env"
  "\<forall>a' env' i'. analyze_statement derive simplify agree a env i = Inr (a', env', i') \<longrightarrow>
      same_frame env env'"
  "\<forall>a' env' b'. jaf_analyze_block derive simplify agree a env b = Inr (a', env', b') \<longrightarrow>
      same_frame env env'"
  "\<forall>a' env' b'. analyze_block derive simplify agree a env b = Inr (a', env', b') \<longrightarrow> env' = env"
proof (induction derive simplify agree a env d and derive simplify agree a env i
         and derive simplify agree a env b and derive simplify agree a env b
       rule: analyze_function_analyze_statement_jaf_analyze_block_analyze_block.induct)
  case (1 derive simplify agree a env nm ty ini ps body vn fn)
  show ?case
  proof (intro allI impI)
    fix a' env' d'
    assume r: "analyze_function derive simplify agree a env (Declaration nm ty ini ps body vn fn)
                 = Inr (a', env', d')"
    then have c: "\<not> \<not> fn < int (length (ain_functions a))" "\<not> fn < 0"
      by (auto split: if_splits)
    from r c obtain funenv body' where
      r1: "jaf_analyze_block derive simplify agree a
             (Jaf_Env (Some env) fn (Some (Declaration nm ty ini ps body vn fn))
                (map (\<lambda>i. (fn, int i)) [0..<nr_args (ain_functions a ! nat fn)])) body
             = Inr (a', funenv, body')"
      and p: "parent funenv = Some env'"
      by (auto split: sum.splits option.splits if_splits)
    have "same_frame (Jaf_Env (Some env) fn (Some (Declaration nm ty ini ps body vn fn))
                (map (\<lambda>i. (fn, int i)) [0..<nr_args (ain_functions a ! nat fn)])) funenv"
      using "1.IH"[OF c, rule_format, OF r1] .
    then show "env' = env" using p same_frame_parent by fastforce
  qed
next
  case (2 derive simplify agree a env)
  then show ?case by (simp add: same_frame_refl)
next
  case (3 derive simplify agree a env d)
  then show ?case
    by (auto simp: same_frame_refl same_frame_local split: sum.splits if_splits)
next
  case (4 derive simplify agree a env d)
  then show ?case by (auto simp: same_frame_refl split: sum.splits)
next
  case (5 derive simplify agree a env s)
  then show ?case by (auto split: sum.splits)
next
  case (6 derive simplify agree a env b)
  then show ?case by (auto simp: same_frame_refl split: sum.splits)
next
  case (7 derive simplify agree a env e)
  then show ?case by (auto simp: same_frame_refl split: sum.splits)
next
  case (8 derive simplify agree a env t c alt)
  show ?case
  proof (intro allI impI)
    fix a' env' i'
    assume r: "analyze_statement derive simplify agree a env (Some (JAF_STMT_IF t c alt))
                 = Inr (a', env', i')"
    then obtain t' a1 env1 c' alt' where
      r0: "analyze_expression derive simplify a env t = Inr t'"
      and r1: "analyze_statement derive simplify agree a env c = Inr (a1, env1, c')"
      and r2: "analyze_statement derive simplify agree a1 env1 alt = Inr (a', env', alt')"
      by (auto split: sum.splits)
    have "same_frame env env1" using "8.IH"(1)[OF r0, rule_format, OF r1] .
    moreover have "same_frame env1 env'"
      using "8.IH"(2)[OF r0 r1 refl refl, rule_format, OF r2] .
    ultimately show "same_frame env env'" by (rule same_frame_trans)
  qed
next
  case (9 derive simplify agree a env e b)
  then show ?case by (auto simp: same_frame_refl split: sum.splits)
next
  case (10 derive simplify agree a env t body)
  then show ?case by (auto split: sum.splits)
next
  case (11 derive simplify agree a env t body)
  then show ?case by (auto split: sum.splits)
next
  case (12 derive simplify agree a env ini t af body)
  show ?case
  proof (intro allI impI)
    fix a' env' i'
    assume r: "analyze_statement derive simplify agree a env (Some (JAF_STMT_FOR ini t af body))
                 = Inr (a', env', i')"
    then obtain a1 env1 ini' t' af' body' where
      r0: "analyze_block derive simplify agree a env ini = Inr (a1, env1, ini')"
      and r1: "analyze_expression derive simplify a1 env1 t = Inr t'"
      and r2: "analyze_expression derive simplify a1 env1 af = Inr af'"
      and r3: "analyze_statement derive simplify agree a1 env1 body = Inr (a', env', body')"
      by (auto split: sum.splits)
    have e1: "env1 = env" using "12.IH"(1)[rule_format, OF r0] .
    have "same_frame env1 env'"
      using "12.IH"(2)[OF r0 refl refl r1 r2, rule_format, OF r3] .
    then show "same_frame env env'" using e1 by simp
  qed
next
  case (13 derive simplify agree a env e)
  then show ?case by (auto simp: same_frame_refl split: sum.splits option.splits)
next
  case (14 derive simplify agree a env s)
  then show ?case by (auto split: sum.splits)
next
  case (15 derive simplify agree a env s)
  then show ?case by (auto split: sum.splits)
next
  case (16 derive simplify agree a env)
  then show ?case by (simp add: same_frame_refl)
next
  case (17 derive simplify agree a env)
  then show ?case by (simp add: same_frame_refl)
next
  case (18 derive simplify agree a env)
  then show ?case by (simp add: same_frame_refl)
next
  case (19 derive simplify agree a env)
  then show ?case by (simp add: same_frame_refl)
next
  case (20 derive simplify agree a env i "is")
  show ?case
  proof (intro allI impI)
    fix a' env' b'
    assume r: "jaf_analyze_block derive simplify agree a env (i # is) = Inr (a', env', b')"
    then obtain a1 env1 i' is' where
      r1: "analyze_statement derive simplify agree a env i = Inr (a1, env1, i')"
      and r2: "jaf_analyze_block derive simplify agree a1 env1 is = Inr (a', env', is')"
      by (auto split: sum.splits)
    have "same_frame env env1" using "20.IH"(1)[rule_format, OF r1] .
    moreover have "same_frame env1 env'"
      using "20.IH"(2)[OF r1 refl refl, rule_format, OF r2] .
    ultimately show "same_frame env env'" by (rule same_frame_trans)
  qed
next
  case (21 derive simplify agree a env b)
  show ?case
  proof (intro allI impI)
    fix a' env' b'
    assume r: "analyze_block derive simplify agree a env b = Inr (a', env', b')"
    then obtain blockenv where
      r1: "jaf_analyze_block derive simplify agree a
             (Jaf_Env (Some env) (env_func_no env) (fundecl env) []) b = Inr (a', blockenv, b')"
      and p: "parent blockenv = Some env'"
      by (auto split: sum.splits option.splits)
    have "same_frame (Jaf_Env (Some env) (env_func_no env) (fundecl env) []) blockenv"
      using "21.IH"[rule_format, OF r1] .
    then show "env' = env" using p same_frame_parent by fastforce
  qed
qed

lemma bindings_block_env:
  "same_frame (block_env env) blockenv \<Longrightarrow>
     parent blockenv = Some env \<and> bindings blockenv = locals blockenv @ bindings env"
  by (cases blockenv) (auto simp: same_frame_def block_env_def)

text \<open>
  C10. The environment \<open>block_env env\<close> is made for the init block of a \<open>for\<close>
  statement and dropped when that block has been analysed: the bindings made by the init
  block are at the front of its list, before those of \<open>env\<close>, and \<open>env\<close> comes back as
  it was. The test, the after expression and the body are analysed in \<open>env\<close>, whose
  bindings are those from before the statement, without the ones of the init block.
\<close>

theorem for_init_scope:
  "analyze_statement derive simplify agree a env (Some (JAF_STMT_FOR ini t af body)) =
     (case jaf_analyze_block derive simplify agree a (block_env env) ini of
        Inl x \<Rightarrow> Inl x
      | Inr (a1, blockenv, ini') \<Rightarrow>
          (case analyze_expression derive simplify a1 env t of
             Inl x \<Rightarrow> Inl x
           | Inr t' \<Rightarrow>
               (case analyze_expression derive simplify a1 env af of
                  Inl x \<Rightarrow> Inl x
                | Inr af' \<Rightarrow>
                    (case analyze_statement derive simplify agree a1 env body of
                       Inl x \<Rightarrow> Inl x
                     | Inr (a', env', body') \<Rightarrow>
                         Inr (a', env', Some (JAF_STMT_FOR ini' t' af' body'))))))
   \<and> (\<forall>a1 blockenv ini'.
         jaf_analyze_block derive simplify agree a (block_env env) ini = Inr (a1, blockenv, ini')
         \<longrightarrow> parent blockenv = Some env
             \<and> bindings blockenv = locals blockenv @ bindings env)"
proof (intro conjI allI impI)
  show "analyze_statement derive simplify agree a env (Some (JAF_STMT_FOR ini t af body)) =
     (case jaf_analyze_block derive simplify agree a (block_env env) ini of
        Inl x \<Rightarrow> Inl x
      | Inr (a1, blockenv, ini') \<Rightarrow>
          (case analyze_expression derive simplify a1 env t of
             Inl x \<Rightarrow> Inl x
           | Inr t' \<Rightarrow>
               (case analyze_expression derive simplify a1 env af of
                  Inl x \<Rightarrow> Inl x
                | Inr af' \<Rightarrow>
                    (case analyze_statement derive simplify agree a1 env body of
                       Inl x \<Rightarrow> Inl x
                     | Inr (a', env', body') \<Rightarrow>
                         Inr (a', env', Some (JAF_STMT_FOR ini' t' af' body'))))))"
  proof (cases "jaf_analyze_block derive simplify agree a (block_env env) ini")
    case (Inl x)
    then show ?thesis by (simp add: block_env_def)
  next
    case (Inr r)
    obtain a1 blockenv ini' where r: "r = (a1, blockenv, ini')" by (cases r) auto
    have "same_frame (block_env env) blockenv"
      using analyze_env_preserved(3)[rule_format, OF Inr[unfolded r]] .
    then have p: "parent blockenv = Some env" using bindings_block_env by blast
    have "analyze_block derive simplify agree a env ini = Inr (a1, env, ini')"
      using Inr r p by (simp add: block_env_def)
    then show ?thesis using Inr r by simp
  qed
next
  fix a1 blockenv ini'
  assume "jaf_analyze_block derive simplify agree a (block_env env) ini = Inr (a1, blockenv, ini')"
  then have "same_frame (block_env env) blockenv"
    using analyze_env_preserved(3)[rule_format] by blast
  then show "parent blockenv = Some env" and "bindings blockenv = locals blockenv @ bindings env"
    using bindings_block_env by blast+
qed

theorem for_init_scope_witness:
  "jaf_analyze_block jaf_derive_types jaf_simplify types_agree ain_f (block_env env_f)
       [Some (JAF_DECLARATION (var_decl (Some ''x'') JAF_INT 1))]
     = Inr (ain_f, Jaf_Env (Some env_f) 0 (Some (fun_f 0 1 2 0)) [(0, 1)],
            [Some (JAF_DECLARATION (var_decl (Some ''x'') JAF_INT 1))])
   \<and> bindings (Jaf_Env (Some env_f) 0 (Some (fun_f 0 1 2 0)) [(0, 1)]) = [(0, 1), (0, 0)]
   \<and> bindings env_f = [(0, 0)]
   \<and> analyze_statement jaf_derive_types jaf_simplify types_agree ain_f env_f
        (for_x (Some one_plus_two))
     = Inr (ain_f, env_f, for_x (Some (JAF_EXP_INT 3)))"
proof -
  have h: "jaf_analyze_block jaf_derive_types jaf_simplify types_agree ain_f (block_env env_f)
       [Some (JAF_DECLARATION (var_decl (Some ''x'') JAF_INT 1))]
     = Inr (ain_f, Jaf_Env (Some env_f) 0 (Some (fun_f 0 1 2 0)) [(0, 1)],
            [Some (JAF_DECLARATION (var_decl (Some ''x'') JAF_INT 1))])"
    by (simp add: block_env_def env_f_def ain_f_def ain_T_def function_f_def var_decl_def
          analyze_local_declaration_def)
  have b: "bindings (Jaf_Env (Some env_f) 0 (Some (fun_f 0 1 2 0)) [(0, 1)])
             = locals (Jaf_Env (Some env_f) 0 (Some (fun_f 0 1 2 0)) [(0, 1)]) @ bindings env_f"
    by (rule for_init_scope [of jaf_derive_types jaf_simplify types_agree ain_f env_f
            "[Some (JAF_DECLARATION (var_decl (Some ''x'') JAF_INT 1))]"
            "Some one_plus_two" None "Some JAF_STMT_BREAK",
            THEN conjunct2, rule_format, OF h, THEN conjunct2])
  have e: "bindings env_f = [(0, 0)]" by (simp add: env_f_def global_env_def)
  have s: "analyze_statement jaf_derive_types jaf_simplify types_agree ain_f env_f
        (for_x (Some one_plus_two))
     = Inr (ain_f, env_f, for_x (Some (JAF_EXP_INT 3)))"
    unfolding for_x_def
    by (subst for_init_scope [THEN conjunct1], subst h)
       (simp add: analyze_expression_def jaf_derive_types_def one_plus_two_def)
  have b': "bindings (Jaf_Env (Some env_f) 0 (Some (fun_f 0 1 2 0)) [(0, 1)]) = [(0, 1), (0, 0)]"
    using b e by simp
  show ?thesis by (intro conjI h b' e s)
qed


lemma analyze_returns_checked:
  "\<forall>a' env' d'. analyze_function derive simplify agree a env d = Inr (a', env', d') \<longrightarrow>
      decl_type d' = decl_type d \<and> (\<forall>r \<in> set (block_returns (decl_body d')). agree r (decl_type d))"
  "\<forall>fd a' env' i'. fundecl env = Some fd \<longrightarrow>
      analyze_statement derive simplify agree a env i = Inr (a', env', i') \<longrightarrow>
      (\<forall>r \<in> set (item_returns i'). agree r (decl_type fd))"
  "\<forall>fd a' env' b'. fundecl env = Some fd \<longrightarrow>
      jaf_analyze_block derive simplify agree a env b = Inr (a', env', b') \<longrightarrow>
      (\<forall>r \<in> set (block_returns b'). agree r (decl_type fd))"
  "\<forall>fd a' env' b'. fundecl env = Some fd \<longrightarrow>
      analyze_block derive simplify agree a env b = Inr (a', env', b') \<longrightarrow>
      (\<forall>r \<in> set (block_returns b'). agree r (decl_type fd))"
proof (induction derive simplify agree a env d and derive simplify agree a env i
         and derive simplify agree a env b and derive simplify agree a env b
       rule: analyze_function_analyze_statement_jaf_analyze_block_analyze_block.induct)
  case (1 derive simplify agree a env nm ty ini ps body vn fn)
  show ?case
  proof (intro allI impI)
    fix a' env' d'
    assume r: "analyze_function derive simplify agree a env (Declaration nm ty ini ps body vn fn)
                 = Inr (a', env', d')"
    then have c: "\<not> \<not> fn < int (length (ain_functions a))" "\<not> fn < 0"
      by (auto split: if_splits)
    from r c obtain funenv body' where
      r1: "jaf_analyze_block derive simplify agree a
             (Jaf_Env (Some env) fn (Some (Declaration nm ty ini ps body vn fn))
                (map (\<lambda>i. (fn, int i)) [0..<nr_args (ain_functions a ! nat fn)])) body
             = Inr (a', funenv, body')"
      and d': "d' = Declaration nm ty ini ps body' vn fn"
      by (auto split: sum.splits option.splits if_splits)
    have f: "fundecl (Jaf_Env (Some env) fn (Some (Declaration nm ty ini ps body vn fn))
                (map (\<lambda>i. (fn, int i)) [0..<nr_args (ain_functions a ! nat fn)]))
               = Some (Declaration nm ty ini ps body vn fn)"
      by simp
    have "\<forall>r \<in> set (block_returns body'). agree r (decl_type (Declaration nm ty ini ps body vn fn))"
      using "1.IH"[OF c, rule_format, OF f r1] by blast
    then show "decl_type d' = decl_type (Declaration nm ty ini ps body vn fn) \<and>
       (\<forall>r \<in> set (block_returns (decl_body d')).
           agree r (decl_type (Declaration nm ty ini ps body vn fn)))"
      using d' by simp
  qed
next
  case (2 derive simplify agree a env)
  then show ?case by simp
next
  case (3 derive simplify agree a env d)
  show ?case
  proof (intro allI impI)
    fix fd a' env' i'
    assume r: "analyze_statement derive simplify agree a env (Some (JAF_DECLARATION d))
                 = Inr (a', env', i')"
    have "\<exists>d'. i' = Some (JAF_DECLARATION d')"
    proof (cases "parent env \<noteq> None")
      case True
      then show ?thesis using r by (cases "analyze_local_declaration a env d") auto
    next
      case False
      then show ?thesis using r
        by (cases "analyze_global_declaration derive simplify agree a env d") auto
    qed
    then show "\<forall>r \<in> set (item_returns i'). agree r (decl_type fd)" by auto
  qed
next
  case (4 derive simplify agree a env d)
  show ?case
  proof (intro allI impI)
    fix fd a' env' i'
    assume r: "analyze_statement derive simplify agree a env (Some (JAF_FUNDECL d))
                 = Inr (a', env', i')"
    have "\<exists>d'. i' = Some (JAF_FUNDECL d')"
      using r by (cases "analyze_function derive simplify agree a env d") auto
    then show "\<forall>r \<in> set (item_returns i'). agree r (decl_type fd)" by auto
  qed
next
  case (5 derive simplify agree a env s)
  show ?case
  proof (intro allI impI)
    fix fd a' env' i'
    assume f: "fundecl env = Some fd"
      and r: "analyze_statement derive simplify agree a env (Some (JAF_STMT_LABELED s))
                = Inr (a', env', i')"
    then obtain s' where r1: "analyze_statement derive simplify agree a env s = Inr (a', env', s')"
      and i': "i' = Some (JAF_STMT_LABELED s')"
      by (auto split: sum.splits)
    show "\<forall>r \<in> set (item_returns i'). agree r (decl_type fd)"
      using "5.IH"[rule_format, OF f r1] i' by simp
  qed
next
  case (6 derive simplify agree a env b)
  show ?case
  proof (intro allI impI)
    fix fd a' env' i'
    assume f: "fundecl env = Some fd"
      and r: "analyze_statement derive simplify agree a env (Some (JAF_STMT_COMPOUND b))
                = Inr (a', env', i')"
    then obtain b' where r1: "analyze_block derive simplify agree a env b = Inr (a', env', b')"
      and i': "i' = Some (JAF_STMT_COMPOUND b')"
      by (auto split: sum.splits)
    show "\<forall>r \<in> set (item_returns i'). agree r (decl_type fd)"
      using "6.IH"[rule_format, OF f r1] i' by simp
  qed
next
  case (7 derive simplify agree a env e)
  show ?case
  proof (intro allI impI)
    fix fd a' env' i'
    assume r: "analyze_statement derive simplify agree a env (Some (JAF_STMT_EXPRESSION e))
                 = Inr (a', env', i')"
    have "\<exists>e'. i' = Some (JAF_STMT_EXPRESSION e')"
      using r by (cases "analyze_expression derive simplify a env e") auto
    then show "\<forall>r \<in> set (item_returns i'). agree r (decl_type fd)" by auto
  qed
next
  case (8 derive simplify agree a env t c alt)
  show ?case
  proof (intro allI impI)
    fix fd a' env' i'
    assume f: "fundecl env = Some fd"
      and r: "analyze_statement derive simplify agree a env (Some (JAF_STMT_IF t c alt))
                 = Inr (a', env', i')"
    then obtain t' a1 env1 c' alt' where
      r0: "analyze_expression derive simplify a env t = Inr t'"
      and r1: "analyze_statement derive simplify agree a env c = Inr (a1, env1, c')"
      and r2: "analyze_statement derive simplify agree a1 env1 alt = Inr (a', env', alt')"
      and i': "i' = Some (JAF_STMT_IF t' c' alt')"
      by (auto split: sum.splits)
    have f1: "fundecl env1 = Some fd"
      using analyze_env_preserved(2)[rule_format, OF r1] f by (simp add: same_frame_def)
    have "\<forall>r \<in> set (item_returns c'). agree r (decl_type fd)"
      using "8.IH"(1)[OF r0, rule_format, OF f r1] by blast
    moreover have "\<forall>r \<in> set (item_returns alt'). agree r (decl_type fd)"
      using "8.IH"(2)[OF r0 r1 refl refl, rule_format, OF f1 r2] by blast
    ultimately show "\<forall>r \<in> set (item_returns i'). agree r (decl_type fd)"
      using i' by auto
  qed
next
  case (9 derive simplify agree a env e b)
  show ?case
  proof (intro allI impI)
    fix fd a' env' i'
    assume f: "fundecl env = Some fd"
      and r: "analyze_statement derive simplify agree a env (Some (JAF_STMT_SWITCH e b))
                = Inr (a', env', i')"
    then obtain e' b' where r0: "analyze_expression derive simplify a env e = Inr e'"
      and r1: "analyze_block derive simplify agree a env b = Inr (a', env', b')"
      and i': "i' = Some (JAF_STMT_SWITCH e' b')"
      by (auto split: sum.splits)
    show "\<forall>r \<in> set (item_returns i'). agree r (decl_type fd)"
      using "9.IH"[OF r0, rule_format, OF f r1] i' by simp
  qed
next
  case (10 derive simplify agree a env t body)
  show ?case
  proof (intro allI impI)
    fix fd a' env' i'
    assume f: "fundecl env = Some fd"
      and r: "analyze_statement derive simplify agree a env (Some (JAF_STMT_WHILE t body))
                = Inr (a', env', i')"
    then obtain t' body' where r0: "analyze_expression derive simplify a env t = Inr t'"
      and r1: "analyze_statement derive simplify agree a env body = Inr (a', env', body')"
      and i': "i' = Some (JAF_STMT_WHILE t' body')"
      by (auto split: sum.splits)
    show "\<forall>r \<in> set (item_returns i'). agree r (decl_type fd)"
      using "10.IH"[OF r0, rule_format, OF f r1] i' by simp
  qed
next
  case (11 derive simplify agree a env t body)
  show ?case
  proof (intro allI impI)
    fix fd a' env' i'
    assume f: "fundecl env = Some fd"
      and r: "analyze_statement derive simplify agree a env (Some (JAF_STMT_DO_WHILE t body))
                = Inr (a', env', i')"
    then obtain t' body' where r0: "analyze_expression derive simplify a env t = Inr t'"
      and r1: "analyze_statement derive simplify agree a env body = Inr (a', env', body')"
      and i': "i' = Some (JAF_STMT_DO_WHILE t' body')"
      by (auto split: sum.splits)
    show "\<forall>r \<in> set (item_returns i'). agree r (decl_type fd)"
      using "11.IH"[OF r0, rule_format, OF f r1] i' by simp
  qed
next
  case (12 derive simplify agree a env ini t af body)
  show ?case
  proof (intro allI impI)
    fix fd a' env' i'
    assume f: "fundecl env = Some fd"
      and r: "analyze_statement derive simplify agree a env (Some (JAF_STMT_FOR ini t af body))
                 = Inr (a', env', i')"
    then obtain a1 env1 ini' t' af' body' where
      r0: "analyze_block derive simplify agree a env ini = Inr (a1, env1, ini')"
      and r1: "analyze_expression derive simplify a1 env1 t = Inr t'"
      and r2: "analyze_expression derive simplify a1 env1 af = Inr af'"
      and r3: "analyze_statement derive simplify agree a1 env1 body = Inr (a', env', body')"
      and i': "i' = Some (JAF_STMT_FOR ini' t' af' body')"
      by (auto split: sum.splits)
    have f1: "fundecl env1 = Some fd"
      using analyze_env_preserved(4)[rule_format, OF r0] f by simp
    have "\<forall>r \<in> set (block_returns ini'). agree r (decl_type fd)"
      using "12.IH"(1)[rule_format, OF f r0] by blast
    moreover have "\<forall>r \<in> set (item_returns body'). agree r (decl_type fd)"
      using "12.IH"(2)[OF r0 refl refl r1 r2, rule_format, OF f1 r3] by blast
    ultimately show "\<forall>r \<in> set (item_returns i'). agree r (decl_type fd)"
      using i' by auto
  qed
next
  case (13 derive simplify agree a env e)
  show ?case
  proof (intro allI impI)
    fix fd a' env' i'
    assume f: "fundecl env = Some fd"
      and r: "analyze_statement derive simplify agree a env (Some (JAF_STMT_RETURN e))
                 = Inr (a', env', i')"
    show "\<forall>r \<in> set (item_returns i'). agree r (decl_type fd)"
    proof (cases "analyze_expression derive simplify a env e")
      case (Inl x)
      then show ?thesis using r by simp
    next
      case (Inr e')
      then show ?thesis using r f
        by (cases "agree e' (decl_type fd)") (auto simp: jaf_check_type_def)
    qed
  qed
next
  case (14 derive simplify agree a env s)
  show ?case
  proof (intro allI impI)
    fix fd a' env' i'
    assume f: "fundecl env = Some fd"
      and r: "analyze_statement derive simplify agree a env (Some (JAF_STMT_CASE s))
                = Inr (a', env', i')"
    then obtain s' where r1: "analyze_statement derive simplify agree a env s = Inr (a', env', s')"
      and i': "i' = Some (JAF_STMT_CASE s')"
      by (auto split: sum.splits)
    show "\<forall>r \<in> set (item_returns i'). agree r (decl_type fd)"
      using "14.IH"[rule_format, OF f r1] i' by simp
  qed
next
  case (15 derive simplify agree a env s)
  show ?case
  proof (intro allI impI)
    fix fd a' env' i'
    assume f: "fundecl env = Some fd"
      and r: "analyze_statement derive simplify agree a env (Some (JAF_STMT_DEFAULT s))
                = Inr (a', env', i')"
    then obtain s' where r1: "analyze_statement derive simplify agree a env s = Inr (a', env', s')"
      and i': "i' = Some (JAF_STMT_DEFAULT s')"
      by (auto split: sum.splits)
    show "\<forall>r \<in> set (item_returns i'). agree r (decl_type fd)"
      using "15.IH"[rule_format, OF f r1] i' by simp
  qed
next
  case (16 derive simplify agree a env)
  then show ?case by simp
next
  case (17 derive simplify agree a env)
  then show ?case by simp
next
  case (18 derive simplify agree a env)
  then show ?case by simp
next
  case (19 derive simplify agree a env)
  then show ?case by simp
next
  case (20 derive simplify agree a env i "is")
  show ?case
  proof (intro allI impI)
    fix fd a' env' b'
    assume f: "fundecl env = Some fd"
      and r: "jaf_analyze_block derive simplify agree a env (i # is) = Inr (a', env', b')"
    then obtain a1 env1 i' is' where
      r1: "analyze_statement derive simplify agree a env i = Inr (a1, env1, i')"
      and r2: "jaf_analyze_block derive simplify agree a1 env1 is = Inr (a', env', is')"
      and b': "b' = i' # is'"
      by (auto split: sum.splits)
    have f1: "fundecl env1 = Some fd"
      using analyze_env_preserved(2)[rule_format, OF r1] f by (simp add: same_frame_def)
    have "\<forall>r \<in> set (item_returns i'). agree r (decl_type fd)"
      using "20.IH"(1)[rule_format, OF f r1] by blast
    moreover have "\<forall>r \<in> set (block_returns is'). agree r (decl_type fd)"
      using "20.IH"(2)[OF r1 refl refl, rule_format, OF f1 r2] by blast
    ultimately show "\<forall>r \<in> set (block_returns b'). agree r (decl_type fd)"
      using b' by auto
  qed
next
  case (21 derive simplify agree a env b)
  show ?case
  proof (intro allI impI)
    fix fd a' env' b'
    assume f: "fundecl env = Some fd"
      and r: "analyze_block derive simplify agree a env b = Inr (a', env', b')"
    then obtain blockenv where
      r1: "jaf_analyze_block derive simplify agree a
             (Jaf_Env (Some env) (env_func_no env) (fundecl env) []) b = Inr (a', blockenv, b')"
      by (auto split: sum.splits option.splits)
    have f': "fundecl (Jaf_Env (Some env) (env_func_no env) (fundecl env) []) = Some fd"
      using f by simp
    show "\<forall>r \<in> set (block_returns b'). agree r (decl_type fd)"
      using "21.IH"[rule_format, OF f' r1] by blast
  qed
qed


text \<open>
  C7. In an environment whose enclosing function is \<open>fd\<close>, a return statement is
  analysed in two steps: its expression is derived and simplified, where an error of
  the deriver ends the run, and the result of that, not the expression as written, is
  checked against the declared type of \<open>fd\<close>; a disagreement is a \<open>TypeMismatch\<close>.
  A return statement without an expression has nothing to analyse and goes to the same
  check.
  An analysis of a function that succeeds has therefore checked every return statement
  of its body, at any depth, against the type the function declares.
\<close>

theorem return_checked_against_function_type:
  "(fundecl env = Some fd \<longrightarrow>
      analyze_statement derive simplify agree a env (Some (JAF_STMT_RETURN (Some x))) =
        (case derive a env x of
           Inl err \<Rightarrow> Inl err
         | Inr x1 \<Rightarrow>
             if agree (Some (simplify x1)) (decl_type fd)
             then Inr (a, env, Some (JAF_STMT_RETURN (Some (simplify x1))))
             else Inl TypeMismatch)
      \<and> analyze_statement derive simplify agree a env (Some (JAF_STMT_RETURN None)) =
          (if agree None (decl_type fd) then Inr (a, env, Some (JAF_STMT_RETURN None))
           else Inl TypeMismatch))
   \<and> (analyze_function derive simplify agree a env d = Inr (a', env', d') \<longrightarrow>
        decl_type d' = decl_type d
        \<and> (\<forall>r \<in> set (block_returns (decl_body d')). agree r (decl_type d)))"
proof (intro conjI impI)
  assume "fundecl env = Some fd"
  then show "analyze_statement derive simplify agree a env (Some (JAF_STMT_RETURN (Some x))) =
        (case derive a env x of
           Inl err \<Rightarrow> Inl err
         | Inr x1 \<Rightarrow>
             if agree (Some (simplify x1)) (decl_type fd)
             then Inr (a, env, Some (JAF_STMT_RETURN (Some (simplify x1))))
             else Inl TypeMismatch)"
    by (simp add: analyze_expression_def jaf_check_type_def split: sum.splits)
next
  assume "fundecl env = Some fd"
  then show "analyze_statement derive simplify agree a env (Some (JAF_STMT_RETURN None)) =
          (if agree None (decl_type fd) then Inr (a, env, Some (JAF_STMT_RETURN None))
           else Inl TypeMismatch)"
    by (simp add: analyze_expression_def jaf_check_type_def)
next
  assume r: "analyze_function derive simplify agree a env d = Inr (a', env', d')"
  show "decl_type d' = decl_type d"
    using analyze_returns_checked(1)[rule_format, OF r] by simp
  show "\<forall>r \<in> set (block_returns (decl_body d')). agree r (decl_type d)"
    using analyze_returns_checked(1)[rule_format, OF r] by simp
qed

theorem return_checked_against_function_type_witness:
  "fundecl (Jaf_Env (Some global_env) 0 (Some fun_r) []) = Some fun_r
   \<and> analyze_statement jaf_derive_types jaf_simplify types_agree ain_f
        (Jaf_Env (Some global_env) 0 (Some fun_r) []) (Some (JAF_STMT_RETURN (Some one_plus_two)))
       = Inl TypeMismatch
   \<and> analyze_function jaf_derive_types jaf_simplify types_agree ain_f global_env fun_r
       = Inl TypeMismatch
   \<and> analyze_function jaf_derive_types jaf_simplify types_agree ain_f global_env (fun_i one_plus_two)
       = Inr (ain_f, global_env, fun_i (JAF_EXP_INT 3))
   \<and> decl_type (fun_i (JAF_EXP_INT 3)) = decl_type (fun_i one_plus_two)
   \<and> block_returns (decl_body (fun_i (JAF_EXP_INT 3))) = [Some (JAF_EXP_INT 3)]
   \<and> types_agree (Some (JAF_EXP_INT 3)) (decl_type (fun_i one_plus_two))"
proof -
  have f: "fundecl (Jaf_Env (Some global_env) 0 (Some fun_r) []) = Some fun_r" by simp
  have s: "analyze_statement jaf_derive_types jaf_simplify types_agree ain_f
        (Jaf_Env (Some global_env) 0 (Some fun_r) []) (Some (JAF_STMT_RETURN (Some one_plus_two)))
       = Inl TypeMismatch"
    by (subst return_checked_against_function_type
              [where fd = fun_r, THEN conjunct1, rule_format, OF f, THEN conjunct1])
       (simp add: jaf_derive_types_def one_plus_two_def types_agree_def fun_r_def fun_decl_def)
  have r: "analyze_function jaf_derive_types jaf_simplify types_agree ain_f global_env fun_r
       = Inl TypeMismatch"
    by (simp add: fun_r_def fun_decl_def ain_f_def ain_T_def function_f_def
          analyze_expression_def jaf_derive_types_def one_plus_two_def types_agree_def
          jaf_check_type_def)
  have i: "analyze_function jaf_derive_types jaf_simplify types_agree ain_f global_env
             (fun_i one_plus_two)
       = Inr (ain_f, global_env, fun_i (JAF_EXP_INT 3))"
    by (simp add: fun_i_def fun_decl_def ain_f_def ain_T_def function_f_def
          analyze_expression_def jaf_derive_types_def one_plus_two_def types_agree_def
          jaf_check_type_def)
  have b: "block_returns (decl_body (fun_i (JAF_EXP_INT 3))) = [Some (JAF_EXP_INT 3)]"
    by (simp add: fun_i_def fun_decl_def)
  have t: "decl_type (fun_i (JAF_EXP_INT 3)) = decl_type (fun_i one_plus_two)
           \<and> (\<forall>r \<in> set (block_returns (decl_body (fun_i (JAF_EXP_INT 3)))).
                 types_agree r (decl_type (fun_i one_plus_two)))"
    by (rule return_checked_against_function_type
               [where a' = ain_f and env' = global_env, THEN conjunct2, rule_format, OF i])
  have g: "types_agree (Some (JAF_EXP_INT 3)) (decl_type (fun_i one_plus_two))"
    using t b by simp
  show ?thesis by (intro conjI f s r i b g t [THEN conjunct1])
qed

text \<open>
  C5, as the code has it. A declaration at global scope that has no initializer is
  accepted as it is and gets no initial-value record. One that has an initializer has it
  derived and simplified, the result checked against the declared type, with
  \<open>TypeMismatch\<close> on disagreement, and turned into an initial-value record: a literal
  int, float or string gives the record, which is added to the table with the slot
  index of the global, and any other expression is \<open>InitvalNotConstant\<close>.
\<close>

theorem global_initializer:
  "parent env = None \<longrightarrow>
     (decl_init d = None \<longrightarrow>
        analyze_statement derive simplify agree a env (Some (JAF_DECLARATION d))
          = Inr (a, env, Some (JAF_DECLARATION d)))
     \<and> (\<forall>e0. decl_init d = Some e0 \<longrightarrow>
          analyze_statement derive simplify agree a env (Some (JAF_DECLARATION d)) =
            (case derive a env e0 of
               Inl x \<Rightarrow> Inl x
             | Inr e1 \<Rightarrow>
                 if decl_type d = None then Inl AssertionFailed
                 else if \<not> agree (Some (simplify e1)) (decl_type d) then Inl TypeMismatch
                 else
                   (case literal_value (simplify e1) of
                      None \<Rightarrow> Inl InitvalNotConstant
                    | Some (dt, v) \<Rightarrow>
                        Inr (a\<lparr>global_initvals := global_initvals a @
                                 [\<lparr>global_index = var_no d, data_type = dt, initval_value = v\<rparr>]\<rparr>,
                             env,
                             Some (JAF_DECLARATION (set_decl_init d (Some (simplify e1))))))))"
proof (intro impI conjI allI)
  assume "parent env = None" and "decl_init d = None"
  then show "analyze_statement derive simplify agree a env (Some (JAF_DECLARATION d))
          = Inr (a, env, Some (JAF_DECLARATION d))"
    by (simp add: analyze_global_declaration_def)
next
  fix e0
  assume p: "parent env = None" and i: "decl_init d = Some e0"
  show "analyze_statement derive simplify agree a env (Some (JAF_DECLARATION d)) =
            (case derive a env e0 of
               Inl x \<Rightarrow> Inl x
             | Inr e1 \<Rightarrow>
                 if decl_type d = None then Inl AssertionFailed
                 else if \<not> agree (Some (simplify e1)) (decl_type d) then Inl TypeMismatch
                 else
                   (case literal_value (simplify e1) of
                      None \<Rightarrow> Inl InitvalNotConstant
                    | Some (dt, v) \<Rightarrow>
                        Inr (a\<lparr>global_initvals := global_initvals a @
                                 [\<lparr>global_index = var_no d, data_type = dt, initval_value = v\<rparr>]\<rparr>,
                             env,
                             Some (JAF_DECLARATION (set_decl_init d (Some (simplify e1)))))))"
  proof (cases "derive a env e0")
    case (Inl x)
    then show ?thesis using p i
      by (simp add: analyze_global_declaration_def analyze_expression_def)
  next
    case (Inr e1)
    show ?thesis
      using p i Inr
      by (cases "simplify e1")
         (simp_all add: analyze_global_declaration_def analyze_expression_def
            jaf_check_type_def jaf_to_initval_def ain_add_initval_def)
  qed
qed

theorem global_initializer_witness:
  "parent global_env = None
   \<and> decl_init (global_z 0) = None
   \<and> analyze_statement jaf_derive_types jaf_simplify types_agree ain_f global_env
        (Some (JAF_DECLARATION (global_z 0)))
       = Inr (ain_f, global_env, Some (JAF_DECLARATION (global_z 0)))
   \<and> analyze_statement jaf_derive_types jaf_simplify types_agree ain_f global_env
        (global_x one_plus_two 0)
       = Inr (ain_f\<lparr>global_initvals :=
                      [\<lparr>global_index = 0, data_type = AIN_INT, initval_value = Int_Value 3\<rparr>]\<rparr>,
              global_env, global_x (JAF_EXP_INT 3) 0)"
proof -
  have p: "parent global_env = None" by (simp add: global_env_def)
  have z: "decl_init (global_z 0) = None" by (simp add: global_z_def)
  have x: "decl_init (Declaration (Some ''x'') (Some (Type_Specifier JAF_INT None 0 None))
                        (Some one_plus_two) None [] 0 0) = Some one_plus_two"
    by simp
  have t1: "analyze_statement jaf_derive_types jaf_simplify types_agree ain_f global_env
        (Some (JAF_DECLARATION (global_z 0)))
       = Inr (ain_f, global_env, Some (JAF_DECLARATION (global_z 0)))"
    by (rule global_initializer [rule_format, OF p, THEN conjunct1, rule_format, OF z])
  have t2: "analyze_statement jaf_derive_types jaf_simplify types_agree ain_f global_env
        (global_x one_plus_two 0)
       = Inr (ain_f\<lparr>global_initvals :=
                      [\<lparr>global_index = 0, data_type = AIN_INT, initval_value = Int_Value 3\<rparr>]\<rparr>,
              global_env, global_x (JAF_EXP_INT 3) 0)"
    unfolding global_x_def
    by (subst global_initializer [rule_format, OF p, THEN conjunct2, rule_format, OF x])
       (simp add: jaf_derive_types_def one_plus_two_def types_agree_def set_decl_init_def
          ain_f_def ain_T_def)
  show ?thesis by (intro conjI p z t1 t2)
qed

text \<open>
  \<open>int z;\<close> at top level: the analysis succeeds, the global has its slot, and the table
  has no initial-value record.
\<close>

theorem global_without_initializer_counterexample:
  "decl_init (global_z 7) = None
   \<and> jaf_static_analyze (\<lambda>s. s) (- 1) jaf_derive_types jaf_simplify types_agree ain_T
        [Some (JAF_DECLARATION (global_z 7))]
       = Inr (ain_T\<lparr>globals := [\<lparr>var_name = Some ''z'', var_name2 = None,
                                  var_type = \<lparr>data = AIN_INT, struc = 0\<rparr>\<rparr>]\<rparr>,
              [Some (JAF_DECLARATION (global_z 0))])
   \<and> global_initvals (ain_T\<lparr>globals := [\<lparr>var_name = Some ''z'', var_name2 = None,
                                  var_type = \<lparr>data = AIN_INT, struc = 0\<rparr>\<rparr>]\<rparr>) = []"
  by (simp add: global_z_def jaf_static_analyze_def resolve_decl_types_def set_decl_type_def
        add_global_def ain_add_global_def jaf_to_ain_type_def zero_variable_def zero_type_def
        set_var_no_def analyze_global_declaration_def ain_T_def)

text \<open>
  C6. The three passes on the one top-level declaration \<open>int x = 1 + 2;\<close>, from any
  table: the global table gains one slot, of type int, at its end; the table of initial
  values gains one record, for that slot, of type int and with the value 3; and the
  declaration carries the slot index and the folded initializer.
\<close>

theorem global_int_x_folded:
  "jaf_static_analyze enc nf jaf_derive_types jaf_simplify types_agree a
       [global_x one_plus_two vn]
     = Inr (a\<lparr>globals := globals a @
                 [\<lparr>var_name = Some (enc ''x''), var_name2 = None,
                   var_type = \<lparr>data = AIN_INT, struc = 0\<rparr>\<rparr>],
               global_initvals := global_initvals a @
                 [\<lparr>global_index = int (length (globals a)), data_type = AIN_INT,
                   initval_value = Int_Value 3\<rparr>]\<rparr>,
            [global_x (JAF_EXP_INT 3) (int (length (globals a)))])"
  by (simp add: global_x_def one_plus_two_def jaf_static_analyze_def resolve_decl_types_def
        set_decl_type_def add_global_def ain_add_global_def jaf_to_ain_type_def
        zero_variable_def zero_type_def set_var_no_def analyze_global_declaration_def
        analyze_expression_def jaf_derive_types_def jaf_check_type_def types_agree_def
        jaf_to_initval_def ain_add_initval_def set_decl_init_def)

section \<open>The type table through the analysis\<close>

lemma only_initvals_refl: "only_initvals a a"
  unfolding only_initvals_def by (rule exI[of _ "[]"]) simp

lemma only_initvals_trans: "only_initvals a a1 \<Longrightarrow> only_initvals a1 a2 \<Longrightarrow> only_initvals a a2"
  by (auto simp: only_initvals_def)

lemma only_initvals_global:
  assumes "analyze_global_declaration derive simplify agree a env d = Inr (a', d')"
  shows "only_initvals a a'"
proof (cases "decl_init d")
  case None
  then show ?thesis using assms
    by (simp add: analyze_global_declaration_def only_initvals_refl)
next
  case (Some e0)
  then obtain iv where "a' = ain_add_initval a iv"
    using assms
    by (auto simp: analyze_global_declaration_def split: option.splits sum.splits if_splits)
  then show ?thesis
    unfolding only_initvals_def ain_add_initval_def by blast
qed

lemma analyze_only_initvals:
  "\<forall>a' env' d'. analyze_function derive simplify agree a env d = Inr (a', env', d') \<longrightarrow>
      only_initvals a a'"
  "\<forall>a' env' i'. analyze_statement derive simplify agree a env i = Inr (a', env', i') \<longrightarrow>
      only_initvals a a'"
  "\<forall>a' env' b'. jaf_analyze_block derive simplify agree a env b = Inr (a', env', b') \<longrightarrow>
      only_initvals a a'"
  "\<forall>a' env' b'. analyze_block derive simplify agree a env b = Inr (a', env', b') \<longrightarrow>
      only_initvals a a'"
proof (induction derive simplify agree a env d and derive simplify agree a env i
         and derive simplify agree a env b and derive simplify agree a env b
       rule: analyze_function_analyze_statement_jaf_analyze_block_analyze_block.induct)
  case (1 derive simplify agree a env nm ty ini ps body vn fn)
  show ?case
  proof (intro allI impI)
    fix a' env' d'
    assume r: "analyze_function derive simplify agree a env (Declaration nm ty ini ps body vn fn)
                 = Inr (a', env', d')"
    then have c: "\<not> \<not> fn < int (length (ain_functions a))" "\<not> fn < 0"
      by (auto split: if_splits)
    from r c obtain funenv body' where
      r1: "jaf_analyze_block derive simplify agree a
             (Jaf_Env (Some env) fn (Some (Declaration nm ty ini ps body vn fn))
                (map (\<lambda>i. (fn, int i)) [0..<nr_args (ain_functions a ! nat fn)])) body
             = Inr (a', funenv, body')"
      by (auto split: sum.splits option.splits if_splits)
    show "only_initvals a a'" using "1.IH"[OF c, rule_format, OF r1] .
  qed
next
  case (2 derive simplify agree a env)
  then show ?case by (simp add: only_initvals_refl)
next
  case (3 derive simplify agree a env d)
  show ?case
  proof (intro allI impI)
    fix a' env' i'
    assume r: "analyze_statement derive simplify agree a env (Some (JAF_DECLARATION d))
                 = Inr (a', env', i')"
    show "only_initvals a a'"
    proof (cases "parent env \<noteq> None")
      case True
      then show ?thesis using r
        by (cases "analyze_local_declaration a env d") (auto simp: only_initvals_refl)
    next
      case False
      then show ?thesis using r
        by (cases "analyze_global_declaration derive simplify agree a env d")
           (auto dest: only_initvals_global)
    qed
  qed
next
  case (4 derive simplify agree a env d)
  show ?case
  proof (intro allI impI)
    fix a' env' i'
    assume r: "analyze_statement derive simplify agree a env (Some (JAF_FUNDECL d))
                 = Inr (a', env', i')"
    then obtain d' where "analyze_function derive simplify agree a env d = Inr (a', env', d')"
      by (cases "analyze_function derive simplify agree a env d") auto
    then show "only_initvals a a'" using "4.IH" by blast
  qed
next
  case (5 derive simplify agree a env s)
  show ?case
  proof (intro allI impI)
    fix a' env' i'
    assume r: "analyze_statement derive simplify agree a env (Some (JAF_STMT_LABELED s))
                 = Inr (a', env', i')"
    then obtain s' where "analyze_statement derive simplify agree a env s = Inr (a', env', s')"
      by (cases "analyze_statement derive simplify agree a env s") auto
    then show "only_initvals a a'" using "5.IH" by blast
  qed
next
  case (6 derive simplify agree a env b)
  show ?case
  proof (intro allI impI)
    fix a' env' i'
    assume r: "analyze_statement derive simplify agree a env (Some (JAF_STMT_COMPOUND b))
                 = Inr (a', env', i')"
    then obtain b' where "analyze_block derive simplify agree a env b = Inr (a', env', b')"
      by (cases "analyze_block derive simplify agree a env b") auto
    then show "only_initvals a a'" using "6.IH" by blast
  qed
next
  case (7 derive simplify agree a env e)
  show ?case
  proof (intro allI impI)
    fix a' env' i'
    assume r: "analyze_statement derive simplify agree a env (Some (JAF_STMT_EXPRESSION e))
                 = Inr (a', env', i')"
    then have "a' = a"
      by (cases "analyze_expression derive simplify a env e") auto
    then show "only_initvals a a'" by (simp add: only_initvals_refl)
  qed
next
  case (8 derive simplify agree a env t c alt)
  show ?case
  proof (intro allI impI)
    fix a' env' i'
    assume r: "analyze_statement derive simplify agree a env (Some (JAF_STMT_IF t c alt))
                 = Inr (a', env', i')"
    then obtain t' a1 env1 c' alt' where
      r0: "analyze_expression derive simplify a env t = Inr t'"
      and r1: "analyze_statement derive simplify agree a env c = Inr (a1, env1, c')"
      and r2: "analyze_statement derive simplify agree a1 env1 alt = Inr (a', env', alt')"
      by (auto split: sum.splits)
    have "only_initvals a a1" using "8.IH"(1)[OF r0, rule_format, OF r1] .
    moreover have "only_initvals a1 a'"
      using "8.IH"(2)[OF r0 r1 refl refl, rule_format, OF r2] .
    ultimately show "only_initvals a a'" by (rule only_initvals_trans)
  qed
next
  case (9 derive simplify agree a env e b)
  show ?case
  proof (intro allI impI)
    fix a' env' i'
    assume r: "analyze_statement derive simplify agree a env (Some (JAF_STMT_SWITCH e b))
                 = Inr (a', env', i')"
    then obtain e' b' where r0: "analyze_expression derive simplify a env e = Inr e'"
      and r1: "analyze_block derive simplify agree a env b = Inr (a', env', b')"
      by (auto split: sum.splits)
    show "only_initvals a a'" using "9.IH"[OF r0, rule_format, OF r1] .
  qed
next
  case (10 derive simplify agree a env t body)
  show ?case
  proof (intro allI impI)
    fix a' env' i'
    assume r: "analyze_statement derive simplify agree a env (Some (JAF_STMT_WHILE t body))
                 = Inr (a', env', i')"
    then obtain t' body' where r0: "analyze_expression derive simplify a env t = Inr t'"
      and r1: "analyze_statement derive simplify agree a env body = Inr (a', env', body')"
      by (auto split: sum.splits)
    show "only_initvals a a'" using "10.IH"[OF r0, rule_format, OF r1] .
  qed
next
  case (11 derive simplify agree a env t body)
  show ?case
  proof (intro allI impI)
    fix a' env' i'
    assume r: "analyze_statement derive simplify agree a env (Some (JAF_STMT_DO_WHILE t body))
                 = Inr (a', env', i')"
    then obtain t' body' where r0: "analyze_expression derive simplify a env t = Inr t'"
      and r1: "analyze_statement derive simplify agree a env body = Inr (a', env', body')"
      by (auto split: sum.splits)
    show "only_initvals a a'" using "11.IH"[OF r0, rule_format, OF r1] .
  qed
next
  case (12 derive simplify agree a env ini t af body)
  show ?case
  proof (intro allI impI)
    fix a' env' i'
    assume r: "analyze_statement derive simplify agree a env (Some (JAF_STMT_FOR ini t af body))
                 = Inr (a', env', i')"
    then obtain a1 env1 ini' t' af' body' where
      r0: "analyze_block derive simplify agree a env ini = Inr (a1, env1, ini')"
      and r1: "analyze_expression derive simplify a1 env1 t = Inr t'"
      and r2: "analyze_expression derive simplify a1 env1 af = Inr af'"
      and r3: "analyze_statement derive simplify agree a1 env1 body = Inr (a', env', body')"
      by (auto split: sum.splits)
    have "only_initvals a a1" using "12.IH"(1)[rule_format, OF r0] .
    moreover have "only_initvals a1 a'"
      using "12.IH"(2)[OF r0 refl refl r1 r2, rule_format, OF r3] .
    ultimately show "only_initvals a a'" by (rule only_initvals_trans)
  qed
next
  case (13 derive simplify agree a env e)
  show ?case
  proof (intro allI impI)
    fix a' env' i'
    assume r: "analyze_statement derive simplify agree a env (Some (JAF_STMT_RETURN e))
                 = Inr (a', env', i')"
    then have "a' = a"
      by (cases "analyze_expression derive simplify a env e")
         (auto split: option.splits sum.splits)
    then show "only_initvals a a'" by (simp add: only_initvals_refl)
  qed
next
  case (14 derive simplify agree a env s)
  show ?case
  proof (intro allI impI)
    fix a' env' i'
    assume r: "analyze_statement derive simplify agree a env (Some (JAF_STMT_CASE s))
                 = Inr (a', env', i')"
    then obtain s' where "analyze_statement derive simplify agree a env s = Inr (a', env', s')"
      by (cases "analyze_statement derive simplify agree a env s") auto
    then show "only_initvals a a'" using "14.IH" by blast
  qed
next
  case (15 derive simplify agree a env s)
  show ?case
  proof (intro allI impI)
    fix a' env' i'
    assume r: "analyze_statement derive simplify agree a env (Some (JAF_STMT_DEFAULT s))
                 = Inr (a', env', i')"
    then obtain s' where "analyze_statement derive simplify agree a env s = Inr (a', env', s')"
      by (cases "analyze_statement derive simplify agree a env s") auto
    then show "only_initvals a a'" using "15.IH" by blast
  qed
next
  case (16 derive simplify agree a env)
  then show ?case by (simp add: only_initvals_refl)
next
  case (17 derive simplify agree a env)
  then show ?case by (simp add: only_initvals_refl)
next
  case (18 derive simplify agree a env)
  then show ?case by (simp add: only_initvals_refl)
next
  case (19 derive simplify agree a env)
  then show ?case by (simp add: only_initvals_refl)
next
  case (20 derive simplify agree a env i "is")
  show ?case
  proof (intro allI impI)
    fix a' env' b'
    assume r: "jaf_analyze_block derive simplify agree a env (i # is) = Inr (a', env', b')"
    then obtain a1 env1 i' is' where
      r1: "analyze_statement derive simplify agree a env i = Inr (a1, env1, i')"
      and r2: "jaf_analyze_block derive simplify agree a1 env1 is = Inr (a', env', is')"
      by (auto split: sum.splits)
    have "only_initvals a a1" using "20.IH"(1)[rule_format, OF r1] .
    moreover have "only_initvals a1 a'"
      using "20.IH"(2)[OF r1 refl refl, rule_format, OF r2] .
    ultimately show "only_initvals a a'" by (rule only_initvals_trans)
  qed
next
  case (21 derive simplify agree a env b)
  show ?case
  proof (intro allI impI)
    fix a' env' b'
    assume r: "analyze_block derive simplify agree a env b = Inr (a', env', b')"
    then obtain blockenv where
      r1: "jaf_analyze_block derive simplify agree a
             (Jaf_Env (Some env) (env_func_no env) (fundecl env) []) b = Inr (a', blockenv, b')"
      by (auto split: sum.splits option.splits)
    show "only_initvals a a'" using "21.IH"[rule_format, OF r1] .
  qed
qed

lemma map_update_same: "(map f xs)[k := f (xs ! k)] = map f xs"
  by (cases "k < length xs") (simp_all add: list_eq_iff_nth_eq nth_list_update)

lemma resolve_decl_types_names:
  "resolve_decl_types enc nf a d = Inr (a', d') \<Longrightarrow>
     map struct_name (structures a') = map struct_name (structures a)"
  by (auto simp: resolve_decl_types_def map_update map_update_same
      split: option.splits sum.splits if_splits)

lemma resolve_types_names:
  "\<forall>a' i'. resolve_statement_types enc nf a i = Inr (a', i') \<longrightarrow>
      map struct_name (structures a') = map struct_name (structures a)"
  "\<forall>a' b'. jaf_resolve_types enc nf a b = Inr (a', b') \<longrightarrow>
      map struct_name (structures a') = map struct_name (structures a)"
proof (induction enc nf a i and enc nf a b rule: resolve_statement_types_jaf_resolve_types.induct)
  case (2 enc nf a d)
  show ?case
  proof (intro allI impI)
    fix a' i'
    assume "resolve_statement_types enc nf a (Some (JAF_DECLARATION d)) = Inr (a', i')"
    then obtain d' where "resolve_decl_types enc nf a d = Inr (a', d')"
      by (cases "resolve_decl_types enc nf a d") auto
    then show "map struct_name (structures a') = map struct_name (structures a)"
      by (rule resolve_decl_types_names)
  qed
next
  case (4 enc nf a nm ty ini ps body vn fn)
  show ?case
  proof (intro allI impI)
    fix a' i'
    assume "resolve_statement_types enc nf a
              (Some (JAF_FUNDECL (Declaration nm ty ini (Some ps) body vn fn))) = Inr (a', i')"
    then obtain a1 ps' body' where
      r1: "jaf_resolve_types enc nf a ps = Inr (a1, ps')"
      and r2: "jaf_resolve_types enc nf a1 body = Inr (a', body')"
      by (auto split: sum.splits)
    show "map struct_name (structures a') = map struct_name (structures a)"
      using "4.IH"(1)[rule_format, OF r1] "4.IH"(2)[OF r1 refl, rule_format, OF r2] by simp
  qed
next
  case (7 enc nf a t c alt)
  show ?case
  proof (intro allI impI)
    fix a' i'
    assume "resolve_statement_types enc nf a (Some (JAF_STMT_IF t c alt)) = Inr (a', i')"
    then obtain a1 c' alt' where
      r1: "resolve_statement_types enc nf a c = Inr (a1, c')"
      and r2: "resolve_statement_types enc nf a1 alt = Inr (a', alt')"
      by (auto split: sum.splits)
    show "map struct_name (structures a') = map struct_name (structures a)"
      using "7.IH"(1)[rule_format, OF r1] "7.IH"(2)[OF r1 refl, rule_format, OF r2] by simp
  qed
next
  case (11 enc nf a ini t af body)
  show ?case
  proof (intro allI impI)
    fix a' i'
    assume "resolve_statement_types enc nf a (Some (JAF_STMT_FOR ini t af body)) = Inr (a', i')"
    then obtain a1 ini' body' where
      r1: "jaf_resolve_types enc nf a ini = Inr (a1, ini')"
      and r2: "resolve_statement_types enc nf a1 body = Inr (a', body')"
      by (auto split: sum.splits)
    show "map struct_name (structures a') = map struct_name (structures a)"
      using "11.IH"(1)[rule_format, OF r1] "11.IH"(2)[OF r1 refl, rule_format, OF r2] by simp
  qed
next
  case (16 enc nf a i "is")
  show ?case
  proof (intro allI impI)
    fix a' b'
    assume "jaf_resolve_types enc nf a (i # is) = Inr (a', b')"
    then obtain a1 i' is' where
      r1: "resolve_statement_types enc nf a i = Inr (a1, i')"
      and r2: "jaf_resolve_types enc nf a1 is = Inr (a', is')"
      by (auto split: sum.splits)
    show "map struct_name (structures a') = map struct_name (structures a)"
      using "16.IH"(1)[rule_format, OF r1] "16.IH"(2)[OF r1 refl, rule_format, OF r2] by simp
  qed
next
  case (3 enc nf a nm ty ini body vn fn)
  show ?case
  proof (intro allI impI)
    fix a' i'
    assume "resolve_statement_types enc nf a (Some (JAF_FUNDECL (Declaration nm ty ini None body vn fn))) = Inr (a', i')"
    then obtain x' where "jaf_resolve_types enc nf a body = Inr (a', x')"
      by (cases "jaf_resolve_types enc nf a body") auto
    then show "map struct_name (structures a') = map struct_name (structures a)"
      using "3.IH" by blast
  qed
next
  case (5 enc nf a s)
  show ?case
  proof (intro allI impI)
    fix a' i'
    assume "resolve_statement_types enc nf a (Some (JAF_STMT_LABELED s)) = Inr (a', i')"
    then obtain x' where "resolve_statement_types enc nf a s = Inr (a', x')"
      by (cases "resolve_statement_types enc nf a s") auto
    then show "map struct_name (structures a') = map struct_name (structures a)"
      using "5.IH" by blast
  qed
next
  case (6 enc nf a b)
  show ?case
  proof (intro allI impI)
    fix a' i'
    assume "resolve_statement_types enc nf a (Some (JAF_STMT_COMPOUND b)) = Inr (a', i')"
    then obtain x' where "jaf_resolve_types enc nf a b = Inr (a', x')"
      by (cases "jaf_resolve_types enc nf a b") auto
    then show "map struct_name (structures a') = map struct_name (structures a)"
      using "6.IH" by blast
  qed
next
  case (8 enc nf a x b)
  show ?case
  proof (intro allI impI)
    fix a' i'
    assume "resolve_statement_types enc nf a (Some (JAF_STMT_SWITCH x b)) = Inr (a', i')"
    then obtain x' where "jaf_resolve_types enc nf a b = Inr (a', x')"
      by (cases "jaf_resolve_types enc nf a b") auto
    then show "map struct_name (structures a') = map struct_name (structures a)"
      using "8.IH" by blast
  qed
next
  case (9 enc nf a t body)
  show ?case
  proof (intro allI impI)
    fix a' i'
    assume "resolve_statement_types enc nf a (Some (JAF_STMT_WHILE t body)) = Inr (a', i')"
    then obtain x' where "resolve_statement_types enc nf a body = Inr (a', x')"
      by (cases "resolve_statement_types enc nf a body") auto
    then show "map struct_name (structures a') = map struct_name (structures a)"
      using "9.IH" by blast
  qed
next
  case (10 enc nf a t body)
  show ?case
  proof (intro allI impI)
    fix a' i'
    assume "resolve_statement_types enc nf a (Some (JAF_STMT_DO_WHILE t body)) = Inr (a', i')"
    then obtain x' where "resolve_statement_types enc nf a body = Inr (a', x')"
      by (cases "resolve_statement_types enc nf a body") auto
    then show "map struct_name (structures a') = map struct_name (structures a)"
      using "10.IH" by blast
  qed
next
  case (12 enc nf a s)
  show ?case
  proof (intro allI impI)
    fix a' i'
    assume "resolve_statement_types enc nf a (Some (JAF_STMT_CASE s)) = Inr (a', i')"
    then obtain x' where "resolve_statement_types enc nf a s = Inr (a', x')"
      by (cases "resolve_statement_types enc nf a s") auto
    then show "map struct_name (structures a') = map struct_name (structures a)"
      using "12.IH" by blast
  qed
next
  case (13 enc nf a s)
  show ?case
  proof (intro allI impI)
    fix a' i'
    assume "resolve_statement_types enc nf a (Some (JAF_STMT_DEFAULT s)) = Inr (a', i')"
    then obtain x' where "resolve_statement_types enc nf a s = Inr (a', x')"
      by (cases "resolve_statement_types enc nf a s") auto
    then show "map struct_name (structures a') = map struct_name (structures a)"
      using "13.IH" by blast
  qed
qed simp_all

lemma process_declarations_structures:
  "jaf_process_declarations enc a b = Inr (a', b') \<Longrightarrow> structures a' = structures a"
proof (induction enc a b arbitrary: a' b' rule: jaf_process_declarations.induct)
  case (3 enc a item "is")
  from "3.prems" obtain d where d: "item_decl item = Some d"
    by (cases "item_decl item") auto
  from "3.prems" d obtain a1 d' is' where
    r1: "(if decl_name d = None then Inr (a, d)
          else if item = JAF_FUNDECL d then add_function enc a d
          else add_global enc a d) = Inr (a1, d')"
    and r2: "jaf_process_declarations enc a1 is = Inr (a', is')"
    by (auto split: sum.splits)
  have "structures a1 = structures a"
    using r1
    by (auto simp: add_function_def add_global_def ain_add_function_def ain_add_global_def
        Let_def split: if_splits option.splits sum.splits)
  moreover have "structures a' = structures a1"
    using "3.IH"[OF d r1 refl r2] .
  ultimately show ?case by simp
qed simp_all

text \<open>
  C2. A struct type whose name is in the type table already is refused by
  \<open>jaf_define_struct\<close> with "Redefining structs not supported", and the table is left
  as it was. Whatever the outcome of a call, a table in which every name occurs once is
  still such a table afterwards, and the three passes of the analysis leave the names
  of the table as they find them: a name has at most one definition in the table after
  analysis.
\<close>

theorem define_struct_unique:
  "(ts_name t = Some n \<and> enc n \<in> struct_name ` set (structures a) \<longrightarrow>
      jaf_define_struct enc a t = (a, Inl DuplicateDefinition))
   \<and> (distinct (map struct_name (structures a)) \<longrightarrow>
      distinct (map struct_name (structures (fst (jaf_define_struct enc a t)))))
   \<and> (jaf_static_analyze enc nf derive simplify agree a b = Inr (a', b') \<longrightarrow>
      map struct_name (structures a') = map struct_name (structures a))"
proof (intro conjI impI)
  assume h: "ts_name t = Some n \<and> enc n \<in> struct_name ` set (structures a)"
  then have "ain_get_struct a (enc n) \<noteq> None" by (simp add: ain_get_struct_None)
  with h show "jaf_define_struct enc a t = (a, Inl DuplicateDefinition)"
    by (cases t; cases "ts_def t") auto
next
  assume "distinct (map struct_name (structures a))"
  then show "distinct (map struct_name (structures (fst (jaf_define_struct enc a t))))"
    using define_struct_distinct(1) by blast
next
  assume "jaf_static_analyze enc nf derive simplify agree a b = Inr (a', b')"
  then obtain a1 b1 a2 b2 env3 where
    r1: "jaf_resolve_types enc nf a b = Inr (a1, b1)"
    and r2: "jaf_process_declarations enc a1 b1 = Inr (a2, b2)"
    and r3: "jaf_analyze_block derive simplify agree a2 (Jaf_Env None 0 None []) b2
               = Inr (a', env3, b')"
    unfolding jaf_static_analyze_def by (auto split: sum.splits)
  have "map struct_name (structures a1) = map struct_name (structures a)"
    using resolve_types_names(2)[rule_format, OF r1] .
  moreover have "structures a2 = structures a1"
    using process_declarations_structures[OF r2] .
  moreover have "only_initvals a2 a'"
    using analyze_only_initvals(3)[rule_format, OF r3] .
  ultimately show "map struct_name (structures a') = map struct_name (structures a)"
    by (auto simp: only_initvals_def)
qed

theorem define_struct_unique_witness:
  "ts_name struct_T = Some ''T''
   \<and> ''T'' \<in> struct_name ` set (structures ain_T)
   \<and> distinct (map struct_name (structures ain_T))
   \<and> jaf_define_struct (\<lambda>s. s) ain_T struct_T = (ain_T, Inl DuplicateDefinition)
   \<and> distinct (map struct_name (structures (fst (jaf_define_struct (\<lambda>s. s) ain_T struct_T))))
   \<and> jaf_static_analyze (\<lambda>s. s) (- 1) jaf_derive_types jaf_simplify types_agree ain_T
        [Some (JAF_DECLARATION (global_z 7))]
       = Inr (ain_T\<lparr>globals := [\<lparr>var_name = Some ''z'', var_name2 = None,
                                  var_type = \<lparr>data = AIN_INT, struc = 0\<rparr>\<rparr>]\<rparr>,
              [Some (JAF_DECLARATION (global_z 0))])
   \<and> map struct_name (structures (ain_T\<lparr>globals := [\<lparr>var_name = Some ''z'', var_name2 = None,
                                  var_type = \<lparr>data = AIN_INT, struc = 0\<rparr>\<rparr>]\<rparr>))
       = map struct_name (structures ain_T)"
proof -
  have d: "ts_name struct_T = Some ''T'' \<and> ''T'' \<in> struct_name ` set (structures ain_T)"
    by (simp add: struct_T_def ain_T_def)
  have u: "distinct (map struct_name (structures ain_T))" by (simp add: ain_T_def)
  have s: "jaf_static_analyze (\<lambda>s. s) (- 1) jaf_derive_types jaf_simplify types_agree ain_T
        [Some (JAF_DECLARATION (global_z 7))]
       = Inr (ain_T\<lparr>globals := [\<lparr>var_name = Some ''z'', var_name2 = None,
                                  var_type = \<lparr>data = AIN_INT, struc = 0\<rparr>\<rparr>]\<rparr>,
              [Some (JAF_DECLARATION (global_z 0))])"
    by (simp add: global_z_def jaf_static_analyze_def resolve_decl_types_def set_decl_type_def
          add_global_def ain_add_global_def jaf_to_ain_type_def zero_variable_def zero_type_def
          set_var_no_def analyze_global_declaration_def ain_T_def)
  note th = define_struct_unique [of struct_T "''T''" "\<lambda>s. s" ain_T "- 1" jaf_derive_types
              jaf_simplify types_agree "[Some (JAF_DECLARATION (global_z 7))]"
              "ain_T\<lparr>globals := [\<lparr>var_name = Some ''z'', var_name2 = None,
                                  var_type = \<lparr>data = AIN_INT, struc = 0\<rparr>\<rparr>]\<rparr>"
              "[Some (JAF_DECLARATION (global_z 0))]"]
  show ?thesis
    by (intro conjI d [THEN conjunct1] d [THEN conjunct2] u s
          th [THEN conjunct1, rule_format, OF d]
          th [THEN conjunct2, THEN conjunct1, rule_format, OF u]
          th [THEN conjunct2, THEN conjunct2, rule_format, OF s])
qed

end
